theory Spec2Isabelle
  imports Complex_Main
begin

section \<open>JavaScript numbers\<close>

text \<open>
  A JavaScript number is an IEEE 754 double. The finite ones are modelled as the reals they
  denote. An arithmetic operation of the cost engines is the exact operation followed by
  \<open>toDouble\<close>, the rounding to the nearest double with ties to the even significand (53
  significant bits, exponents from -1022 with subnormals below); a decimal literal \<open>x\<close> of
  the source denotes \<open>toDouble x\<close>; comparisons are exact. NaN, the infinities and the sign
  of zero are not represented, so a result beyond the double range stays finite here.
  Integers that the code only ever holds as integers (hours, months, years, epoch
  milliseconds, indexes) are modelled as \<open>int\<close> or \<open>nat\<close>. In the gas calculator and in
  the CSV parsers the sums and products are the exact ones on these reals: what is proved of
  them concerns the grouping, order and selection of the values.
\<close>

text \<open>The binary exponent of a positive real: for \<open>1 \<le> x\<close> by halving, below 1 by doubling.\<close>

function binadeUp :: "real \<Rightarrow> int \<Rightarrow> int" where
  "binadeUp x e = (if x < 2 then e else binadeUp (x / 2) (e + 1))"
  by pat_completeness auto
termination
  by (relation "measure (\<lambda>(x, e). nat \<lfloor>x\<rfloor>)") (auto, linarith)

function binadeDown :: "real \<Rightarrow> int \<Rightarrow> int" where
  "binadeDown x e = (if 1 \<le> x \<or> e \<le> - 1022 then e else binadeDown (x * 2) (e - 1))"
  by pat_completeness auto
termination
  by (relation "measure (\<lambda>(x, e). nat (e + 1022))") auto

declare binadeUp.simps [simp del] binadeDown.simps [simp del]

definition pow2 :: "int \<Rightarrow> real" where
  "pow2 e = (if 0 \<le> e then 2 ^ nat e else 1 / 2 ^ nat (- e))"

text \<open>Rounding to the nearest integer, ties to even: \<open>n\<close> is the floor of \<open>x\<close>.\<close>

definition roundFrom :: "real \<Rightarrow> int \<Rightarrow> int" where
  "roundFrom x n =
     (if x - of_int n < 1 / 2 then n
      else if 1 / 2 < x - of_int n then n + 1
      else if even n then n else n + 1)"

definition roundTiesToEven :: "real \<Rightarrow> int" where
  "roundTiesToEven x = roundFrom x \<lfloor>x\<rfloor>"

definition binade :: "real \<Rightarrow> int" where
  "binade a = (if 1 \<le> a then binadeUp a 0 else binadeDown a 0)"

text \<open>Rounding a positive real to a multiple of the unit in the last place \<open>u\<close>.\<close>

definition roundToUnit :: "real \<Rightarrow> real \<Rightarrow> real" where
  "roundToUnit a u = of_int (roundTiesToEven (a / u)) * u"

definition toDouble :: "real \<Rightarrow> real" where
  "toDouble x =
     (if x = 0 then 0
      else if 0 < x then roundToUnit x (pow2 (binade x - 52))
      else - roundToUnit (- x) (pow2 (binade (- x) - 52)))"

text \<open>The operators \<open>+\<close>, \<open>-\<close>, \<open>*\<close> and \<open>/\<close> on numbers.\<close>

definition fadd :: "real \<Rightarrow> real \<Rightarrow> real" where
  "fadd x y = toDouble (x + y)"

definition fsub :: "real \<Rightarrow> real \<Rightarrow> real" where
  "fsub x y = toDouble (x - y)"

definition fmul :: "real \<Rightarrow> real \<Rightarrow> real" where
  "fmul x y = toDouble (x * y)"

definition fdiv :: "real \<Rightarrow> real \<Rightarrow> real" where
  "fdiv x y = toDouble (x / y)"

section \<open>Data model (types.ts)\<close>

text \<open>
  A \<open>Date\<close> is modelled by what the accessors the code calls return for it in the host
  time zone: \<open>getTime()\<close>, \<open>getFullYear()\<close>, \<open>getMonth()\<close> (zero-indexed) and
  \<open>getHours()\<close>. The optional \<open>summerRate\<close> of a period is the field the tariffs of
  constants.tsx carry and part\_001 reads.
\<close>

record jsDate =
  getTime :: int
  getFullYear :: int
  getMonth :: int
  getHours :: int

record EnergyReading =
  timestamp :: jsDate
  value_kwh :: real

record TariffPeriod =
  period_name :: string
  startHour :: int
  endHour :: int
  rate :: real
  summerRate :: "real option"

datatype TariffType = Flat | Tou | Tiered

record Tariff =
  tariff_id :: string
  tariff_name :: string
  description :: string
  tariff_type :: TariffType
  periods :: "TariffPeriod list"
  fixedMonthlyCharge :: real
  provider :: "string option"

record MonthlyBreakdown =
  monthName :: string
  usage :: real
  cost :: real

record DetailedCost =
  totalCost :: real
  breakdown :: "MonthlyBreakdown list"

record ComparisonResult =
  tariffId :: string
  tariffName :: string
  totalUsage :: real
  cmp_totalCost :: real
  estimatedMonthlyCost :: real
  savingsVsCurrent :: real
  cmp_breakdown :: "MonthlyBreakdown list"

section \<open>JavaScript library functions used by the cost engines\<close>

text \<open>\<open>String(n)\<close> for an integer \<open>n\<close>: decimal digits, with a leading minus sign.\<close>

function showNat :: "nat \<Rightarrow> string" where
  "showNat n = (if n < 10 then [''0123456789'' ! n] else showNat (n div 10) @ [''0123456789'' ! (n mod 10)])"
  by pat_completeness auto
termination
  by (relation "measure id") auto

declare showNat.simps [simp del]

definition showInt :: "int \<Rightarrow> string" where
  "showInt i = (if i < 0 then CHR ''-'' # showNat (nat (- i)) else showNat (nat i))"

text \<open>\<open>s.padStart(2, '0')\<close>.\<close>

definition padStart2 :: "string \<Rightarrow> string" where
  "padStart2 s = replicate (2 - length s) CHR ''0'' @ s"

text \<open>
  \<open>a.localeCompare(b)\<close>, modelled as the comparison of the two strings by character code;
  on the month keys \<open>YYYY-MM\<close> (digits and a hyphen) this is the order the host collation
  gives. The result is negative, zero or positive.
\<close>

fun localeCompare :: "string \<Rightarrow> string \<Rightarrow> int" where
  "localeCompare [] [] = 0"
| "localeCompare [] (b # bs) = - 1"
| "localeCompare (a # as) [] = 1"
| "localeCompare (a # as) (b # bs) =
     (if (of_char a :: nat) < of_char b then - 1
      else if (of_char b :: nat) < of_char a then 1
      else localeCompare as bs)"

text \<open>
  \<open>xs.sort(cmp)\<close>: a stable sort by a comparator; \<open>cmp a b \<le> 0\<close> keeps \<open>a\<close> before \<open>b\<close>.
\<close>

fun insertBy :: "('a \<Rightarrow> 'a \<Rightarrow> int) \<Rightarrow> 'a \<Rightarrow> 'a list \<Rightarrow> 'a list" where
  "insertBy cmp x [] = [x]"
| "insertBy cmp x (y # ys) = (if cmp x y \<le> 0 then x # y # ys else y # insertBy cmp x ys)"

definition sortBy :: "('a \<Rightarrow> 'a \<Rightarrow> int) \<Rightarrow> 'a list \<Rightarrow> 'a list" where
  "sortBy cmp xs = foldr (insertBy cmp) xs []"

section \<open>The cost engine of services/energyCalculator.ts\<close>

text \<open>
  The month key \<open>`${date.getFullYear()}-${String(date.getMonth() + 1).padStart(2, '0')}`\<close>.
\<close>

definition monthKey :: "jsDate \<Rightarrow> string" where
  "monthKey date = showInt (getFullYear date) @ ''-'' @ padStart2 (showInt (getMonth date + 1))"

text \<open>
  The loop state of \<open>calculateDetailedCost\<close>: the record \<open>periodMap\<close> (keys in insertion
  order, each with its usage and cost), the running energy total \<open>totalCost\<close>, and the
  tiered-pricing state \<open>monthlyUsageCounter\<close> and \<open>currentMonth\<close>.
\<close>

record costState =
  periodMap :: "(string \<times> real \<times> real) list"
  totalCost_acc :: real
  monthlyUsageCounter :: real
  currentMonth :: int

definition initialState :: costState where
  "initialState = \<lparr>periodMap = [], totalCost_acc = 0, monthlyUsageCounter = 0, currentMonth = - 1\<rparr>"

text \<open>Lines 19-22: reset the tiered usage when \<open>getMonth()\<close> differs from the tracked month.\<close>

definition resetIfMonthChanged :: "costState \<Rightarrow> jsDate \<Rightarrow> costState" where
  "resetIfMonthChanged s date =
     (if getMonth date \<noteq> currentMonth s
      then s\<lparr>monthlyUsageCounter := 0, currentMonth := getMonth date\<rparr>
      else s)"

text \<open>Lines 24-26: \<open>if (!periodMap[monthKey]) periodMap[monthKey] = { usage: 0, cost: 0 }\<close>.\<close>

definition ensureKey :: "string \<Rightarrow> (string \<times> real \<times> real) list \<Rightarrow> (string \<times> real \<times> real) list" where
  "ensureKey k pm = (case map_of pm k of None \<Rightarrow> pm @ [(k, 0, 0)] | Some _ \<Rightarrow> pm)"

text \<open>Lines 61-62: \<open>periodMap[monthKey].usage += value; periodMap[monthKey].cost += energyCost\<close>.\<close>

fun addToKey :: "string \<Rightarrow> real \<Rightarrow> real \<Rightarrow> (string \<times> real \<times> real) list \<Rightarrow> (string \<times> real \<times> real) list" where
  "addToKey k u c [] = []"
| "addToKey k u c ((k', u', c') # pm) =
     (if k' = k then (k', fadd u' u, fadd c' c) # pm else (k', u', c') # addToKey k u c pm)"

text \<open>The predicate of \<open>tariff.periods.find\<close> (lines 50-56).\<close>

definition hourInPeriod :: "int \<Rightarrow> TariffPeriod \<Rightarrow> bool" where
  "hourInPeriod hour p =
     (if startHour p \<le> endHour p
      then hour \<ge> startHour p \<and> hour \<le> endHour p
      else hour \<ge> startHour p \<or> hour \<le> endHour p)"

text \<open>
  Lines 28-58: the rate of one reading, given the counter after the reset. \<open>None\<close> is the
  TypeError of \<open>tariff.periods[0].rate\<close> on an empty \<open>periods\<close>. The baselines 270 and
  350 are integers, the multipliers are the doubles of the literals 1.28 and 1.45.
\<close>

definition selectRate :: "Tariff \<Rightarrow> jsDate \<Rightarrow> real \<Rightarrow> real option" where
  "selectRate tariff date counter =
     (let hour = getHours date in
      if tariff_type tariff = Flat \<or> tariff_type tariff = Tiered then
        (let month = getMonth date;
             isSummer = (month \<ge> 5 \<and> month \<le> 8);
             baseline = (if isSummer then 270 else 350 :: real)
         in case periods tariff of
              [] \<Rightarrow> None
            | p0 # _ \<Rightarrow>
                (let baseRate = rate p0 in
                 if counter < baseline then Some baseRate
                 else if counter < fmul baseline 4 then Some (fmul baseRate (toDouble 1.28))
                 else Some (fmul baseRate (toDouble 1.45))))
      else
        (case find (hourInPeriod hour) (periods tariff) of
           Some period \<Rightarrow> Some (rate period)
         | None \<Rightarrow> (case periods tariff of [] \<Rightarrow> None | p0 # _ \<Rightarrow> Some (rate p0))))"

text \<open>The body of \<open>readings.forEach\<close> (lines 12-65).\<close>

definition processReading :: "Tariff \<Rightarrow> costState \<Rightarrow> EnergyReading \<Rightarrow> costState option" where
  "processReading tariff s reading =
     (let date = timestamp reading;
          key = monthKey date;
          s1 = resetIfMonthChanged s date;
          pm = ensureKey key (periodMap s1)
      in case selectRate tariff date (monthlyUsageCounter s1) of
           None \<Rightarrow> None
         | Some r \<Rightarrow>
             (let energyCost = fmul (value_kwh reading) r in
              Some \<lparr>periodMap = addToKey key (value_kwh reading) energyCost pm,
                    totalCost_acc = fadd (totalCost_acc s1) energyCost,
                    monthlyUsageCounter = fadd (monthlyUsageCounter s1) (value_kwh reading),
                    currentMonth = currentMonth s1\<rparr>))"

text \<open>\<open>forEach\<close> with a body that may throw: the first error ends the loop.\<close>

fun forEachReading :: "(costState \<Rightarrow> EnergyReading \<Rightarrow> costState option) \<Rightarrow> costState \<Rightarrow> EnergyReading list \<Rightarrow> costState option" where
  "forEachReading body s [] = Some s"
| "forEachReading body s (r # rs) =
     (case body s r of None \<Rightarrow> None | Some s' \<Rightarrow> forEachReading body s' rs)"

text \<open>Lines 67-78: the breakdown, newest month first, and the total with the fixed charges.\<close>

definition finishCost :: "Tariff \<Rightarrow> costState \<Rightarrow> DetailedCost" where
  "finishCost tariff s =
     (let bd = sortBy (\<lambda>a b. localeCompare (monthName b) (monthName a))
                 (map (\<lambda>(key, u, c). \<lparr>monthName = key, usage = u, cost = fadd c (fixedMonthlyCharge tariff)\<rparr>)
                      (periodMap s));
          totalWithFixed = fadd (totalCost_acc s) (fmul (real (length bd)) (fixedMonthlyCharge tariff))
      in \<lparr>totalCost = totalWithFixed, breakdown = bd\<rparr>)"

definition calculateDetailedCost :: "EnergyReading list \<Rightarrow> Tariff \<Rightarrow> DetailedCost option" where
  "calculateDetailedCost readings tariff =
     (case forEachReading (processReading tariff) initialState readings of
        None \<Rightarrow> None
      | Some s \<Rightarrow> Some (finishCost tariff s))"

text \<open>
  \<open>compareTariffs\<close> (lines 81-111). \<open>None\<close> is a TypeError: of \<open>calculateDetailedCost\<close>, or of
  reading \<open>tariff.type\<close> when \<open>allTariffs\<close> is empty and \<open>currentTariff\<close> is undefined.
\<close>

definition compareTariffs :: "EnergyReading list \<Rightarrow> string \<Rightarrow> Tariff list \<Rightarrow> ComparisonResult list option" where
  "compareTariffs readings currentTariffId allTariffs =
     (if length readings = 0 then Some []
      else
        case (case find (\<lambda>t. tariff_id t = currentTariffId) allTariffs of
                Some t \<Rightarrow> Some t
              | None \<Rightarrow> (case allTariffs of [] \<Rightarrow> None | t0 # _ \<Rightarrow> Some t0)) of
          None \<Rightarrow> None
        | Some currentTariff \<Rightarrow>
            (case calculateDetailedCost readings currentTariff of
               None \<Rightarrow> None
             | Some currentCalc \<Rightarrow>
                 (let msInReadings = fsub (real_of_int (getTime (timestamp (readings ! (length readings - 1)))))
                                          (real_of_int (getTime (timestamp (readings ! 0))));
                      daysInReadings = max (toDouble 0.1)
                                         (fdiv msInReadings (fmul (fmul (fmul 1000 60) 60) 24));
                      monthMultiplier = fdiv 30 daysInReadings;
                      currentEnergyOnly = fsub (totalCost currentCalc)
                        (fmul (real (length (breakdown currentCalc))) (fixedMonthlyCharge currentTariff));
                      currentMonthlyEstimate = fadd (fmul currentEnergyOnly monthMultiplier)
                        (fixedMonthlyCharge currentTariff)
                  in those (map (\<lambda>t.
                       case calculateDetailedCost readings t of
                         None \<Rightarrow> None
                       | Some calc \<Rightarrow>
                           (let energyCostOnly = fsub (totalCost calc)
                                  (fmul (real (length (breakdown calc))) (fixedMonthlyCharge t));
                                estimated = fadd (fmul energyCostOnly monthMultiplier) (fixedMonthlyCharge t)
                            in Some \<lparr>tariffId = tariff_id t,
                                     tariffName = tariff_name t,
                                     totalUsage = foldl (\<lambda>s r. fadd s (value_kwh r)) 0 readings,
                                     cmp_totalCost = totalCost calc,
                                     estimatedMonthlyCost = estimated,
                                     savingsVsCurrent = fsub currentMonthlyEstimate estimated,
                                     cmp_breakdown = breakdown calc\<rparr>))
                     allTariffs))))"

section \<open>The cost engine of src/unnamed/part\_001\<close>

text \<open>
  The second copy of the engine: the same loop, with a seasonal rate (\<open>getEffectiveRate\<close>)
  and a single tier above the baseline.
\<close>

definition isSummerMonth :: "int \<Rightarrow> bool" where
  "isSummerMonth month = (month \<ge> 5 \<and> month \<le> 8)"

definition getEffectiveRate :: "TariffPeriod \<Rightarrow> int \<Rightarrow> real" where
  "getEffectiveRate period month =
     (case summerRate period of
        Some sr \<Rightarrow> if isSummerMonth month then sr else rate period
      | None \<Rightarrow> rate period)"

definition selectRate_part001 :: "Tariff \<Rightarrow> jsDate \<Rightarrow> real \<Rightarrow> real option" where
  "selectRate_part001 tariff date counter =
     (let hour = getHours date;
          month = getMonth date in
      if tariff_type tariff = Flat \<or> tariff_type tariff = Tiered then
        (let isSummer = isSummerMonth month;
             baseline = (if isSummer then 270 else 350 :: real)
         in case periods tariff of
              [] \<Rightarrow> None
            | p0 # _ \<Rightarrow>
                (let baseRate = getEffectiveRate p0 month in
                 if counter < baseline then Some baseRate
                 else Some (fmul baseRate (toDouble 1.24))))
      else
        (case find (hourInPeriod hour) (periods tariff) of
           Some period \<Rightarrow> Some (getEffectiveRate period month)
         | None \<Rightarrow> (case periods tariff of [] \<Rightarrow> None | p0 # _ \<Rightarrow> Some (getEffectiveRate p0 month))))"

definition processReading_part001 :: "Tariff \<Rightarrow> costState \<Rightarrow> EnergyReading \<Rightarrow> costState option" where
  "processReading_part001 tariff s reading =
     (let date = timestamp reading;
          key = monthKey date;
          s1 = resetIfMonthChanged s date;
          pm = ensureKey key (periodMap s1)
      in case selectRate_part001 tariff date (monthlyUsageCounter s1) of
           None \<Rightarrow> None
         | Some r \<Rightarrow>
             (let energyCost = fmul (value_kwh reading) r in
              Some \<lparr>periodMap = addToKey key (value_kwh reading) energyCost pm,
                    totalCost_acc = fadd (totalCost_acc s1) energyCost,
                    monthlyUsageCounter = fadd (monthlyUsageCounter s1) (value_kwh reading),
                    currentMonth = currentMonth s1\<rparr>))"

definition calculateDetailedCost_part001 :: "EnergyReading list \<Rightarrow> Tariff \<Rightarrow> DetailedCost option" where
  "calculateDetailedCost_part001 readings tariff =
     (case forEachReading (processReading_part001 tariff) initialState readings of
        None \<Rightarrow> None
      | Some s \<Rightarrow> Some (finishCost tariff s))"

definition compareTariffs_part001 :: "EnergyReading list \<Rightarrow> string \<Rightarrow> Tariff list \<Rightarrow> ComparisonResult list option" where
  "compareTariffs_part001 readings currentTariffId allTariffs =
     (if length readings = 0 then Some []
      else
        case (case find (\<lambda>t. tariff_id t = currentTariffId) allTariffs of
                Some t \<Rightarrow> Some t
              | None \<Rightarrow> (case allTariffs of [] \<Rightarrow> None | t0 # _ \<Rightarrow> Some t0)) of
          None \<Rightarrow> None
        | Some currentTariff \<Rightarrow>
            (case calculateDetailedCost_part001 readings currentTariff of
               None \<Rightarrow> None
             | Some currentCalc \<Rightarrow>
                 (let msInReadings = fsub (real_of_int (getTime (timestamp (readings ! (length readings - 1)))))
                                          (real_of_int (getTime (timestamp (readings ! 0))));
                      daysInReadings = max (toDouble 0.1)
                                         (fdiv msInReadings (fmul (fmul (fmul 1000 60) 60) 24));
                      monthMultiplier = fdiv 30 daysInReadings;
                      currentEnergyOnly = fsub (totalCost currentCalc)
                        (fmul (real (length (breakdown currentCalc))) (fixedMonthlyCharge currentTariff));
                      currentMonthlyEstimate = fadd (fmul currentEnergyOnly monthMultiplier)
                        (fixedMonthlyCharge currentTariff)
                  in those (map (\<lambda>t.
                       case calculateDetailedCost_part001 readings t of
                         None \<Rightarrow> None
                       | Some calc \<Rightarrow>
                           (let energyCostOnly = fsub (totalCost calc)
                                  (fmul (real (length (breakdown calc))) (fixedMonthlyCharge t));
                                estimated = fadd (fmul energyCostOnly monthMultiplier) (fixedMonthlyCharge t)
                            in Some \<lparr>tariffId = tariff_id t,
                                     tariffName = tariff_name t,
                                     totalUsage = foldl (\<lambda>s r. fadd s (value_kwh r)) 0 readings,
                                     cmp_totalCost = totalCost calc,
                                     estimatedMonthlyCost = estimated,
                                     savingsVsCurrent = fsub currentMonthlyEstimate estimated,
                                     cmp_breakdown = breakdown calc\<rparr>))
                     allTariffs))))"

section \<open>The gas calculator (services/gasCalculator.ts)\<close>

record GasReading =
  gas_timestamp :: jsDate
  value_therms :: real

record GasTariff =
  gas_id :: string
  gas_name :: string
  gas_description :: string
  baselineRate :: real
  overBaselineRate :: real
  baselineTherms :: real
  gas_fixedMonthlyCharge :: real

record GasComparisonResult =
  gas_tariffId :: string
  gas_tariffName :: string
  gas_totalUsage :: real
  gas_totalCost :: real
  gas_estimatedMonthlyCost :: real
  gas_breakdown :: "MonthlyBreakdown list"

text \<open>
  \<open>monthlyData\<close> is a \<open>Map\<close> from month keys to the readings of the month, in insertion
  order. \<open>pushReading\<close> is \<open>monthlyData.get(monthKey)!.push(reading)\<close>; \<open>groupReading\<close> is the
  body of the grouping loop (lines 79-85).
\<close>

fun pushReading :: "string \<Rightarrow> GasReading \<Rightarrow> (string \<times> GasReading list) list \<Rightarrow> (string \<times> GasReading list) list" where
  "pushReading k r [] = []"
| "pushReading k r ((k', xs) # m) =
     (if k' = k then (k', xs @ [r]) # m else (k', xs) # pushReading k r m)"

definition groupReading :: "(string \<times> GasReading list) list \<Rightarrow> GasReading \<Rightarrow> (string \<times> GasReading list) list" where
  "groupReading monthlyData reading =
     (let key = monthKey (gas_timestamp reading);
          m1 = (if map_of monthlyData key = None then monthlyData @ [(key, [])] else monthlyData)
      in pushReading key reading m1)"

text \<open>Lines 89-100: the breakdown entry of one month.\<close>

definition gasMonthEntry :: "GasTariff \<Rightarrow> string \<times> GasReading list \<Rightarrow> MonthlyBreakdown" where
  "gasMonthEntry tariff entry =
     (case entry of (name, monthReadings) \<Rightarrow>
        (let usage = foldl (\<lambda>sum r. sum + value_therms r) 0 monthReadings;
             baseline = min usage (baselineTherms tariff);
             overBaseline = max 0 (usage - baselineTherms tariff);
             cost = (baseline * baselineRate tariff)
                  + (overBaseline * overBaselineRate tariff)
                  + gas_fixedMonthlyCharge tariff
         in \<lparr>monthName = name, usage = usage, cost = cost\<rparr>))"

definition calculateGasMonthlyBreakdown :: "GasReading list \<Rightarrow> GasTariff \<Rightarrow> MonthlyBreakdown list" where
  "calculateGasMonthlyBreakdown readings tariff =
     (if length readings = 0 then []
      else
        (let monthlyData = foldl groupReading [] readings;
             breakdown = map (gasMonthEntry tariff) monthlyData
         in sortBy (\<lambda>a b. localeCompare (monthName a) (monthName b)) breakdown))"

definition calculateGasComparison :: "GasReading list \<Rightarrow> GasTariff \<Rightarrow> GasComparisonResult" where
  "calculateGasComparison readings tariff =
     (let breakdown = calculateGasMonthlyBreakdown readings tariff;
          totalUsage = foldl (\<lambda>sum m. sum + usage m) 0 breakdown;
          totalCost = foldl (\<lambda>sum m. sum + cost m) 0 breakdown;
          estimated = (if length breakdown > 0 then totalCost / real (length breakdown) else 0)
      in \<lparr>gas_tariffId = gas_id tariff,
          gas_tariffName = gas_name tariff,
          gas_totalUsage = totalUsage,
          gas_totalCost = totalCost,
          gas_estimatedMonthlyCost = estimated,
          gas_breakdown = breakdown\<rparr>)"

section \<open>Strings and regular expressions of the CSV parsers\<close>

text \<open>
  Strings are lists of 8-bit characters. \<open>isSpace\<close> is the class \<open>\s\<close> (and what \<open>trim\<close>
  removes), \<open>isDigit\<close> the class \<open>\d\<close>.
\<close>

definition isSpace :: "char \<Rightarrow> bool" where
  "isSpace c = (c \<in> set [CHR '' '', CHR 0x09, CHR 0x0A, CHR 0x0B, CHR 0x0C, CHR 0x0D, CHR 0xA0])"

definition isDigit :: "char \<Rightarrow> bool" where
  "isDigit c = (c \<in> set ''0123456789'')"

definition digitVal :: "char \<Rightarrow> int" where
  "digitVal c =
     (case map_of (zip ''0123456789'' [0, 1, 2, 3, 4, 5, 6, 7, 8, 9]) c of
        Some d \<Rightarrow> d
      | None \<Rightarrow> 0)"

text \<open>\<open>Number(ds)\<close> for a string of decimal digits.\<close>

definition digitsVal :: "string \<Rightarrow> int" where
  "digitsVal ds = foldl (\<lambda>n c. 10 * n + digitVal c) 0 ds"

definition toLowerChar :: "char \<Rightarrow> char" where
  "toLowerChar c =
     (case map_of (zip ''ABCDEFGHIJKLMNOPQRSTUVWXYZ'' ''abcdefghijklmnopqrstuvwxyz'') c of
        Some l \<Rightarrow> l
      | None \<Rightarrow> c)"

definition toLowerCase :: "string \<Rightarrow> string" where
  "toLowerCase s = map toLowerChar s"

definition trim :: "string \<Rightarrow> string" where
  "trim s = rev (dropWhile isSpace (rev (dropWhile isSpace s)))"

text \<open>\<open>/lit/.test(s)\<close> for a literal pattern: \<open>lit\<close> occurs in \<open>s\<close>.\<close>

fun startsWith :: "string \<Rightarrow> string \<Rightarrow> bool" where
  "startsWith [] s = True"
| "startsWith (p # ps) [] = False"
| "startsWith (p # ps) (c # cs) = (p = c \<and> startsWith ps cs)"

fun contains :: "string \<Rightarrow> string \<Rightarrow> bool" where
  "contains lit [] = (lit = [])"
| "contains lit (c # cs) = (startsWith lit (c # cs) \<or> contains lit cs)"

text \<open>\<open>/a|b|c/.test(s)\<close> for literal alternatives.\<close>

definition containsAny :: "string list \<Rightarrow> string \<Rightarrow> bool" where
  "containsAny lits s = list_ex (\<lambda>lit. contains lit s) lits"

text \<open>\<open>s.replace(/\s+/g, ' ')\<close>: every run of white space becomes one space.\<close>

fun collapseFrom :: "bool \<Rightarrow> string \<Rightarrow> string" where
  "collapseFrom inRun [] = []"
| "collapseFrom inRun (c # cs) =
     (if isSpace c then (if inRun then collapseFrom True cs else CHR '' '' # collapseFrom True cs)
      else c # collapseFrom False cs)"

definition collapseSpaces :: "string \<Rightarrow> string" where
  "collapseSpaces s = collapseFrom False s"

text \<open>
  \<open>normalizeHeader\<close>: trim, lower case, collapse white space, drop brackets, then drop
  everything that is not a lower-case letter, a digit or a space.
\<close>

definition isHeaderChar :: "char \<Rightarrow> bool" where
  "isHeaderChar c = (c \<in> set ''abcdefghijklmnopqrstuvwxyz0123456789 '')"

definition normalizeHeader :: "string \<Rightarrow> string" where
  "normalizeHeader v =
     filter isHeaderChar
       (filter (\<lambda>c. c \<notin> set ''()[]{}'')
         (collapseSpaces (toLowerCase (trim v))))"


section \<open>Row tokenizer\<close>

text \<open>\<open>csvText.replace(/\r\n/g, '\n').replace(/\r/g, '\n')\<close>.\<close>

fun normalizeNewlines :: "string \<Rightarrow> string" where
  "normalizeNewlines [] = []"
| "normalizeNewlines [c] = (if c = CHR 0x0D then [CHR 0x0A] else [c])"
| "normalizeNewlines (c # d # cs) =
     (if c = CHR 0x0D \<and> d = CHR 0x0A then CHR 0x0A # normalizeNewlines cs
      else if c = CHR 0x0D then CHR 0x0A # normalizeNewlines (d # cs)
      else c # normalizeNewlines (d # cs))"

text \<open>\<open>pushRow\<close>: a row with a non-blank cell is kept, a fully empty row is dropped.\<close>

definition nonBlankRow :: "string list \<Rightarrow> bool" where
  "nonBlankRow row = list_ex (\<lambda>c. trim c \<noteq> []) row"

definition pushRow :: "string list \<Rightarrow> string list list \<Rightarrow> string list list" where
  "pushRow row rows = (if nonBlankRow row then rows @ [row] else rows)"

text \<open>
  The character loop of \<open>parseCsvRows\<close>, with its state \<open>inQuotes\<close>, \<open>cell\<close>, \<open>row\<close>,
  \<open>rows\<close>; at the end of the text the last cell and row are flushed.
\<close>

function scanCsv :: "bool \<Rightarrow> string \<Rightarrow> string list \<Rightarrow> string list list \<Rightarrow> string \<Rightarrow> string list list" where
  "scanCsv inQuotes cell row rows [] = pushRow (row @ [cell]) rows"
| "scanCsv inQuotes cell row rows (ch # text) =
     (if ch = CHR 0x22 then
        (if inQuotes \<and> take 1 text = [CHR 0x22]
         then scanCsv inQuotes (cell @ [CHR 0x22]) row rows (drop 1 text)
         else scanCsv (\<not> inQuotes) cell row rows text)
      else if \<not> inQuotes \<and> ch = CHR '','' then scanCsv inQuotes [] (row @ [cell]) rows text
      else if \<not> inQuotes \<and> ch = CHR 0x0A then scanCsv inQuotes [] [] (pushRow (row @ [cell]) rows) text
      else scanCsv inQuotes (cell @ [ch]) row rows text)"
  by pat_completeness auto
termination
  by (relation "measure (\<lambda>(inQuotes, cell, row, rows, text). length text)") auto

definition parseCsvRows :: "string \<Rightarrow> string list list" where
  "parseCsvRows csvText = scanCsv False [] [] [] (normalizeNewlines csvText)"

section \<open>Field interpreters\<close>

text \<open>
  \<open>parseNumber\<close>: the first match of \<open>-?\d+(?:\.\d+)?\<close> after the commas are removed.
  \<open>matchNumberAt\<close> is the match of the pattern at the start of a string: the sign, the
  integer digits and the fraction digits.
\<close>

definition matchUnsigned :: "string \<Rightarrow> (string \<times> string) option" where
  "matchUnsigned s =
     (let ds = takeWhile isDigit s; rest = dropWhile isDigit s in
      if ds = [] then None
      else (case rest of
              c # rest' \<Rightarrow>
                (if c = CHR ''.'' \<and> takeWhile isDigit rest' \<noteq> []
                 then Some (ds, takeWhile isDigit rest')
                 else Some (ds, []))
            | [] \<Rightarrow> Some (ds, [])))"

definition matchNumberAt :: "string \<Rightarrow> (bool \<times> string \<times> string) option" where
  "matchNumberAt s =
     (case (case s of c # s' \<Rightarrow> if c = CHR ''-'' then matchUnsigned s' else None | [] \<Rightarrow> None) of
        Some (ds, fs) \<Rightarrow> Some (True, ds, fs)
      | None \<Rightarrow> (case matchUnsigned s of Some (ds, fs) \<Rightarrow> Some (False, ds, fs) | None \<Rightarrow> None))"

fun firstNumber :: "string \<Rightarrow> (bool \<times> string \<times> string) option" where
  "firstNumber [] = None"
| "firstNumber (c # cs) =
     (case matchNumberAt (c # cs) of Some m \<Rightarrow> Some m | None \<Rightarrow> firstNumber cs)"

text \<open>
  \<open>Number(match[0])\<close> as an exact real; a magnitude that rounds to Infinity as a double
  (from \<open>2\<^sup>1\<^sup>0\<^sup>2\<^sup>4 - 2\<^sup>9\<^sup>7\<^sup>0\<close> on) is not finite and gives null.
\<close>

definition numberOfMatch :: "bool \<times> string \<times> string \<Rightarrow> real" where
  "numberOfMatch m =
     (case m of (neg, ds, fs) \<Rightarrow>
        (let v = of_int (digitsVal ds) + of_int (digitsVal fs) / 10 ^ length fs
         in if neg then - v else v))"

definition isFiniteNumber :: "real \<Rightarrow> bool" where
  "isFiniteNumber v =
     (\<bar>v\<bar> < 179769313486231580793728971405303415079934132710037826936173778980444968292764750946649017977587207096330286416692887910946555547851940402630657488671505820681908902000708383676273854845817711531764475730270069855571366959622842914819860834936475292719074168444365510704342711559699508093042880177904174497792)"

definition parseNumber :: "string \<Rightarrow> real option" where
  "parseNumber value =
     (let raw = trim value in
      if raw = [] then None
      else
        (let cleaned = filter (\<lambda>c. c \<noteq> CHR '','') raw in
         case firstNumber cleaned of
           None \<Rightarrow> None
         | Some m \<Rightarrow> (let num = numberOfMatch m in if isFiniteNumber num then Some num else None)))"

text \<open>
  \<open>parseTime\<close>. \<open>matchTime\<close> is the match of
  \<open>^\s*(\d{1,2})(?::(\d{2}))?(?::(\d{2}))?\s*(am|pm)?\s*$\<close> (case-insensitive): the hour
  digits, the minute and second digits when present, and whether a suffix was matched and
  which.
\<close>

datatype ampm = NoSuffix | AM | PM

definition takeColonPair :: "string \<Rightarrow> (string \<times> string) option" where
  "takeColonPair s =
     (case s of
        c # d1 # d2 # rest \<Rightarrow>
          if c = CHR '':'' \<and> isDigit d1 \<and> isDigit d2 then Some ([d1, d2], rest) else None
      | _ \<Rightarrow> None)"

definition takeSuffix :: "string \<Rightarrow> ampm \<times> string" where
  "takeSuffix s =
     (if startsWith ''am'' (toLowerCase (take 2 s)) then (AM, drop 2 s)
      else if startsWith ''pm'' (toLowerCase (take 2 s)) then (PM, drop 2 s)
      else (NoSuffix, s))"

definition matchTimeFrom :: "string \<Rightarrow> (string \<times> string option \<times> string option \<times> ampm) option" where
  "matchTimeFrom s =
     (let h = takeWhile isDigit s; r0 = dropWhile isDigit s in
      if length h < 1 \<or> length h > 2 then None
      else
        (let (mi, r1) = (case takeColonPair r0 of Some (m, r) \<Rightarrow> (Some m, r) | None \<Rightarrow> (None, r0));
             (se, r2) = (case takeColonPair r1 of Some (m, r) \<Rightarrow> (Some m, r) | None \<Rightarrow> (None, r1));
             (suffix, r3) = takeSuffix (dropWhile isSpace r2)
         in if dropWhile isSpace r3 = [] then Some (h, mi, se, suffix) else None))"

definition matchTime :: "string \<Rightarrow> (string \<times> string option \<times> string option \<times> ampm) option" where
  "matchTime t = matchTimeFrom (dropWhile isSpace t)"

definition parseTime :: "string \<Rightarrow> (int \<times> int \<times> int) option" where
  "parseTime timeRaw =
     (let t = trim timeRaw in
      if t = [] then None
      else
        (case matchTime t of
           None \<Rightarrow> None
         | Some (h, mi, se, suffix) \<Rightarrow>
             (let hours = digitsVal h;
                  minutes = digitsVal (case mi of Some m \<Rightarrow> m | None \<Rightarrow> ''0'');
                  seconds = digitsVal (case se of Some m \<Rightarrow> m | None \<Rightarrow> ''0'')
              in if minutes > 59 \<or> seconds > 59 then None
                 else if hours > 24 then None
                 else if suffix \<noteq> NoSuffix then
                   (if hours < 1 \<or> hours > 12 then None
                    else
                      (let hours1 = (if suffix = PM \<and> hours \<noteq> 12 then hours + 12 else hours);
                           hours2 = (if suffix = AM \<and> hours1 = 12 then 0 else hours1)
                       in Some (hours2, minutes, seconds)))
                 else Some (hours, minutes, seconds))))"

text \<open>
  \<open>parseUsDate\<close>. \<open>matchDate\<close> is the match of three digit groups with bounded lengths
  between two separators, anchored at both ends.
\<close>

definition matchDate :: "char \<Rightarrow> nat \<times> nat \<Rightarrow> nat \<times> nat \<Rightarrow> nat \<times> nat \<Rightarrow> string \<Rightarrow> (string \<times> string \<times> string) option" where
  "matchDate sep b1 b2 b3 d =
     (let g1 = takeWhile isDigit d; r1 = dropWhile isDigit d;
          g2 = takeWhile isDigit (drop 1 r1); r2 = dropWhile isDigit (drop 1 r1);
          g3 = takeWhile isDigit (drop 1 r2); r3 = dropWhile isDigit (drop 1 r2)
      in if fst b1 \<le> length g1 \<and> length g1 \<le> snd b1 \<and> take 1 r1 = [sep]
            \<and> fst b2 \<le> length g2 \<and> length g2 \<le> snd b2 \<and> take 1 r2 = [sep]
            \<and> fst b3 \<le> length g3 \<and> length g3 \<le> snd b3 \<and> r3 = []
         then Some (g1, g2, g3) else None)"

definition parseUsDate :: "string \<Rightarrow> (int \<times> int \<times> int) option" where
  "parseUsDate dateRaw =
     (let d = trim dateRaw in
      if d = [] then None
      else
        (case matchDate CHR ''-'' (4, 4) (2, 2) (2, 2) d of
           Some (g1, g2, g3) \<Rightarrow>
             (let year = digitsVal g1; monthIndex = digitsVal g2 - 1; day = digitsVal g3 in
              if monthIndex < 0 \<or> monthIndex > 11 then None
              else if day < 1 \<or> day > 31 then None
              else Some (year, monthIndex, day))
         | None \<Rightarrow>
        (case matchDate CHR ''/'' (1, 2) (1, 2) (2, 4) d of
           Some (g1, g2, g3) \<Rightarrow>
             (let monthIndex = digitsVal g1 - 1; day = digitsVal g2;
                  year = (if digitsVal g3 < 100 then digitsVal g3 + 2000 else digitsVal g3) in
              if monthIndex < 0 \<or> monthIndex > 11 then None
              else if day < 1 \<or> day > 31 then None
              else Some (year, monthIndex, day))
         | None \<Rightarrow>
        (case matchDate CHR ''-'' (1, 2) (1, 2) (4, 4) d of
           Some (g1, g2, g3) \<Rightarrow>
             (let monthIndex = digitsVal g1 - 1; day = digitsVal g2; year = digitsVal g3 in
              if monthIndex < 0 \<or> monthIndex > 11 then None
              else if day < 1 \<or> day > 31 then None
              else Some (year, monthIndex, day))
         | None \<Rightarrow> None))))"

section \<open>Dates of the host\<close>

text \<open>
  What the parsers take from the JavaScript host: \<open>Date.parse\<close> on a string (\<open>new Date(s)\<close>,
  whose accepted formats are implementation-defined; \<open>None\<close> is NaN), the time value of
  local date components (\<open>new Date(y, m, d, h, min, s, 0)\<close>; \<open>None\<close> is NaN), and the local
  year, month and hours of a time value.
\<close>

record hostDates =
  dateParse :: "string \<Rightarrow> int option"
  dateLocal :: "int \<Rightarrow> int \<Rightarrow> int \<Rightarrow> int \<Rightarrow> int \<Rightarrow> int \<Rightarrow> int option"
  yearOf :: "int \<Rightarrow> int"
  monthOf :: "int \<Rightarrow> int"
  hoursOf :: "int \<Rightarrow> int"

text \<open>The valid \<open>Date\<close> with a given time value.\<close>

definition dateOfTime :: "hostDates \<Rightarrow> int \<Rightarrow> jsDate" where
  "dateOfTime host ms =
     \<lparr>getTime = ms, getFullYear = yearOf host ms, getMonth = monthOf host ms, getHours = hoursOf host ms\<rparr>"

text \<open>
  A variable of type \<open>Date | null\<close>: null, an invalid \<open>Date\<close> (time value NaN, which is
  truthy), or a valid one. \<open>newDate\<close> is \<open>new Date(ms)\<close>, invalid beyond 8.64e15 ms.
\<close>

datatype dateOrNull = Null | InvalidDate | ValidDate jsDate

definition newDate :: "hostDates \<Rightarrow> int \<Rightarrow> dateOrNull" where
  "newDate host ms =
     (if \<bar>ms\<bar> \<le> 8640000000000000 then ValidDate (dateOfTime host ms) else InvalidDate)"

definition parseDateTime :: "hostDates \<Rightarrow> string \<Rightarrow> string option \<Rightarrow> jsDate option" where
  "parseDateTime host dateRaw timeRaw =
     (case parseUsDate dateRaw of
        None \<Rightarrow> None
      | Some (year, monthIndex, day) \<Rightarrow>
          (case (case timeRaw of
                   None \<Rightarrow> Some (0, 0, 0)
                 | Some t \<Rightarrow> parseTime t) of
             None \<Rightarrow> None
           | Some (hours, minutes, seconds) \<Rightarrow>
               (case dateLocal host year monthIndex day hours minutes seconds of
                  None \<Rightarrow> None
                | Some ms \<Rightarrow> Some (dateOfTime host ms))))"

text \<open>
  \<open>parseSingleDateTimeField\<close>. \<open>splitDateTime\<close> is the match of
  \<open>^(.+?)\s+(\d{1,2}(:\d{2})?(:\d{2})?\s*(am|pm)?)$\<close> (case-insensitive): the shortest
  non-empty prefix without a line break that is followed by white space and a time token
  reaching the end of the string.
\<close>

definition timeToken :: "string \<Rightarrow> bool" where
  "timeToken s =
     (let h = takeWhile isDigit s; r0 = dropWhile isDigit s in
      if length h < 1 \<or> length h > 2 then False
      else
        (let r1 = (case takeColonPair r0 of Some (m, r) \<Rightarrow> r | None \<Rightarrow> r0);
             r2 = (case takeColonPair r1 of Some (m, r) \<Rightarrow> r | None \<Rightarrow> r1)
         in snd (takeSuffix (dropWhile isSpace r2)) = []))"

fun splitDateTime :: "string \<Rightarrow> string \<Rightarrow> (string \<times> string) option" where
  "splitDateTime pre [] = None"
| "splitDateTime pre (c # cs) =
     (if pre \<noteq> [] \<and> isSpace c \<and> timeToken (dropWhile isSpace cs)
      then Some (pre, dropWhile isSpace cs)
      else if c = CHR 0x0A \<or> c = CHR 0x0D then None
      else splitDateTime (pre @ [c]) cs)"

definition parseSingleDateTimeField :: "hostDates \<Rightarrow> string \<Rightarrow> jsDate option" where
  "parseSingleDateTimeField host raw =
     (let s = trim raw in
      if s = [] then None
      else
        (case dateParse host s of
           Some ms \<Rightarrow> Some (dateOfTime host ms)
         | None \<Rightarrow>
             (case splitDateTime [] s of
                Some (m1, m2) \<Rightarrow> parseDateTime host m1 (Some m2)
              | None \<Rightarrow> None)))"

section \<open>Header detection\<close>

text \<open>\<open>cells.join(' | ')\<close>.\<close>

fun joinCells :: "string list \<Rightarrow> string" where
  "joinCells [] = []"
| "joinCells [c] = c"
| "joinCells (c # d # cs) = c @ '' | '' @ joinCells (d # cs)"

text \<open>
  \<open>scoreHeaderRow\<close>, with the unit keyword of the parser: \<open>kwh\<close> in pgeCsvParser.ts,
  \<open>therm\<close> in pgeGasCsvParser.ts (the two functions differ in nothing else).
\<close>

definition scoreHeaderRowFor :: "string \<Rightarrow> string list \<Rightarrow> int" where
  "scoreHeaderRowFor unit row =
     (let joined = joinCells (map toLowerCase row);
          s1 = (if contains unit joined then 3 else 0);
          s2 = (if containsAny [''usage'', ''consumption'', ''quantity'', ''value''] joined then s1 + 2 else s1);
          s3 = (if containsAny [''start'', ''end'', ''interval''] joined then s2 + 2 else s2);
          s4 = (if containsAny [''date'', ''time''] joined then s3 + 1 else s3)
      in s4)"

definition scoreHeaderRow :: "string list \<Rightarrow> int" where
  "scoreHeaderRow row = scoreHeaderRowFor ''kwh'' row"

definition scoreHeaderRow_gas :: "string list \<Rightarrow> int" where
  "scoreHeaderRow_gas row = scoreHeaderRowFor ''therm'' row"

text \<open>
  The loop of \<open>detectHeaderRowIndex\<close> from row \<open>i\<close> on, with its state \<open>bestIdx\<close> and
  \<open>bestScore\<close>.
\<close>

fun scanHeaderRows :: "(string list \<Rightarrow> int) \<Rightarrow> int \<Rightarrow> string list list \<Rightarrow> int \<times> int \<Rightarrow> int \<times> int" where
  "scanHeaderRows score i [] best = best"
| "scanHeaderRows score i (r # rs) (bestIdx, bestScore) =
     (let row = map trim r;
          nonEmpty = length (filter (\<lambda>c. c \<noteq> []) row)
      in if nonEmpty < 3 then scanHeaderRows score (i + 1) rs (bestIdx, bestScore)
         else if score row > bestScore then scanHeaderRows score (i + 1) rs (i, score row)
         else scanHeaderRows score (i + 1) rs (bestIdx, bestScore))"

definition detectHeaderRowIndex :: "string list list \<Rightarrow> int" where
  "detectHeaderRowIndex rows =
     (let maxScan = min (length rows) 80;
          (bestIdx, bestScore) = scanHeaderRows scoreHeaderRow 0 (take maxScan rows) (- 1, 0)
      in if bestScore \<ge> 4 then bestIdx else - 1)"

definition detectHeaderRowIndex_gas :: "string list list \<Rightarrow> int" where
  "detectHeaderRowIndex_gas rows =
     (let maxScan = min (length rows) 80;
          (bestIdx, bestScore) = scanHeaderRows scoreHeaderRow_gas 0 (take maxScan rows) (- 1, 0)
      in if bestScore \<ge> 3 then bestIdx else - 1)"

section \<open>Column resolution\<close>

text \<open>\<open>headers.findIndex(predicate)\<close>: the first index, or -1.\<close>

fun findIndexFrom :: "int \<Rightarrow> ('a \<Rightarrow> bool) \<Rightarrow> 'a list \<Rightarrow> int" where
  "findIndexFrom i P [] = - 1"
| "findIndexFrom i P (x # xs) = (if P x then i else findIndexFrom (i + 1) P xs)"

definition findHeader :: "string list \<Rightarrow> (string \<Rightarrow> bool) \<Rightarrow> int" where
  "findHeader headers predicate = findIndexFrom 0 predicate headers"

text \<open>The column indices both parsers resolve from the normalized headers.\<close>

record timeColumns =
  startDateIdx :: int
  startTimeIdx :: int
  endDateIdx :: int
  endTimeIdx :: int
  startDateTimeIdx :: int
  endDateTimeIdx :: int
  dateIdx :: int
  timeIdx :: int

definition resolveTimeColumns :: "string list \<Rightarrow> timeColumns" where
  "resolveTimeColumns headers =
     \<lparr>startDateIdx = findHeader headers
        (containsAny [''start date'', ''interval start date'', ''usage start date'', ''from date'']),
      startTimeIdx = findHeader headers
        (containsAny [''start time'', ''interval start time'', ''usage start time'', ''from time'']),
      endDateIdx = findHeader headers
        (containsAny [''end date'', ''interval end date'', ''usage end date'', ''to date'']),
      endTimeIdx = findHeader headers
        (containsAny [''end time'', ''interval end time'', ''usage end time'', ''to time'']),
      startDateTimeIdx = findHeader headers
        (containsAny [''interval start'', ''start datetime'', ''start date time'']),
      endDateTimeIdx = findHeader headers
        (containsAny [''interval end'', ''end datetime'', ''end date time'']),
      dateIdx = findHeader headers
        (\<lambda>h. h = ''date'' \<or> containsAny [''reading date'', ''usage date''] h),
      timeIdx = findHeader headers
        (\<lambda>h. h = ''time'' \<or> containsAny [''reading time''] h)\<rparr>"

text \<open>The usage columns of pgeCsvParser.ts (lines 242-251).\<close>

record usageColumns =
  importIdx :: int
  exportIdx :: int
  hasSolarColumns :: bool
  usageIdx :: int

definition looksLikeCost :: "string \<Rightarrow> bool" where
  "looksLikeCost h = containsAny [''cost'', ''price'', ''rate'', ''charge'', ''dollar'', ''$''] h"

definition resolveUsageColumns :: "string list \<Rightarrow> usageColumns" where
  "resolveUsageColumns headers =
     (let importI = findHeader headers (\<lambda>h. contains ''import'' h \<and> contains ''kwh'' h);
          exportI = findHeader headers (\<lambda>h. contains ''export'' h \<and> contains ''kwh'' h);
          solar = (importI \<noteq> - 1 \<and> exportI \<noteq> - 1);
          named = findHeader headers
            (\<lambda>h. contains ''kwh'' h
               \<and> containsAny [''usage'', ''consumption'', ''quantity'', ''value'', ''interval''] h)
      in \<lparr>importIdx = importI, exportIdx = exportI, hasSolarColumns = solar,
          usageIdx = (if solar then importI
                      else if named \<noteq> - 1 then named
                      else findHeader headers (\<lambda>h. contains ''kwh'' h \<and> \<not> looksLikeCost h))\<rparr>)"

text \<open>The therms column of pgeGasCsvParser.ts (lines 235-237).\<close>

definition resolveThermsColumn :: "string list \<Rightarrow> int" where
  "resolveThermsColumn headers =
     (let named = findHeader headers
            (\<lambda>h. contains ''therm'' h
               \<and> containsAny [''usage'', ''consumption'', ''quantity'', ''value''] h)
      in if named \<noteq> - 1 then named
         else findHeader headers (\<lambda>h. contains ''therm'' h \<and> \<not> looksLikeCost h))"

section \<open>Reading builder\<close>

text \<open>
  \<open>String(row[idx] ?? '')\<close>: the cell, or the empty string where the row has no such index.
\<close>

definition cellAt :: "string list \<Rightarrow> int \<Rightarrow> string" where
  "cellAt row idx = (if 0 \<le> idx \<and> idx < int (length row) then row ! nat idx else [])"

definition ofOption :: "jsDate option \<Rightarrow> dateOrNull" where
  "ofOption d = (case d of None \<Rightarrow> Null | Some x \<Rightarrow> ValidDate x)"

text \<open>
  The timestamp chain of a data row (lines 293-326 of pgeCsvParser.ts, 267-297 of
  pgeGasCsvParser.ts); \<open>nominal\<close> is the interval subtracted from an end timestamp, 15
  minutes for electricity and 60 for gas.
\<close>

definition resolveTimestamp :: "hostDates \<Rightarrow> int \<Rightarrow> timeColumns \<Rightarrow> string list \<Rightarrow> dateOrNull" where
  "resolveTimestamp host nominal cols row =
     (let ts0 = Null;
          ts1 = (if startDateTimeIdx cols \<noteq> - 1
                 then ofOption (parseSingleDateTimeField host (cellAt row (startDateTimeIdx cols)))
                 else ts0);
          ts2 = (if ts1 = Null \<and> startDateIdx cols \<noteq> - 1 \<and> startTimeIdx cols \<noteq> - 1
                 then ofOption (parseDateTime host (cellAt row (startDateIdx cols))
                                  (Some (cellAt row (startTimeIdx cols))))
                 else ts1);
          ts3 = (if ts2 = Null \<and> dateIdx cols \<noteq> - 1 \<and> timeIdx cols \<noteq> - 1
                 then ofOption (parseDateTime host (cellAt row (dateIdx cols))
                                  (Some (cellAt row (timeIdx cols))))
                 else ts2);
          ts4 = (if ts3 = Null \<and> dateIdx cols \<noteq> - 1 \<and> startTimeIdx cols \<noteq> - 1
                 then ofOption (parseDateTime host (cellAt row (dateIdx cols))
                                  (Some (cellAt row (startTimeIdx cols))))
                 else ts3);
          ts5 = (if ts4 = Null \<and> dateIdx cols \<noteq> - 1
                 then ofOption (parseSingleDateTimeField host (cellAt row (dateIdx cols)))
                 else ts4);
          ts6 = (if ts5 = Null \<and> endDateTimeIdx cols \<noteq> - 1
                 then (case parseSingleDateTimeField host (cellAt row (endDateTimeIdx cols)) of
                         Some end \<Rightarrow> newDate host (getTime end - nominal)
                       | None \<Rightarrow> ts5)
                 else ts5);
          ts7 = (if ts6 = Null \<and> endDateIdx cols \<noteq> - 1 \<and> endTimeIdx cols \<noteq> - 1
                 then (case parseDateTime host (cellAt row (endDateIdx cols))
                              (Some (cellAt row (endTimeIdx cols))) of
                         Some end \<Rightarrow> newDate host (getTime end - nominal)
                       | None \<Rightarrow> ts6)
                 else ts6)
      in ts7)"

text \<open>Lines 279-286: the usage of a row; net usage (import minus export) with solar columns.\<close>

definition rowUsage :: "usageColumns \<Rightarrow> string list \<Rightarrow> real option" where
  "rowUsage cols row =
     (if hasSolarColumns cols then
        (let importKwh = (case parseNumber (cellAt row (importIdx cols)) of Some v \<Rightarrow> v | None \<Rightarrow> 0);
             exportKwh = (case parseNumber (cellAt row (exportIdx cols)) of Some v \<Rightarrow> v | None \<Rightarrow> 0)
         in Some (importKwh - exportKwh))
      else parseNumber (cellAt row (usageIdx cols)))"

text \<open>
  The body of the row loop (lines 275-340): the reading of a row, or \<open>None\<close> when the row
  is skipped (\<open>skipped++; continue\<close>).
\<close>

definition rowReading :: "hostDates \<Rightarrow> usageColumns \<Rightarrow> timeColumns \<Rightarrow> string list \<Rightarrow> EnergyReading option" where
  "rowReading host ucols tcols row =
     (case rowUsage ucols row of
        None \<Rightarrow> None
      | Some kwh \<Rightarrow>
          (case resolveTimestamp host (15 * 60 * 1000) tcols row of
             Null \<Rightarrow> None
           | InvalidDate \<Rightarrow> None
           | ValidDate ts \<Rightarrow> Some \<lparr>timestamp = ts, value_kwh = kwh\<rparr>))"

text \<open>The same body in pgeGasCsvParser.ts (lines 257-310).\<close>

definition rowReading_gas :: "hostDates \<Rightarrow> int \<Rightarrow> timeColumns \<Rightarrow> string list \<Rightarrow> GasReading option" where
  "rowReading_gas host thermsIdx tcols row =
     (case parseNumber (cellAt row thermsIdx) of
        None \<Rightarrow> None
      | Some therms \<Rightarrow>
          (case resolveTimestamp host (60 * 60 * 1000) tcols row of
             Null \<Rightarrow> None
           | InvalidDate \<Rightarrow> None
           | ValidDate ts \<Rightarrow> Some \<lparr>gas_timestamp = ts, value_therms = therms\<rparr>))"

text \<open>The row loop with its state: the readings pushed so far and the skip counter.\<close>

fun collectReadings :: "(string list \<Rightarrow> 'r option) \<Rightarrow> string list list \<Rightarrow> 'r list \<times> nat \<Rightarrow> 'r list \<times> nat" where
  "collectReadings body [] acc = acc"
| "collectReadings body (row # rows) (readings, skipped) =
     (case body row of
        None \<Rightarrow> collectReadings body rows (readings, skipped + 1)
      | Some r \<Rightarrow> collectReadings body rows (readings @ [r], skipped))"

section \<open>Normalizer\<close>

text \<open>
  \<open>summed.set(key, (summed.get(key) ?? 0) + value)\<close> on a \<open>Map\<close> in insertion order.
\<close>

fun addToSum :: "int \<Rightarrow> real \<Rightarrow> (int \<times> real) list \<Rightarrow> (int \<times> real) list" where
  "addToSum key v [] = [(key, 0 + v)]"
| "addToSum key v ((k, s) # m) = (if k = key then (k, s + v) # m else (k, s) # addToSum key v m)"

text \<open>
  Lines 346-356 (316-326 in the gas parser): sort by time value, sum the values of equal
  time values, sort the entries by key and rebuild the readings. The two parsers differ in
  the type of the reading only, so the normalizer works on pairs of a \<open>Date\<close> and a value.
\<close>

definition normalizeReadings :: "hostDates \<Rightarrow> (jsDate \<times> real) list \<Rightarrow> (jsDate \<times> real) list" where
  "normalizeReadings host readings =
     (let sorted = sortBy (\<lambda>a b. getTime (fst a) - getTime (fst b)) readings;
          summed = foldl (\<lambda>m r. addToSum (getTime (fst r)) (snd r) m) [] sorted
      in map (\<lambda>(ms, v). (dateOfTime host ms, v))
           (sortBy (\<lambda>a b. fst a - fst b) summed))"

text \<open>
  The interval heuristic (lines 363-374): the differences of the first \<open>limit\<close> consecutive
  time values, sorted, and their median. \<open>roundDiv m d\<close> is \<open>Math.round(m / d)\<close>.
\<close>

definition timeDiffs :: "nat \<Rightarrow> int list \<Rightarrow> int list" where
  "timeDiffs limit ts =
     map (\<lambda>i. ts ! i - ts ! (i - 1)) [1 ..< min (length ts) limit]"

definition roundDiv :: "int \<Rightarrow> int \<Rightarrow> int" where
  "roundDiv m d = (2 * m + d) div (2 * d)"

definition medianDiff :: "nat \<Rightarrow> int list \<Rightarrow> int" where
  "medianDiff limit ts =
     (let diffs = sortBy (\<lambda>a b. a - b) (timeDiffs limit ts)
      in diffs ! (length diffs div 2))"

section \<open>The parsers\<close>

datatype parseError =
    EmptyCsv         \<comment> \<open>CSV appears empty or unreadable.\<close>
  | NoHeaderRow      \<comment> \<open>Could not detect a header row ...\<close>
  | NoUsageColumn    \<comment> \<open>Could not find a kWh/usage (therms/usage) column in this CSV.\<close>
  | NoReadings       \<comment> \<open>No interval (gas) readings were parsed from this CSV.\<close>

datatype warning =
    SolarNetUsage        \<comment> \<open>Detected solar IMPORT/EXPORT columns. Calculating NET usage ...\<close>
  | SkippedRows nat      \<comment> \<open>Skipped n row(s) that didn't look like interval readings.\<close>
  | IntervalMinutes int  \<comment> \<open>Detected ~n minute intervals (expected 15/30/60).\<close>
  | IntervalHours int    \<comment> \<open>Detected ~n hour intervals (expected 1 or 24).\<close>

record PgeCsvParseResult =
  pge_readings :: "EnergyReading list"
  pge_warnings :: "warning list"

record PgeGasCsvParseResult =
  gas_readings :: "GasReading list"
  gas_warnings :: "warning list"

text \<open>Lines 221-223: the non-blank rows of the text.\<close>

definition csvRows :: "string \<Rightarrow> string list list" where
  "csvRows csvText = filter nonBlankRow (parseCsvRows csvText)"

text \<open>Lines 362-374: the warning of the interval heuristic, if any.\<close>

definition intervalWarning :: "(jsDate \<times> real) list \<Rightarrow> warning list" where
  "intervalWarning normalized =
     (if length normalized \<ge> 3 then
        (let median = medianDiff 2000 (map (\<lambda>r. getTime (fst r)) normalized);
             minutes = roundDiv median 60000
         in if minutes \<notin> set [15, 30, 60] then [IntervalMinutes minutes] else [])
      else [])"

definition parsePgeIntervalCsv :: "hostDates \<Rightarrow> string \<Rightarrow> parseError + PgeCsvParseResult" where
  "parsePgeIntervalCsv host csvText =
     (let rows = csvRows csvText in
      if length rows < 2 then Inl EmptyCsv
      else
        (let headerIdx = detectHeaderRowIndex rows in
         if headerIdx = - 1 then Inl NoHeaderRow
         else
           (let headersRaw = map trim (rows ! nat headerIdx);
                headers = map normalizeHeader headersRaw;
                ucols = resolveUsageColumns headers;
                tcols = resolveTimeColumns headers
            in if usageIdx ucols = - 1 then Inl NoUsageColumn
               else
                 (let warnings0 = (if hasSolarColumns ucols then [SolarNetUsage] else []);
                      (raw, skipped) = collectReadings (rowReading host ucols tcols)
                                         (drop (nat (headerIdx + 1)) rows) ([], 0)
                  in if length raw = 0 then Inl NoReadings
                     else
                       (let normalized = normalizeReadings host (map (\<lambda>r. (timestamp r, value_kwh r)) raw);
                            warnings1 = warnings0 @ (if skipped > 0 then [SkippedRows skipped] else [])
                        in Inr \<lparr>pge_readings = map (\<lambda>(d, v). \<lparr>timestamp = d, value_kwh = v\<rparr>) normalized,
                                pge_warnings = warnings1 @ intervalWarning normalized\<rparr>)))))"

text \<open>Lines 332-344 of the gas parser: the same heuristic in hours, on at most 500 readings.\<close>

definition intervalWarning_gas :: "(jsDate \<times> real) list \<Rightarrow> warning list" where
  "intervalWarning_gas normalized =
     (if length normalized \<ge> 3 then
        (let median = medianDiff 500 (map (\<lambda>r. getTime (fst r)) normalized);
             hours = roundDiv median (60 * 60 * 1000)
         in if hours \<noteq> 1 \<and> hours \<noteq> 24 then [IntervalHours hours] else [])
      else [])"

definition parsePgeGasCsv :: "hostDates \<Rightarrow> string \<Rightarrow> parseError + PgeGasCsvParseResult" where
  "parsePgeGasCsv host csvText =
     (let rows = csvRows csvText in
      if length rows < 2 then Inl EmptyCsv
      else
        (let headerIdx = detectHeaderRowIndex_gas rows in
         if headerIdx = - 1 then Inl NoHeaderRow
         else
           (let headersRaw = map trim (rows ! nat headerIdx);
                headers = map normalizeHeader headersRaw;
                thermsIdx = resolveThermsColumn headers;
                tcols = resolveTimeColumns headers
            in if thermsIdx = - 1 then Inl NoUsageColumn
               else
                 (let (raw, skipped) = collectReadings (rowReading_gas host thermsIdx tcols)
                                         (drop (nat (headerIdx + 1)) rows) ([], 0)
                  in if length raw = 0 then Inl NoReadings
                     else
                       (let normalized = normalizeReadings host (map (\<lambda>r. (gas_timestamp r, value_therms r)) raw);
                            warnings1 = (if skipped > 0 then [SkippedRows skipped] else [])
                        in Inr \<lparr>gas_readings = map (\<lambda>(d, v). \<lparr>gas_timestamp = d, value_therms = v\<rparr>) normalized,
                                gas_warnings = warnings1 @ intervalWarning_gas normalized\<rparr>)))))"

section \<open>Specification-side definitions and example inputs\<close>

text \<open>
  The loop body with the rate selection as a parameter: both engines' bodies are instances
  (a device for sharing proofs between the two copies).
\<close>

definition processWith :: "(jsDate \<Rightarrow> real \<Rightarrow> real option) \<Rightarrow> costState \<Rightarrow> EnergyReading \<Rightarrow> costState option" where
  "processWith sel s reading =
     (let date = timestamp reading;
          key = monthKey date;
          s1 = resetIfMonthChanged s date;
          pm = ensureKey key (periodMap s1)
      in case sel date (monthlyUsageCounter s1) of
           None \<Rightarrow> None
         | Some r \<Rightarrow>
             (let energyCost = fmul (value_kwh reading) r in
              Some \<lparr>periodMap = addToKey key (value_kwh reading) energyCost pm,
                    totalCost_acc = fadd (totalCost_acc s1) energyCost,
                    monthlyUsageCounter = fadd (monthlyUsageCounter s1) (value_kwh reading),
                    currentMonth = currentMonth s1\<rparr>))"

text \<open>
  The sum an accumulator holds after \<open>acc = 0; acc += x\<^sub>1; ...; acc += x\<^sub>n\<close>: every addition
  rounds, in the order of the list.
\<close>

definition fsum :: "real list \<Rightarrow> real" where
  "fsum xs = foldl fadd 0 xs"

text \<open>
  The running monthly usage counter a reading sees, in words: the accumulated sum, in reading
  order, of the readings that immediately precede it with the same \<open>getMonth()\<close> (the year is
  not consulted).
\<close>

definition counterBefore :: "EnergyReading list \<Rightarrow> EnergyReading \<Rightarrow> real" where
  "counterBefore earlier r =
     fsum (map value_kwh
       (rev (takeWhile (\<lambda>p. getMonth (timestamp p) = getMonth (timestamp r)) (rev earlier))))"

text \<open>The number of distinct month keys among the readings.\<close>

definition monthCount :: "EnergyReading list \<Rightarrow> nat" where
  "monthCount rs = length (remdups (map (\<lambda>r. monthKey (timestamp r)) rs))"

text \<open>
  The total of a detailed cost when reading \<open>i\<close> is charged at the rate \<open>rateAt i\<close>: the
  energy charges value \<times> rate accumulated in reading order, plus the fixed charge times the
  number of months.
\<close>

definition energyFor :: "EnergyReading list \<Rightarrow> (nat \<Rightarrow> real) \<Rightarrow> real" where
  "energyFor rs rateAt = fsum (map (\<lambda>i. fmul (value_kwh (rs ! i)) (rateAt i)) [0..<length rs])"

definition totalFor :: "Tariff \<Rightarrow> EnergyReading list \<Rightarrow> (nat \<Rightarrow> real) \<Rightarrow> real" where
  "totalFor t rs rateAt =
     fadd (energyFor rs rateAt) (fmul (real (monthCount rs)) (fixedMonthlyCharge t))"

text \<open>
  The energy part of a detailed cost as \<open>compareTariffs\<close> computes it: the total minus the
  fixed charge times the number of breakdown months.
\<close>

definition energyOnly :: "DetailedCost \<Rightarrow> Tariff \<Rightarrow> real" where
  "energyOnly calc tariff =
     fsub (totalCost calc) (fmul (real (length (breakdown calc))) (fixedMonthlyCharge tariff))"

text \<open>
  The tiered rate, in the words of the specification (and of the second copy): the base rate
  below the baseline, the base rate times 1.28 from the baseline up to 4 times the baseline,
  the base rate times 1.45 from there on; in the second copy the base rate times 1.24 from
  the baseline on.
\<close>

definition tierRate :: "real \<Rightarrow> int \<Rightarrow> real \<Rightarrow> real" where
  "tierRate base month counter =
     (let baseline = (if 5 \<le> month \<and> month \<le> 8 then 270 else 350) in
      if counter < baseline then base
      else if counter < 4 * baseline then fmul base (toDouble 1.28)
      else fmul base (toDouble 1.45))"

definition tierRate_part001 :: "real \<Rightarrow> int \<Rightarrow> real \<Rightarrow> real" where
  "tierRate_part001 base month counter =
     (let baseline = (if 5 \<le> month \<and> month \<le> 8 then 270 else 350) in
      if counter < baseline then base else fmul base (toDouble 1.24))"

definition exampleDate :: "int \<Rightarrow> int \<Rightarrow> int \<Rightarrow> int \<Rightarrow> jsDate" where
  "exampleDate ms year month hour = \<lparr>getTime = ms, getFullYear = year, getMonth = month, getHours = hour\<rparr>"

text \<open>A flat tariff at the rate 0.38, without summer rate and without fixed charge.\<close>

definition exampleFlat :: Tariff where
  "exampleFlat = \<lparr>tariff_id = ''flat'', tariff_name = ''Flat'', description = [],
     tariff_type = Flat,
     periods = [\<lparr>period_name = ''Baseline'', startHour = 0, endHour = 23,
                 rate = toDouble 0.38, summerRate = None\<rparr>],
     fixedMonthlyCharge = 0, provider = None\<rparr>"

text \<open>The tariff \<open>pge-e1\<close> of constants.tsx: flat, 0.38 with a summer rate of 0.40.\<close>

definition pgeE1 :: Tariff where
  "pgeE1 = \<lparr>tariff_id = ''pge-e1'', tariff_name = ''PG&E E-1 (Tiered)'', description = [],
     tariff_type = Flat,
     periods = [\<lparr>period_name = ''Baseline Average'', startHour = 0, endHour = 23,
                 rate = toDouble 0.38, summerRate = Some (toDouble 0.40)\<rparr>],
     fixedMonthlyCharge = 0, provider = Some ''pge-bundled''\<rparr>"

text \<open>A flat tariff at the rate 0.5.\<close>

definition halfFlat :: Tariff where
  "halfFlat = \<lparr>tariff_id = ''half'', tariff_name = ''Half'', description = [],
     tariff_type = Flat,
     periods = [\<lparr>period_name = ''Baseline'', startHour = 0, endHour = 23,
                 rate = toDouble 0.5, summerRate = None\<rparr>],
     fixedMonthlyCharge = 0, provider = None\<rparr>"

text \<open>Two readings on 15 January 2025 (00:00 and 01:00 UTC), of 100 and 170 kWh.\<close>

definition winterReadings :: "EnergyReading list" where
  "winterReadings =
     [\<lparr>timestamp = exampleDate 1736899200000 2025 0 0, value_kwh = 100\<rparr>,
      \<lparr>timestamp = exampleDate 1736902800000 2025 0 1, value_kwh = 170\<rparr>]"

text \<open>Two readings on 15 January 2025, of 270 and 130 kWh.\<close>

definition winter400 :: "EnergyReading list" where
  "winter400 =
     [\<lparr>timestamp = exampleDate 1736899200000 2025 0 0, value_kwh = 270\<rparr>,
      \<lparr>timestamp = exampleDate 1736902800000 2025 0 1, value_kwh = 130\<rparr>]"

text \<open>Two readings on 15 July 2025, of 200 kWh each.\<close>

definition summer400 :: "EnergyReading list" where
  "summer400 =
     [\<lparr>timestamp = exampleDate 1752537600000 2025 6 0, value_kwh = 200\<rparr>,
      \<lparr>timestamp = exampleDate 1752541200000 2025 6 1, value_kwh = 200\<rparr>]"

text \<open>Three readings on 15 January 2025, of 90 kWh each.\<close>

definition winter90s :: "EnergyReading list" where
  "winter90s =
     [\<lparr>timestamp = exampleDate 1736899200000 2025 0 0, value_kwh = 90\<rparr>,
      \<lparr>timestamp = exampleDate 1736902800000 2025 0 1, value_kwh = 90\<rparr>,
      \<lparr>timestamp = exampleDate 1736906400000 2025 0 2, value_kwh = 90\<rparr>]"

text \<open>
  Three readings on 15 January 2025, of 43.639, 306.361 and 100 kWh: the first two doubles
  add up to less than 350 as reals and to the double 350 in the counter.
\<close>

definition boundaryReadings :: "EnergyReading list" where
  "boundaryReadings =
     [\<lparr>timestamp = exampleDate 1736899200000 2025 0 0, value_kwh = toDouble 43.639\<rparr>,
      \<lparr>timestamp = exampleDate 1736902800000 2025 0 1, value_kwh = toDouble 306.361\<rparr>,
      \<lparr>timestamp = exampleDate 1736906400000 2025 0 2, value_kwh = 100\<rparr>]"

text \<open>
  Four readings on 15 January 2025, of 349.2, 0.4, 0.4 and 100 kWh: the decimal values of
  the first three add up to 350, the doubles to 349.99999999999994 in the counter.
\<close>

definition nearBoundaryReadings :: "EnergyReading list" where
  "nearBoundaryReadings =
     [\<lparr>timestamp = exampleDate 1736899200000 2025 0 0, value_kwh = toDouble 349.2\<rparr>,
      \<lparr>timestamp = exampleDate 1736902800000 2025 0 1, value_kwh = toDouble 0.4\<rparr>,
      \<lparr>timestamp = exampleDate 1736906400000 2025 0 2, value_kwh = toDouble 0.4\<rparr>,
      \<lparr>timestamp = exampleDate 1736910000000 2025 0 3, value_kwh = 100\<rparr>]"

text \<open>A reading on 31 December 2024 (120 kWh) followed by one on 1 December 2025 (30 kWh).\<close>

definition decemberReadings :: "EnergyReading list" where
  "decemberReadings =
     [\<lparr>timestamp = exampleDate 1735603200000 2024 11 0, value_kwh = 120\<rparr>]"

definition december2025 :: EnergyReading where
  "december2025 = \<lparr>timestamp = exampleDate 1764547200000 2025 11 0, value_kwh = 30\<rparr>"

text \<open>
  The periods of the tariff \<open>pge-tou-c\<close> of constants.tsx (peak 16-20, off-peak 21-15), with
  a fixed charge of 15.
\<close>

definition exampleTou :: Tariff where
  "exampleTou = \<lparr>tariff_id = ''tou'', tariff_name = ''TOU'', description = [],
     tariff_type = Tou,
     periods = [\<lparr>period_name = ''Peak'', startHour = 16, endHour = 20,
                 rate = toDouble 0.46, summerRate = Some (toDouble 0.55)\<rparr>,
                \<lparr>period_name = ''Off-Peak'', startHour = 21, endHour = 15,
                 rate = toDouble 0.39, summerRate = Some (toDouble 0.47)\<rparr>],
     fixedMonthlyCharge = 15, provider = None\<rparr>"

text \<open>A time-of-use tariff with the peak period alone.\<close>

definition peakOnlyTou :: Tariff where
  "peakOnlyTou = \<lparr>tariff_id = ''peak'', tariff_name = ''Peak only'', description = [],
     tariff_type = Tou,
     periods = [\<lparr>period_name = ''Peak'', startHour = 16, endHour = 20,
                 rate = toDouble 0.46, summerRate = Some (toDouble 0.55)\<rparr>],
     fixedMonthlyCharge = 0, provider = None\<rparr>"

text \<open>Two readings on 15 January 2025, of 350 and 10 kWh.\<close>

definition winter360 :: "EnergyReading list" where
  "winter360 =
     [\<lparr>timestamp = exampleDate 1736899200000 2025 0 0, value_kwh = 350\<rparr>,
      \<lparr>timestamp = exampleDate 1736902800000 2025 0 1, value_kwh = 10\<rparr>]"

text \<open>One reading of 10 kWh on 15 July 2025 at 17:00.\<close>

definition julyPeak :: "EnergyReading list" where
  "julyPeak = [\<lparr>timestamp = exampleDate 1752598800000 2025 6 17, value_kwh = 10\<rparr>]"

text \<open>One reading of 10 kWh on 15 July 2025 at 03:00.\<close>

definition julyNight :: "EnergyReading list" where
  "julyNight = [\<lparr>timestamp = exampleDate 1752548400000 2025 6 3, value_kwh = 10\<rparr>]"

text \<open>The hour window of a period, in the words of the specification.\<close>

definition inWindow :: "int \<Rightarrow> int \<Rightarrow> int \<Rightarrow> bool" where
  "inWindow startH endH hour =
     ((startH \<le> endH \<and> startH \<le> hour \<and> hour \<le> endH)
      \<or> (startH > endH \<and> (hour \<ge> startH \<or> hour \<le> endH)))"

text \<open>
  The index in \<open>periods\<close> of the period a time-of-use reading is charged at: the first one
  whose window contains the hour, or 0 when there is none.
\<close>

definition touIndex :: "Tariff \<Rightarrow> int \<Rightarrow> nat" where
  "touIndex t hour =
     (if list_ex (hourInPeriod hour) (periods t)
      then length (takeWhile (\<lambda>p. \<not> hourInPeriod hour p) (periods t))
      else 0)"

text \<open>A single reading of 2 kWh on 15 January 2025 at 17:00.\<close>

definition peakReading :: "EnergyReading list" where
  "peakReading = [\<lparr>timestamp = exampleDate 1736960400000 2025 0 17, value_kwh = 2\<rparr>]"

text \<open>
  The period a reading is charged at (\<open>periods[0]\<close> for flat and tiered tariffs, the
  time-of-use choice otherwise) and the tiering applied to its rate (none for a time-of-use
  tariff).
\<close>

definition chargedIndex :: "Tariff \<Rightarrow> int \<Rightarrow> nat" where
  "chargedIndex t hour = (if tariff_type t = Tou then touIndex t hour else 0)"

definition tieredRate :: "Tariff \<Rightarrow> real \<Rightarrow> int \<Rightarrow> real \<Rightarrow> real" where
  "tieredRate t base month counter =
     (if tariff_type t = Tou then base else tierRate base month counter)"

definition tieredRate_part001 :: "Tariff \<Rightarrow> real \<Rightarrow> int \<Rightarrow> real \<Rightarrow> real" where
  "tieredRate_part001 t base month counter =
     (if tariff_type t = Tou then base else tierRate_part001 base month counter)"

text \<open>The effective rate, in the words of the specification.\<close>

definition effectiveRate :: "TariffPeriod \<Rightarrow> int \<Rightarrow> real" where
  "effectiveRate period month =
     (case summerRate period of
        Some sr \<Rightarrow> if month \<in> {5, 6, 7, 8} then sr else rate period
      | None \<Rightarrow> rate period)"

text \<open>
  Where the two copies charge a reading alike: the period it is charged at has no summer
  override in play (no \<open>summerRate\<close>, a month outside 5..8, or a \<open>summerRate\<close> equal to the
  \<open>rate\<close>) and, for a flat or tiered tariff, the counter before the reading is below the
  baseline.
\<close>

definition overrideInPlay :: "TariffPeriod \<Rightarrow> int \<Rightarrow> bool" where
  "overrideInPlay p month =
     (case summerRate p of
        None \<Rightarrow> False
      | Some sr \<Rightarrow> 5 \<le> month \<and> month \<le> 8 \<and> sr \<noteq> rate p)"

definition chargedAlike :: "Tariff \<Rightarrow> EnergyReading list \<Rightarrow> nat \<Rightarrow> bool" where
  "chargedAlike t rs i =
     (let d = timestamp (rs ! i) in
      \<not> overrideInPlay (periods t ! chargedIndex t (getHours d)) (getMonth d)
      \<and> (tariff_type t = Tou
         \<or> counterBefore (take i rs) (rs ! i) < (if 5 \<le> getMonth d \<and> getMonth d \<le> 8 then 270 else 350)))"

definition allChargedAlike :: "Tariff \<Rightarrow> EnergyReading list \<Rightarrow> bool" where
  "allChargedAlike t rs = (periods t = [] \<or> list_all (chargedAlike t rs) [0..<length rs])"

text \<open>The observation window in days and the current tariff, in the words of the specification.\<close>

definition daysInReadings :: "EnergyReading list \<Rightarrow> real" where
  "daysInReadings readings =
     max (toDouble 0.1)
       (fdiv (fsub (real_of_int (getTime (timestamp (last readings))))
                   (real_of_int (getTime (timestamp (hd readings)))))
             86400000)"

definition currentIndex :: "string \<Rightarrow> Tariff list \<Rightarrow> nat" where
  "currentIndex currentTariffId allTariffs =
     (if list_ex (\<lambda>t. tariff_id t = currentTariffId) allTariffs
      then length (takeWhile (\<lambda>t. tariff_id t \<noteq> currentTariffId) allTariffs)
      else 0)"

text \<open>Two readings at 17:00, on 15 January 2025 and ten days later.\<close>

definition tenDayReadings :: "EnergyReading list" where
  "tenDayReadings =
     [\<lparr>timestamp = exampleDate 1736960400000 2025 0 17, value_kwh = 2\<rparr>,
      \<lparr>timestamp = exampleDate 1737824400000 2025 0 17, value_kwh = 3\<rparr>]"

text \<open>The usage of a calendar month: the sum of the readings that carry its month key.\<close>

definition gasMonthUsage :: "GasReading list \<Rightarrow> string \<Rightarrow> real" where
  "gasMonthUsage readings key =
     sum_list (map value_therms (filter (\<lambda>r. monthKey (gas_timestamp r) = key) readings))"

text \<open>The monthly gas cost, in the words of the specification.\<close>

definition gasMonthCost :: "GasTariff \<Rightarrow> real \<Rightarrow> real" where
  "gasMonthCost tariff monthUsage =
     min monthUsage (baselineTherms tariff) * baselineRate tariff
     + max 0 (monthUsage - baselineTherms tariff) * overBaselineRate tariff
     + gas_fixedMonthlyCharge tariff"

definition gasMonths :: "GasReading list \<Rightarrow> string set" where
  "gasMonths readings = (\<lambda>r. monthKey (gas_timestamp r)) ` set readings"

definition exampleGasTariff :: GasTariff where
  "exampleGasTariff = \<lparr>gas_id = ''g1'', gas_name = ''G-1'', gas_description = [],
     baselineRate = 2, overBaselineRate = 3, baselineTherms = 30, gas_fixedMonthlyCharge = 5\<rparr>"

text \<open>Readings of 20 and 25 therms in January 2025 and of 10 therms in February 2025.\<close>

definition exampleGasReadings :: "GasReading list" where
  "exampleGasReadings =
     [\<lparr>gas_timestamp = exampleDate 1736899200000 2025 0 0, value_therms = 20\<rparr>,
      \<lparr>gas_timestamp = exampleDate 1738368000000 2025 1 0, value_therms = 10\<rparr>,
      \<lparr>gas_timestamp = exampleDate 1737504000000 2025 0 0, value_therms = 25\<rparr>]"

(* sorting *)

definition readingsOf :: "(string \<times> GasReading list) list \<Rightarrow> string \<Rightarrow> GasReading list" where
  "readingsOf m k = (case map_of m k of None \<Rightarrow> [] | Some xs \<Rightarrow> xs)"

section \<open>Specification-side definitions and example inputs of the parsers\<close>

definition sumAt :: "(int \<times> real) list \<Rightarrow> int \<Rightarrow> real" where
  "sumAt m k = (case map_of m k of None \<Rightarrow> 0 | Some s \<Rightarrow> s)"

text \<open>The sum of the values of the readings with a given time value.\<close>

definition sumAtTime :: "(jsDate \<times> real) list \<Rightarrow> int \<Rightarrow> real" where
  "sumAtTime raw ms = sum_list (map snd (filter (\<lambda>r. getTime (fst r) = ms) raw))"

text \<open>
  A header candidate, in the words of the specification: one of the first 80 rows, with at
  least 3 non-empty cells, whose score reaches the threshold.
\<close>

definition rowEligible :: "string list \<Rightarrow> bool" where
  "rowEligible r = (3 \<le> length (filter (\<lambda>c. c \<noteq> []) (map trim r)))"

definition headerCandidate :: "(string list \<Rightarrow> int) \<Rightarrow> int \<Rightarrow> string list list \<Rightarrow> nat \<Rightarrow> bool" where
  "headerCandidate score threshold rows i =
     (i < min (length rows) 80 \<and> rowEligible (rows ! i) \<and> score (map trim (rows ! i)) \<ge> threshold)"

text \<open>The normalized headers of the detected header row and the data rows after it.\<close>

definition headersAt :: "string list list \<Rightarrow> int \<Rightarrow> string list" where
  "headersAt rows headerIdx = map normalizeHeader (map trim (rows ! nat headerIdx))"

definition dataRowsAfter :: "string list list \<Rightarrow> int \<Rightarrow> string list list" where
  "dataRowsAfter rows headerIdx = drop (nat (headerIdx + 1)) rows"

text \<open>
  No usage column, in words: there are no paired import and export columns, and every header
  that names the unit looks like a cost column and names no usage noun.
\<close>

definition noUsageColumn :: "string list \<Rightarrow> bool" where
  "noUsageColumn headers =
     (\<not> ((\<exists>h \<in> set headers. contains ''import'' h \<and> contains ''kwh'' h)
         \<and> (\<exists>h \<in> set headers. contains ''export'' h \<and> contains ''kwh'' h))
      \<and> (\<forall>h \<in> set headers. contains ''kwh'' h \<longrightarrow>
            looksLikeCost h
          \<and> \<not> containsAny [''usage'', ''consumption'', ''quantity'', ''value'', ''interval''] h))"

definition noThermsColumn :: "string list \<Rightarrow> bool" where
  "noThermsColumn headers =
     (\<forall>h \<in> set headers. contains ''therm'' h \<longrightarrow>
            looksLikeCost h
          \<and> \<not> containsAny [''usage'', ''consumption'', ''quantity'', ''value''] h)"

(* ---- header scan ---- *)

text \<open>
  The parts of a parse, named: the rows, the detected header, the resolved columns, the data
  rows, the readings of the rows that are not skipped, the number of skipped rows.
\<close>

definition usageColumnsOf :: "string \<Rightarrow> usageColumns" where
  "usageColumnsOf csv =
     resolveUsageColumns (headersAt (csvRows csv) (detectHeaderRowIndex (csvRows csv)))"

definition timeColumnsOf :: "string \<Rightarrow> timeColumns" where
  "timeColumnsOf csv =
     resolveTimeColumns (headersAt (csvRows csv) (detectHeaderRowIndex (csvRows csv)))"

definition dataRows :: "string \<Rightarrow> string list list" where
  "dataRows csv = dataRowsAfter (csvRows csv) (detectHeaderRowIndex (csvRows csv))"

definition rawReadings :: "hostDates \<Rightarrow> string \<Rightarrow> EnergyReading list" where
  "rawReadings host csv =
     List.map_filter (rowReading host (usageColumnsOf csv) (timeColumnsOf csv)) (dataRows csv)"

definition skippedRows :: "hostDates \<Rightarrow> string \<Rightarrow> nat" where
  "skippedRows host csv =
     length (filter (\<lambda>row. rowReading host (usageColumnsOf csv) (timeColumnsOf csv) row = None)
               (dataRows csv))"

definition thermsColumnOf :: "string \<Rightarrow> int" where
  "thermsColumnOf csv =
     resolveThermsColumn (headersAt (csvRows csv) (detectHeaderRowIndex_gas (csvRows csv)))"

definition timeColumnsOf_gas :: "string \<Rightarrow> timeColumns" where
  "timeColumnsOf_gas csv =
     resolveTimeColumns (headersAt (csvRows csv) (detectHeaderRowIndex_gas (csvRows csv)))"

definition dataRows_gas :: "string \<Rightarrow> string list list" where
  "dataRows_gas csv = dataRowsAfter (csvRows csv) (detectHeaderRowIndex_gas (csvRows csv))"

definition rawGasReadings :: "hostDates \<Rightarrow> string \<Rightarrow> GasReading list" where
  "rawGasReadings host csv =
     List.map_filter (rowReading_gas host (thermsColumnOf csv) (timeColumnsOf_gas csv)) (dataRows_gas csv)"

definition skippedGasRows :: "hostDates \<Rightarrow> string \<Rightarrow> nat" where
  "skippedGasRows host csv =
     length (filter (\<lambda>row. rowReading_gas host (thermsColumnOf csv) (timeColumnsOf_gas csv) row = None)
               (dataRows_gas csv))"

definition isSkipWarning :: "warning \<Rightarrow> bool" where
  "isSkipWarning w = (case w of SkippedRows n \<Rightarrow> True | _ \<Rightarrow> False)"

text \<open>
  A host in the UTC time zone, for the examples: the day number of a civil date and back
  (proleptic Gregorian calendar), and the time value of local components as \<open>new Date(y, m,
  d, h, min, s, 0)\<close> computes it (years 0 to 99 are taken as 1900 to 1999). \<open>Date.parse\<close> is a
  parameter.
\<close>

definition daysFromCivil :: "int \<Rightarrow> int \<Rightarrow> int \<Rightarrow> int" where
  "daysFromCivil y m d =
     (let y' = (if m \<le> 2 then y - 1 else y);
          era = y' div 400;
          yoe = y' - era * 400;
          doy = (153 * (if m > 2 then m - 3 else m + 9) + 2) div 5 + d - 1;
          doe = yoe * 365 + yoe div 4 - yoe div 100 + doy
      in era * 146097 + doe - 719468)"

definition civilFromDays :: "int \<Rightarrow> int \<times> int" where
  "civilFromDays z =
     (let z' = z + 719468;
          era = z' div 146097;
          doe = z' - era * 146097;
          yoe = (doe - doe div 1460 + doe div 36524 - doe div 146096) div 365;
          doy = doe - (365 * yoe + yoe div 4 - yoe div 100);
          mp = (5 * doy + 2) div 153;
          m = (if mp < 10 then mp + 3 else mp - 9)
      in (if m \<le> 2 then yoe + era * 400 + 1 else yoe + era * 400, m - 1))"

definition utcLocal :: "int \<Rightarrow> int \<Rightarrow> int \<Rightarrow> int \<Rightarrow> int \<Rightarrow> int \<Rightarrow> int option" where
  "utcLocal y m d h mi s =
     (let year = (if 0 \<le> y \<and> y \<le> 99 then 1900 + y else y);
          day = daysFromCivil (year + m div 12) (m mod 12 + 1) 1 + d - 1;
          ms = day * 86400000 + h * 3600000 + mi * 60000 + s * 1000
      in if \<bar>ms\<bar> \<le> 8640000000000000 then Some ms else None)"

definition utcHost :: "(string \<Rightarrow> int option) \<Rightarrow> hostDates" where
  "utcHost parse =
     \<lparr>dateParse = parse, dateLocal = utcLocal,
      yearOf = (\<lambda>ms. fst (civilFromDays (ms div 86400000))),
      monthOf = (\<lambda>ms. snd (civilFromDays (ms div 86400000))),
      hoursOf = (\<lambda>ms. (ms div 3600000) mod 24)\<rparr>"

text \<open>
  The examples use a host whose \<open>Date.parse\<close> accepts nothing; none of them reaches
  \<open>Date.parse\<close> (no combined date-time column, and every date cell parses with its time
  cell).
\<close>

definition exampleHost :: hostDates where
  "exampleHost = utcHost (\<lambda>s. None)"

definition lines :: "string list \<Rightarrow> string" where
  "lines ls = concat (map (\<lambda>l. l @ [CHR 0x0A]) ls)"

text \<open>
  An export with a preamble, two rows for the same quarter hour, a row without a number and
  an earlier row.
\<close>

definition exampleCsv :: string where
  "exampleCsv = lines
     [''Name,Some Body'',
      ''Account,123'',
      '''',
      ''Start Date,Start Time,Usage (kWh)'',
      ''01/18/2025,00:15,1.234'',
      ''01/18/2025,00:15,0.5'',
      ''01/18/2025,00:30,abc'',
      ''01/18/2025,00:00,2'']"

text \<open>
  A solar export: a row whose import cell is not a number, and the row import 2.0, export
  0.5.
\<close>

definition solarCsv :: string where
  "solarCsv = lines
     [''Date,Start Time,IMPORT (kWh),EXPORT (kWh)'',
      ''01/18/2025,00:15,abc,0.5'',
      ''01/18/2025,00:30,2.0,0.5'']"

text \<open>A solar export with two rows for the same quarter hour that export more than they import.\<close>

definition solarDuplicateCsv :: string where
  "solarDuplicateCsv = lines
     [''Date,Start Time,IMPORT (kWh),EXPORT (kWh)'',
      ''01/18/2025,00:15,0.2,0.5'',
      ''01/18/2025,00:15,0.1,0.4'',
      ''01/18/2025,00:00,1,0'']"

text \<open>An export whose only data row has no parsable time.\<close>

definition unreadableCsv :: string where
  "unreadableCsv = lines
     [''Start Date,Start Time,Usage (kWh)'',
      ''01/18/2025,noon,1.5'']"

section \<open>Arithmetic facts\<close>

text \<open>The equations that evaluate the arithmetic on numerals.\<close>

lemmas double_eval = toDouble_def roundToUnit_def roundTiesToEven_def roundFrom_def binade_def
  binadeUp.simps binadeDown.simps pow2_def fadd_def fmul_def fsub_def fdiv_def

text \<open>
  The rounding on familiar cases: 0.1 + 0.2 is 0.30000000000000004, and \<open>2\<^sup>5\<^sup>3 + 1\<close> is a
  tie that goes to the even significand.
\<close>

lemma double_examples:
  "toDouble 0.1 = 3602879701896397 / 36028797018963968"
  "fadd (toDouble 0.1) (toDouble 0.2) = toDouble 0.30000000000000004"
  "toDouble 0.3 < toDouble 0.30000000000000004"
  "fsub (toDouble 0.3) (toDouble 0.1) = toDouble 0.19999999999999998"
  "fadd 9007199254740992 1 = 9007199254740992"
  "fadd 9007199254740992 3 = 9007199254740996"
  "fdiv 1 3 = 6004799503160661 / 18014398509481984"
  "toDouble (- 0.1) = - toDouble 0.1"
  by (simp_all add: double_eval)

lemma baseline_times_4: "fmul 270 4 = 1080" "fmul 350 4 = 1400"
  by (simp_all add: double_eval)

lemma ms_per_day: "fmul (fmul (fmul 1000 60) 60) 24 = 86400000"
  by (simp add: double_eval)

lemma ten_days: "fdiv 30 (max (toDouble 0.1) (fdiv (toDouble 864000000) 86400000)) = 3"
  by (simp add: double_eval)

lemma fsum_Nil: "fsum [] = 0"
  by (simp add: fsum_def)

lemma fsum_snoc: "fsum (xs @ [x]) = fadd (fsum xs) x"
  by (simp add: fsum_def)

lemma fsum_append: "fsum (xs @ ys) = foldl fadd (fsum xs) ys"
  by (simp add: fsum_def)

section \<open>The loop of the cost engines\<close>

lemma processReading_eq_with: "processReading tariff = processWith (selectRate tariff)"
  by (intro ext) (simp add: processReading_def processWith_def)

lemma processReading_part001_eq_with: "processReading_part001 tariff = processWith (selectRate_part001 tariff)"
  by (intro ext) (simp add: processReading_part001_def processWith_def)

lemma forEachReading_append:
  "forEachReading body s (xs @ ys) =
     (case forEachReading body s xs of None \<Rightarrow> None | Some s' \<Rightarrow> forEachReading body s' ys)"
  by (induction xs arbitrary: s) (auto split: option.splits)

lemma map_fst_addToKey: "map fst (addToKey k u c pm) = map fst pm"
  by (induction pm) auto

lemma map_fst_ensureKey:
  "map fst (ensureKey k pm) = (if k \<in> set (map fst pm) then map fst pm else map fst pm @ [k])"
proof (cases "map_of pm k")
  case None
  then have "k \<notin> set (map fst pm)" by (simp add: map_of_eq_None_iff)
  then show ?thesis using None by (simp add: ensureKey_def)
next
  case (Some v)
  then have "k \<in> set (map fst pm)" by (metis map_of_eq_None_iff option.distinct(1) set_map)
  then show ?thesis using Some by (simp add: ensureKey_def)
qed

lemma processWith_Some:
  assumes "sel (timestamp r) (monthlyUsageCounter (resetIfMonthChanged s (timestamp r))) = Some x"
  shows "\<exists>s'. processWith sel s r = Some s'
     \<and> currentMonth s' = getMonth (timestamp r)
     \<and> monthlyUsageCounter s' = fadd (monthlyUsageCounter (resetIfMonthChanged s (timestamp r))) (value_kwh r)
     \<and> totalCost_acc s' = fadd (totalCost_acc s) (fmul (value_kwh r) x)
     \<and> map fst (periodMap s') = map fst (ensureKey (monthKey (timestamp r)) (periodMap s))"
  using assms by (simp add: processWith_def Let_def resetIfMonthChanged_def map_fst_addToKey)

lemma processWith_None:
  "processWith sel s r = None \<longleftrightarrow>
     sel (timestamp r) (monthlyUsageCounter (resetIfMonthChanged s (timestamp r))) = None"
  by (simp add: processWith_def Let_def split: option.splits)

lemma counterBefore_Nil: "counterBefore [] r = 0"
  by (simp add: counterBefore_def fsum_def)

lemma counterBefore_snoc:
  "counterBefore (ps @ [p]) r =
     (if getMonth (timestamp p) = getMonth (timestamp r)
      then fadd (counterBefore ps p) (value_kwh p) else 0)"
  by (simp add: counterBefore_def fsum_snoc fsum_Nil)

text \<open>The tiered-pricing state after a prefix of the readings.\<close>

lemma forEach_counter_state:
  assumes "forEachReading (processWith sel) initialState ps = Some s"
  shows "monthlyUsageCounter (resetIfMonthChanged s (timestamp r)) = counterBefore ps r
       \<and> (ps \<noteq> [] \<longrightarrow> currentMonth s = getMonth (timestamp (last ps)))
       \<and> (ps = [] \<longrightarrow> s = initialState)"
  using assms
proof (induction ps arbitrary: s r rule: rev_induct)
  case Nil
  then show ?case
    by (auto simp: counterBefore_Nil resetIfMonthChanged_def initialState_def)
next
  case (snoc p ps)
  from snoc.prems obtain s0 where s0: "forEachReading (processWith sel) initialState ps = Some s0"
    and st: "processWith sel s0 p = Some s"
    by (auto simp: forEachReading_append split: option.splits)
  from st obtain x where x: "sel (timestamp p) (monthlyUsageCounter (resetIfMonthChanged s0 (timestamp p))) = Some x"
    using processWith_None [of sel s0 p] by (cases "sel (timestamp p) (monthlyUsageCounter (resetIfMonthChanged s0 (timestamp p)))") auto
  from processWith_Some [of sel p s0 x, OF x] st
  have cm: "currentMonth s = getMonth (timestamp p)"
    and cnt: "monthlyUsageCounter s = fadd (monthlyUsageCounter (resetIfMonthChanged s0 (timestamp p))) (value_kwh p)"
    by auto
  have ih: "monthlyUsageCounter (resetIfMonthChanged s0 (timestamp p)) = counterBefore ps p"
    using snoc.IH [OF s0] by blast
  show ?case
    using cm cnt ih by (simp add: resetIfMonthChanged_def counterBefore_snoc)
qed

lemma energyFor_snoc:
  "energyFor (ps @ [p]) (\<lambda>i. g (take i (ps @ [p])) ((ps @ [p]) ! i))
     = fadd (energyFor ps (\<lambda>i. g (take i ps) (ps ! i))) (fmul (value_kwh p) (g ps p))"
proof -
  have "map (\<lambda>i. fmul (value_kwh ((ps @ [p]) ! i)) (g (take i (ps @ [p])) ((ps @ [p]) ! i))) [0..<length ps]
      = map (\<lambda>i. fmul (value_kwh (ps ! i)) (g (take i ps) (ps ! i))) [0..<length ps]"
    by (rule map_cong) (auto simp: nth_append)
  note h = this
  have a: "[0..<length (ps @ [p])] = [0..<length ps] @ [length ps]"
    by simp
  have b: "fmul (value_kwh ((ps @ [p]) ! length ps)) (g (take (length ps) (ps @ [p])) ((ps @ [p]) ! length ps))
      = fmul (value_kwh p) (g ps p)"
    by simp
  show ?thesis
    by (simp only: energyFor_def a map_append list.map fsum_snoc h b)
qed

lemma forEach_total:
  assumes "\<And>d c. sel d c = Some (rf d c)"
  shows "\<exists>s. forEachReading (processWith sel) initialState rs = Some s
     \<and> totalCost_acc s =
         energyFor rs (\<lambda>i. rf (timestamp (rs ! i)) (counterBefore (take i rs) (rs ! i)))
     \<and> distinct (map fst (periodMap s))
     \<and> set (map fst (periodMap s)) = (\<lambda>r. monthKey (timestamp r)) ` set rs"
proof (induction rs rule: rev_induct)
  case Nil
  then show ?case by (simp add: initialState_def energyFor_def fsum_Nil)
next
  case (snoc p ps)
  then obtain s0 where s0: "forEachReading (processWith sel) initialState ps = Some s0"
    and tot: "totalCost_acc s0 =
         energyFor ps (\<lambda>i. rf (timestamp (ps ! i)) (counterBefore (take i ps) (ps ! i)))"
    and d0: "distinct (map fst (periodMap s0))"
    and k0: "set (map fst (periodMap s0)) = (\<lambda>r. monthKey (timestamp r)) ` set ps"
    by blast
  have c: "monthlyUsageCounter (resetIfMonthChanged s0 (timestamp p)) = counterBefore ps p"
    using forEach_counter_state [OF s0] by blast
  from processWith_Some [of sel p s0 "rf (timestamp p) (monthlyUsageCounter (resetIfMonthChanged s0 (timestamp p)))", OF assms]
  obtain s where st: "processWith sel s0 p = Some s"
    and acc: "totalCost_acc s = fadd (totalCost_acc s0) (fmul (value_kwh p) (rf (timestamp p) (counterBefore ps p)))"
    and keys: "map fst (periodMap s) = map fst (ensureKey (monthKey (timestamp p)) (periodMap s0))"
    using c by auto
  have 1: "forEachReading (processWith sel) initialState (ps @ [p]) = Some s"
    using s0 st by (simp add: forEachReading_append)
  have 2: "totalCost_acc s =
      energyFor (ps @ [p]) (\<lambda>i. rf (timestamp ((ps @ [p]) ! i)) (counterBefore (take i (ps @ [p])) ((ps @ [p]) ! i)))"
    using acc tot energyFor_snoc [of ps p "\<lambda>xs r. rf (timestamp r) (counterBefore xs r)"] by simp
  have 3: "distinct (map fst (periodMap s))"
    using d0 by (simp add: keys map_fst_ensureKey)
  have 4: "set (map fst (periodMap s)) = (\<lambda>r. monthKey (timestamp r)) ` set (ps @ [p])"
    using k0 by (auto simp: keys map_fst_ensureKey)
  show ?case using 1 2 3 4 by blast
qed

lemma length_insertBy: "length (insertBy cmp x ys) = Suc (length ys)"
  by (induction ys) auto

lemma length_sortBy: "length (sortBy cmp xs) = length xs"
  by (induction xs) (auto simp: sortBy_def length_insertBy)

lemma finishCost_total:
  "totalCost (finishCost tariff s)
     = fadd (totalCost_acc s) (fmul (real (length (periodMap s))) (fixedMonthlyCharge tariff))
   \<and> length (breakdown (finishCost tariff s)) = length (periodMap s)"
  by (simp add: finishCost_def Let_def length_sortBy)

lemma monthCount_keys:
  assumes "distinct (map fst pm)" and "set (map fst pm) = (\<lambda>r. monthKey (timestamp r)) ` set rs"
  shows "length pm = monthCount rs"
proof -
  have "length pm = card (set (map fst pm))"
    using assms(1) distinct_card [of "map fst pm"] by simp
  also have "\<dots> = card (set (map (\<lambda>r. monthKey (timestamp r)) rs))"
    using assms(2) by simp
  also have "\<dots> = monthCount rs"
    by (simp add: monthCount_def length_remdups_card_conv)
  finally show ?thesis .
qed

lemma detailed_cost_with:
  assumes "\<And>d c. sel d c = Some (rf d c)"
  shows "\<exists>s. forEachReading (processWith sel) initialState rs = Some s
     \<and> totalCost (finishCost t s)
         = totalFor t rs (\<lambda>i. rf (timestamp (rs ! i)) (counterBefore (take i rs) (rs ! i)))
     \<and> length (breakdown (finishCost t s)) = monthCount rs"
proof -
  from forEach_total [of sel rf rs, OF assms]
  obtain s where s: "forEachReading (processWith sel) initialState rs = Some s"
    and tot: "totalCost_acc s =
         energyFor rs (\<lambda>i. rf (timestamp (rs ! i)) (counterBefore (take i rs) (rs ! i)))"
    and d: "distinct (map fst (periodMap s))"
    and k: "set (map fst (periodMap s)) = (\<lambda>r. monthKey (timestamp r)) ` set rs"
    by blast
  have len: "length (periodMap s) = monthCount rs"
    using d k by (rule monthCount_keys)
  show ?thesis
    using s tot len finishCost_total [of t s] by (simp add: totalFor_def)
qed

lemma detailed_cost_total:
  assumes "\<And>d c. selectRate t d c = Some (rf d c)"
  shows "\<exists>calc. calculateDetailedCost rs t = Some calc
     \<and> totalCost calc = totalFor t rs (\<lambda>i. rf (timestamp (rs ! i)) (counterBefore (take i rs) (rs ! i)))
     \<and> length (breakdown calc) = monthCount rs"
  using detailed_cost_with [of "selectRate t" rf rs t, OF assms]
  by (auto simp: calculateDetailedCost_def processReading_eq_with)

lemma detailed_cost_part001_total:
  assumes "\<And>d c. selectRate_part001 t d c = Some (rf d c)"
  shows "\<exists>calc. calculateDetailedCost_part001 rs t = Some calc
     \<and> totalCost calc = totalFor t rs (\<lambda>i. rf (timestamp (rs ! i)) (counterBefore (take i rs) (rs ! i)))
     \<and> length (breakdown calc) = monthCount rs"
  using detailed_cost_with [of "selectRate_part001 t" rf rs t, OF assms]
  by (auto simp: calculateDetailedCost_part001_def processReading_part001_eq_with)

lemma selectRate_flat:
  assumes "tariff_type t = Flat \<or> tariff_type t = Tiered" and "periods t = p0 # ps"
  shows "selectRate t d c = Some (tierRate (rate p0) (getMonth d) c)"
  using assms by (auto simp: selectRate_def tierRate_def Let_def baseline_times_4)

lemma selectRate_part001_flat:
  assumes "tariff_type t = Flat \<or> tariff_type t = Tiered" and "periods t = p0 # ps"
  shows "selectRate_part001 t d c = Some (tierRate_part001 (getEffectiveRate p0 (getMonth d)) (getMonth d) c)"
  using assms by (auto simp: selectRate_part001_def tierRate_part001_def isSummerMonth_def Let_def)

lemma selectRate_tou:
  assumes "\<not> (tariff_type t = Flat \<or> tariff_type t = Tiered)" and "periods t = p0 # ps"
  shows "selectRate t d c =
    Some (rate (case find (hourInPeriod (getHours d)) (periods t) of Some p \<Rightarrow> p | None \<Rightarrow> p0))"
  using assms by (simp add: selectRate_def Let_def split: option.split)

lemma selectRate_None_iff: "selectRate t d c = None \<longleftrightarrow> periods t = []"
proof (cases "periods t")
  case Nil
  then show ?thesis by (simp add: selectRate_def Let_def)
next
  case (Cons p0 ps)
  then show ?thesis
    using selectRate_flat [of t p0 ps d c] selectRate_tou [of t p0 ps d c]
    by (cases "tariff_type t = Flat \<or> tariff_type t = Tiered") simp_all
qed

lemma selectRate_part001_tou:
  assumes "\<not> (tariff_type t = Flat \<or> tariff_type t = Tiered)" and "periods t = p0 # ps"
  shows "selectRate_part001 t d c =
    Some (getEffectiveRate (case find (hourInPeriod (getHours d)) (periods t) of Some p \<Rightarrow> p | None \<Rightarrow> p0)
            (getMonth d))"
  using assms by (simp add: selectRate_part001_def Let_def split: option.split)

lemma selectRate_part001_None_iff: "selectRate_part001 t d c = None \<longleftrightarrow> periods t = []"
proof (cases "periods t")
  case Nil
  then show ?thesis by (simp add: selectRate_part001_def Let_def)
next
  case (Cons p0 ps)
  then show ?thesis
    using selectRate_part001_flat [of t p0 ps d c] selectRate_part001_tou [of t p0 ps d c]
    by (cases "tariff_type t = Flat \<or> tariff_type t = Tiered") simp_all
qed

lemma forEach_processReading_Some:
  assumes "periods t \<noteq> []"
  shows "\<exists>s. forEachReading (processReading t) initialState rs = Some s"
proof -
  have "selectRate t d c = Some (the (selectRate t d c))" for d c
    using assms selectRate_None_iff [of t d c] by (cases "selectRate t d c") auto
  from forEach_total [of "selectRate t" "\<lambda>d c. the (selectRate t d c)" rs, OF this]
  show ?thesis by (auto simp: processReading_eq_with)
qed

lemma forEach_processReading_part001_Some:
  assumes "periods t \<noteq> []"
  shows "\<exists>s. forEachReading (processReading_part001 t) initialState rs = Some s"
proof -
  have "selectRate_part001 t d c = Some (the (selectRate_part001 t d c))" for d c
    using assms selectRate_part001_None_iff [of t d c] by (cases "selectRate_part001 t d c") auto
  from forEach_total [of "selectRate_part001 t" "\<lambda>d c. the (selectRate_part001 t d c)" rs, OF this]
  show ?thesis by (auto simp: processReading_part001_eq_with)
qed

lemma counterBefore_append_same:
  assumes "getMonth (timestamp a) = getMonth (timestamp r)"
    and "\<forall>x \<in> set mid. getMonth (timestamp x) = getMonth (timestamp r)"
  shows "counterBefore (qs @ a # mid) r = foldl fadd (counterBefore qs a) (map value_kwh (a # mid))"
proof -
  have "takeWhile (\<lambda>p. getMonth (timestamp p) = getMonth (timestamp r)) (rev (qs @ a # mid))
      = rev mid @ a # takeWhile (\<lambda>p. getMonth (timestamp p) = getMonth (timestamp a)) (rev qs)"
    using assms by (simp add: takeWhile_append)
  then have "counterBefore (qs @ a # mid) r
      = fsum (map value_kwh (rev (takeWhile (\<lambda>p. getMonth (timestamp p) = getMonth (timestamp a)) (rev qs)))
              @ map value_kwh (a # mid))"
    by (simp add: counterBefore_def)
  then show ?thesis
    unfolding fsum_append by (simp add: counterBefore_def)
qed

lemma counterBefore_reset:
  assumes "ps \<noteq> []" and "getMonth (timestamp (last ps)) \<noteq> getMonth (timestamp r)"
  shows "counterBefore ps r = 0"
proof -
  from assms(1) obtain qs p where ps: "ps = qs @ [p]"
    by (cases ps rule: rev_cases) auto
  then show ?thesis using assms(2) by (simp add: counterBefore_snoc)
qed

lemma counterBefore_same_month:
  assumes "\<forall>p \<in> set ps. getMonth (timestamp p) = getMonth (timestamp r)"
  shows "counterBefore ps r = fsum (map value_kwh ps)"
proof -
  have h: "takeWhile (\<lambda>p. getMonth (timestamp p) = getMonth (timestamp r)) (rev ps) = rev ps"
    using assms by (simp add: takeWhile_eq_all_conv)
  show ?thesis
    unfolding counterBefore_def h by simp
qed

lemma find_in_set: "find P xs = Some x \<Longrightarrow> x \<in> set xs"
  by (induction xs) (auto split: if_splits)

lemma hourInPeriod_inWindow: "hourInPeriod hour p = inWindow (startHour p) (endHour p) hour"
  by (auto simp: hourInPeriod_def inWindow_def)

lemma find_takeWhile:
  "find P xs = (if list_ex P xs then Some (xs ! length (takeWhile (\<lambda>x. \<not> P x) xs)) else None)"
  by (induction xs) auto

lemma length_takeWhile_lt: "\<exists>x \<in> set xs. \<not> P x \<Longrightarrow> length (takeWhile P xs) < length xs"
  by (induction xs) auto

lemma touIndex_period:
  assumes "periods t = p0 # ps"
  shows "(case find (hourInPeriod hour) (periods t) of Some p \<Rightarrow> p | None \<Rightarrow> p0)
       = periods t ! touIndex t hour"
proof (cases "list_ex (hourInPeriod hour) (periods t)")
  case True
  then show ?thesis
    by (simp add: find_takeWhile [of "hourInPeriod hour" "periods t"] touIndex_def)
next
  case False
  then have "find (hourInPeriod hour) (periods t) = None" and "touIndex t hour = 0"
    by (simp_all add: find_takeWhile [of "hourInPeriod hour" "periods t"] touIndex_def)
  then show ?thesis using assms by simp
qed

lemma touIndex_first:
  assumes "periods t \<noteq> []"
  shows "touIndex t hour < length (periods t)
       \<and> (\<forall>j<touIndex t hour. \<not> hourInPeriod hour (periods t ! j))
       \<and> (hourInPeriod hour (periods t ! touIndex t hour)
          \<or> (touIndex t hour = 0 \<and> (\<forall>j<length (periods t). \<not> hourInPeriod hour (periods t ! j))))"
proof (cases "list_ex (hourInPeriod hour) (periods t)")
  case True
  let ?k = "length (takeWhile (\<lambda>p. \<not> hourInPeriod hour p) (periods t))"
  have k: "touIndex t hour = ?k" using True by (simp add: touIndex_def)
  have lt: "?k < length (periods t)"
    using True by (intro length_takeWhile_lt) (auto simp: list_ex_iff)
  have "\<not> \<not> hourInPeriod hour (periods t ! ?k)"
    using lt by (rule nth_length_takeWhile)
  moreover have "\<not> hourInPeriod hour (periods t ! j)" if "j < ?k" for j
    using that takeWhile_nth [OF that] nth_mem [OF that] by (auto dest: set_takeWhileD)
  ultimately show ?thesis using k lt by simp
next
  case False
  then have "touIndex t hour = 0" by (simp add: touIndex_def)
  moreover have "\<forall>j<length (periods t). \<not> hourInPeriod hour (periods t ! j)"
    using False by (auto simp: list_ex_iff)
  ultimately show ?thesis using assms by simp
qed

lemma getEffectiveRate_spec: "getEffectiveRate p m = effectiveRate p m"
  by (auto simp: getEffectiveRate_def effectiveRate_def isSummerMonth_def split: option.splits)

lemma getEffectiveRate_plain: "\<not> overrideInPlay p m \<Longrightarrow> getEffectiveRate p m = rate p"
  by (auto simp: getEffectiveRate_def overrideInPlay_def isSummerMonth_def split: option.splits)

lemma selectRate_charged:
  assumes "periods t \<noteq> []"
  shows "selectRate t d c
       = Some (tieredRate t (rate (periods t ! chargedIndex t (getHours d))) (getMonth d) c)"
proof -
  from assms obtain p0 ps where ps: "periods t = p0 # ps"
    by (cases "periods t") auto
  show ?thesis
  proof (cases "tariff_type t = Tou")
    case True
    then have nf: "\<not> (tariff_type t = Flat \<or> tariff_type t = Tiered)" by simp
    show ?thesis
      using selectRate_tou [OF nf ps, of d c] touIndex_period [OF ps, of "getHours d"] True
      by (simp add: chargedIndex_def tieredRate_def)
  next
    case False
    then have f: "tariff_type t = Flat \<or> tariff_type t = Tiered"
      by (cases "tariff_type t") auto
    show ?thesis
      using selectRate_flat [OF f ps, of d c] False ps
      by (simp add: chargedIndex_def tieredRate_def)
  qed
qed

lemma selectRate_part001_charged:
  assumes "periods t \<noteq> []"
  shows "selectRate_part001 t d c
       = Some (tieredRate_part001 t
                 (getEffectiveRate (periods t ! chargedIndex t (getHours d)) (getMonth d))
                 (getMonth d) c)"
proof -
  from assms obtain p0 ps where ps: "periods t = p0 # ps"
    by (cases "periods t") auto
  show ?thesis
  proof (cases "tariff_type t = Tou")
    case True
    then have nf: "\<not> (tariff_type t = Flat \<or> tariff_type t = Tiered)" by simp
    show ?thesis
      using selectRate_part001_tou [OF nf ps, of d c] touIndex_period [OF ps, of "getHours d"] True
      by (simp add: chargedIndex_def tieredRate_part001_def)
  next
    case False
    then have f: "tariff_type t = Flat \<or> tariff_type t = Tiered"
      by (cases "tariff_type t") auto
    show ?thesis
      using selectRate_part001_flat [OF f ps, of d c] False ps
      by (simp add: chargedIndex_def tieredRate_part001_def)
  qed
qed

text \<open>Two rate selections that agree at the counter every reading sees give the same loop.\<close>

lemma forEach_agree:
  assumes "\<forall>i<length rs. sel1 (timestamp (rs ! i)) (counterBefore (take i rs) (rs ! i))
                        = sel2 (timestamp (rs ! i)) (counterBefore (take i rs) (rs ! i))"
  shows "forEachReading (processWith sel1) initialState rs
       = forEachReading (processWith sel2) initialState rs"
  using assms
proof (induction rs rule: rev_induct)
  case Nil
  then show ?case by simp
next
  case (snoc p ps)
  have "\<forall>i<length ps. sel1 (timestamp (ps ! i)) (counterBefore (take i ps) (ps ! i))
                     = sel2 (timestamp (ps ! i)) (counterBefore (take i ps) (ps ! i))"
  proof (intro allI impI)
    fix i assume i: "i < length ps"
    from snoc.prems [rule_format, of i] i show
      "sel1 (timestamp (ps ! i)) (counterBefore (take i ps) (ps ! i))
         = sel2 (timestamp (ps ! i)) (counterBefore (take i ps) (ps ! i))"
      by (simp add: nth_append)
  qed
  from snoc.IH [OF this]
  have ih: "forEachReading (processWith sel1) initialState ps
          = forEachReading (processWith sel2) initialState ps" .
  have last: "sel1 (timestamp p) (counterBefore ps p) = sel2 (timestamp p) (counterBefore ps p)"
    using snoc.prems [rule_format, of "length ps"] by simp
  show ?case
  proof (cases "forEachReading (processWith sel2) initialState ps")
    case None
    then show ?thesis using ih by (simp add: forEachReading_append)
  next
    case (Some s0)
    have c: "monthlyUsageCounter (resetIfMonthChanged s0 (timestamp p)) = counterBefore ps p"
      using forEach_counter_state [OF Some] by blast
    have "processWith sel1 s0 p = processWith sel2 s0 p"
      using last c by (simp add: processWith_def Let_def)
    then show ?thesis using ih Some by (simp add: forEachReading_append split: option.splits)
  qed
qed

lemma selectRate_agree:
  assumes "periods t = [] \<or> chargedAlike t rs i"
  shows "selectRate_part001 t (timestamp (rs ! i)) (counterBefore (take i rs) (rs ! i))
       = selectRate t (timestamp (rs ! i)) (counterBefore (take i rs) (rs ! i))"
proof (cases "periods t = []")
  case True
  then show ?thesis
    by (simp add: selectRate_None_iff [THEN iffD2] selectRate_part001_None_iff [THEN iffD2])
next
  case False
  let ?d = "timestamp (rs ! i)"
  let ?c = "counterBefore (take i rs) (rs ! i)"
  let ?p = "periods t ! chargedIndex t (getHours ?d)"
  from False assms have a: "chargedAlike t rs i" by simp
  then have eff: "getEffectiveRate ?p (getMonth ?d) = rate ?p"
    by (intro getEffectiveRate_plain) (simp add: chargedAlike_def Let_def)
  have "tieredRate_part001 t (rate ?p) (getMonth ?d) ?c = tieredRate t (rate ?p) (getMonth ?d) ?c"
    using a by (auto simp: chargedAlike_def Let_def tieredRate_def tieredRate_part001_def
        tierRate_def tierRate_part001_def)
  then show ?thesis
    using selectRate_charged [OF False, of ?d ?c] selectRate_part001_charged [OF False, of ?d ?c] eff
    by simp
qed

lemma calculateDetailedCost_agree:
  assumes "allChargedAlike t rs"
  shows "calculateDetailedCost_part001 rs t = calculateDetailedCost rs t"
proof -
  have "\<forall>i<length rs. selectRate_part001 t (timestamp (rs ! i)) (counterBefore (take i rs) (rs ! i))
                     = selectRate t (timestamp (rs ! i)) (counterBefore (take i rs) (rs ! i))"
    using assms by (auto simp: allChargedAlike_def list_all_iff intro!: selectRate_agree)
  from forEach_agree [OF this]
  show ?thesis
    by (simp add: calculateDetailedCost_def calculateDetailedCost_part001_def
        processReading_eq_with processReading_part001_eq_with)
qed

lemma those_map_Some:
  "those (map f xs) = Some ys \<longleftrightarrow> length ys = length xs \<and> (\<forall>i<length xs. f (xs ! i) = Some (ys ! i))"
proof (induction xs arbitrary: ys)
  case Nil
  then show ?case by auto
next
  case (Cons x xs)
  show ?case
  proof (cases "f x")
    case None
    then show ?thesis by (auto simp: All_less_Suc2)
  next
    case (Some y)
    show ?thesis
    proof (cases ys)
      case Nil
      then show ?thesis using Some by (auto split: option.splits)
    next
      case (Cons z zs)
      then show ?thesis using Some Cons.IH [of zs]
        by (auto simp: All_less_Suc2 split: option.splits)
    qed
  qed
qed

lemma currentIndex_find:
  assumes "allTariffs = t0 # ts"
  shows "(case find (\<lambda>t. tariff_id t = cur) allTariffs of
            Some t \<Rightarrow> Some t
          | None \<Rightarrow> (case allTariffs of [] \<Rightarrow> None | t0 # _ \<Rightarrow> Some t0))
       = Some (allTariffs ! currentIndex cur allTariffs)
     \<and> currentIndex cur allTariffs < length allTariffs"
proof (cases "list_ex (\<lambda>t. tariff_id t = cur) allTariffs")
  case True
  then have "length (takeWhile (\<lambda>t. \<not> tariff_id t = cur) allTariffs) < length allTariffs"
    by (intro length_takeWhile_lt) (auto simp: list_ex_iff)
  then show ?thesis using True
    by (simp add: find_takeWhile [of "\<lambda>t. tariff_id t = cur" allTariffs] currentIndex_def)
next
  case False
  then have "find (\<lambda>t. tariff_id t = cur) allTariffs = None" and "currentIndex cur allTariffs = 0"
    by (simp_all add: find_takeWhile [of "\<lambda>t. tariff_id t = cur" allTariffs] currentIndex_def)
  then show ?thesis using assms by simp
qed

lemma calculateDetailedCost_Some:
  assumes "periods t \<noteq> []"
  shows "\<exists>calc. calculateDetailedCost rs t = Some calc"
  using forEach_processReading_Some [OF assms, of rs]
  by (auto simp: calculateDetailedCost_def)

lemma energyFor_cong:
  assumes "\<And>i. i < length rs \<Longrightarrow> f i = g i"
  shows "energyFor rs f = energyFor rs g"
proof -
  have "map (\<lambda>i. fmul (value_kwh (rs ! i)) (f i)) [0..<length rs]
      = map (\<lambda>i. fmul (value_kwh (rs ! i)) (g i)) [0..<length rs]"
    by (rule map_cong) (auto simp: assms)
  then show ?thesis by (simp only: energyFor_def)
qed

lemma totalFor_cong:
  assumes "\<And>i. i < length rs \<Longrightarrow> f i = g i"
  shows "totalFor t rs f = totalFor t rs g"
  using energyFor_cong [of rs f g, OF assms] by (simp add: totalFor_def)

lemma double_270: "fadd 0 270 = 270"
  by (simp add: double_eval)

text \<open>The totals of both copies in closed form.\<close>

lemma detailed_cost_charged:
  assumes "periods t \<noteq> []"
  shows "\<exists>calc. calculateDetailedCost rs t = Some calc
     \<and> totalCost calc =
         totalFor t rs (\<lambda>i. tieredRate t (rate (periods t ! chargedIndex t (getHours (timestamp (rs ! i)))))
                               (getMonth (timestamp (rs ! i))) (counterBefore (take i rs) (rs ! i)))
     \<and> length (breakdown calc) = monthCount rs"
  using detailed_cost_total
    [of t "\<lambda>d c. tieredRate t (rate (periods t ! chargedIndex t (getHours d))) (getMonth d) c" rs,
     OF selectRate_charged [OF assms]]
  by simp

lemma detailed_cost_part001_charged:
  assumes "periods t \<noteq> []"
  shows "\<exists>calc. calculateDetailedCost_part001 rs t = Some calc
     \<and> totalCost calc =
         totalFor t rs (\<lambda>i. tieredRate_part001 t
                               (getEffectiveRate (periods t ! chargedIndex t (getHours (timestamp (rs ! i))))
                                  (getMonth (timestamp (rs ! i))))
                               (getMonth (timestamp (rs ! i))) (counterBefore (take i rs) (rs ! i)))
     \<and> length (breakdown calc) = monthCount rs"
  using detailed_cost_part001_total
    [of t "\<lambda>d c. tieredRate_part001 t (getEffectiveRate (periods t ! chargedIndex t (getHours d)) (getMonth d))
                   (getMonth d) c" rs,
     OF selectRate_part001_charged [OF assms]]
  by simp

lemma total_charged:
  assumes "periods t \<noteq> []"
  shows "map_option totalCost (calculateDetailedCost rs t) =
         Some (totalFor t rs (\<lambda>i. tieredRate t (rate (periods t ! chargedIndex t (getHours (timestamp (rs ! i)))))
                               (getMonth (timestamp (rs ! i))) (counterBefore (take i rs) (rs ! i))))"
  using detailed_cost_charged [OF assms, of rs] by auto

lemma total_part001_charged:
  assumes "periods t \<noteq> []"
  shows "map_option totalCost (calculateDetailedCost_part001 rs t) =
         Some (totalFor t rs (\<lambda>i. tieredRate_part001 t
                               (getEffectiveRate (periods t ! chargedIndex t (getHours (timestamp (rs ! i))))
                                  (getMonth (timestamp (rs ! i))))
                               (getMonth (timestamp (rs ! i))) (counterBefore (take i rs) (rs ! i))))"
  using detailed_cost_part001_charged [OF assms, of rs] by auto

text \<open>The equations that evaluate the closed forms on the example inputs.\<close>

lemmas cost_eval = totalFor_def energyFor_def fsum_def counterBefore_def tierRate_def
  tierRate_part001_def tieredRate_def tieredRate_part001_def chargedIndex_def touIndex_def
  hourInPeriod_def monthCount_def monthKey_def exampleDate_def getEffectiveRate_def
  isSummerMonth_def

section \<open>Sorting and the grouping of gas readings\<close>

lemma set_insertBy: "set (insertBy cmp x ys) = insert x (set ys)"
  by (induction ys) auto

lemma sum_list_insertBy: "sum_list (map f (insertBy cmp x ys)) = (f x :: real) + sum_list (map f ys)"
  by (induction ys) auto

lemma distinct_insertBy:
  "distinct (map f (insertBy cmp x ys)) \<longleftrightarrow> f x \<notin> f ` set ys \<and> distinct (map f ys)"
  by (induction ys) (auto simp: set_insertBy)

lemma set_sortBy: "set (sortBy cmp xs) = set xs"
  by (induction xs) (auto simp: sortBy_def set_insertBy)

lemma sum_list_sortBy: "sum_list (map f (sortBy cmp xs)) = (sum_list (map f xs) :: real)"
  by (induction xs) (auto simp: sortBy_def sum_list_insertBy)

lemma distinct_sortBy: "distinct (map f (sortBy cmp xs)) \<longleftrightarrow> distinct (map f xs)"
proof (induction xs)
  case Nil
  then show ?case by (simp add: sortBy_def)
next
  case (Cons x xs)
  have "sortBy cmp (x # xs) = insertBy cmp x (sortBy cmp xs)"
    by (simp add: sortBy_def)
  then show ?case using Cons by (simp add: distinct_insertBy set_sortBy)
qed

lemma foldl_plus: "foldl (\<lambda>s x. s + f x) a xs = (a :: real) + sum_list (map f xs)"
  by (induction xs arbitrary: a) auto

(* grouping *)

lemma pushReading_keys: "map fst (pushReading k r m) = map fst m"
  by (induction m) auto

lemma pushReading_map_of:
  "map_of (pushReading k r m) k' =
     (if k' = k then map_option (\<lambda>xs. xs @ [r]) (map_of m k) else map_of m k')"
  by (induction m) auto

lemma groupReading_keys:
  "map fst (groupReading m r) =
     (if monthKey (gas_timestamp r) \<in> set (map fst m) then map fst m
      else map fst m @ [monthKey (gas_timestamp r)])"
  by (auto simp: groupReading_def Let_def pushReading_keys map_of_eq_None_iff)

lemma groupReading_readingsOf:
  "readingsOf (groupReading m r) k =
     (if k = monthKey (gas_timestamp r) then readingsOf m k @ [r] else readingsOf m k)"
proof (cases "map_of m (monthKey (gas_timestamp r))")
  case None
  then show ?thesis
    by (auto simp: groupReading_def Let_def readingsOf_def pushReading_map_of map_add_def
        split: option.splits)
next
  case (Some xs)
  then show ?thesis
    by (auto simp: groupReading_def Let_def readingsOf_def pushReading_map_of
        split: option.splits)
qed

lemma group_fold:
  assumes "distinct (map fst m)"
  shows "distinct (map fst (foldl groupReading m rs))
       \<and> set (map fst (foldl groupReading m rs)) = set (map fst m) \<union> gasMonths rs
       \<and> (\<forall>k. readingsOf (foldl groupReading m rs) k
                = readingsOf m k @ filter (\<lambda>r. monthKey (gas_timestamp r) = k) rs)"
  using assms
proof (induction rs arbitrary: m)
  case Nil
  then show ?case by (simp add: gasMonths_def)
next
  case (Cons r rs)
  have d: "distinct (map fst (groupReading m r))"
    using Cons.prems by (simp add: groupReading_keys)
  have s: "set (map fst (groupReading m r)) = insert (monthKey (gas_timestamp r)) (set (map fst m))"
    by (auto simp: groupReading_keys)
  from Cons.IH [OF d] s show ?case
    by (auto simp: gasMonths_def groupReading_readingsOf)
qed

lemma map_of_readingsOf: "(k, xs) \<in> set m \<Longrightarrow> distinct (map fst m) \<Longrightarrow> readingsOf m k = xs"
  by (simp add: readingsOf_def)

lemma gasMonthEntry_eq:
  "gasMonthEntry t (k, xs) =
     \<lparr>monthName = k, usage = sum_list (map value_therms xs),
      cost = gasMonthCost t (sum_list (map value_therms xs))\<rparr>"
  by (simp add: gasMonthEntry_def Let_def foldl_plus gasMonthCost_def)

lemma gas_breakdown_entries:
  assumes "rs \<noteq> []"
  shows "distinct (map monthName (calculateGasMonthlyBreakdown rs t))
       \<and> set (map monthName (calculateGasMonthlyBreakdown rs t)) = gasMonths rs
       \<and> (\<forall>e \<in> set (calculateGasMonthlyBreakdown rs t).
             usage e = gasMonthUsage rs (monthName e)
           \<and> cost e = gasMonthCost t (gasMonthUsage rs (monthName e)))"
proof -
  let ?m = "foldl groupReading [] rs"
  from group_fold [of "[]" rs]
  have d: "distinct (map fst ?m)" and s: "set (map fst ?m) = gasMonths rs"
    and f: "\<And>k. readingsOf ?m k = filter (\<lambda>r. monthKey (gas_timestamp r) = k) rs"
    by (simp_all add: readingsOf_def)
  have bd: "calculateGasMonthlyBreakdown rs t
      = sortBy (\<lambda>a b. localeCompare (monthName a) (monthName b)) (map (gasMonthEntry t) ?m)"
    using assms by (simp add: calculateGasMonthlyBreakdown_def Let_def)
  have names: "map monthName (map (gasMonthEntry t) ?m) = map fst ?m"
    by (auto simp: gasMonthEntry_eq)
  have ent: "usage e = gasMonthUsage rs (monthName e)
           \<and> cost e = gasMonthCost t (gasMonthUsage rs (monthName e))"
    if "e \<in> set (map (gasMonthEntry t) ?m)" for e
  proof -
    from that obtain k xs where kx: "(k, xs) \<in> set ?m" and e: "e = gasMonthEntry t (k, xs)"
      by auto
    have "xs = filter (\<lambda>r. monthKey (gas_timestamp r) = k) rs"
      using map_of_readingsOf [OF kx d] f [of k] by simp
    then show ?thesis
      by (simp add: e gasMonthEntry_eq gasMonthUsage_def)
  qed
  have "distinct (map monthName (calculateGasMonthlyBreakdown rs t))"
    unfolding bd distinct_sortBy names by (rule d)
  moreover have "set (map monthName (calculateGasMonthlyBreakdown rs t)) = gasMonths rs"
    unfolding bd set_map set_sortBy using s names by (metis set_map)
  ultimately show ?thesis
    using ent by (simp add: bd set_sortBy)
qed

section \<open>The normalizer, the header scan and the row loop\<close>

lemma sorted_insertBy:
  assumes "\<And>a b. cmp a b \<le> 0 \<longleftrightarrow> f a \<le> (f b :: int)"
    and "sorted (map f ys)"
  shows "sorted (map f (insertBy cmp x ys))"
  using assms(2)
proof (induction ys)
  case Nil
  then show ?case by simp
next
  case (Cons y ys)
  then show ?case
    using assms(1) by (auto simp: set_insertBy)
qed

lemma sorted_sortBy:
  assumes "\<And>a b. cmp a b \<le> 0 \<longleftrightarrow> f a \<le> (f b :: int)"
  shows "sorted (map f (sortBy cmp xs))"
proof (induction xs)
  case Nil
  then show ?case by (simp add: sortBy_def)
next
  case (Cons x xs)
  have "sortBy cmp (x # xs) = insertBy cmp x (sortBy cmp xs)"
    by (simp add: sortBy_def)
  then show ?case
    using sorted_insertBy [of cmp f "sortBy cmp xs" x, OF assms Cons] by simp
qed

lemma filter_sum_insertBy:
  "sum_list (map g (filter P (insertBy cmp x ys)))
     = (if P x then g x else 0) + (sum_list (map g (filter P ys)) :: real)"
  by (induction ys) auto

lemma filter_sum_sortBy:
  "sum_list (map g (filter P (sortBy cmp xs))) = (sum_list (map g (filter P xs)) :: real)"
proof (induction xs)
  case Nil
  then show ?case by (simp add: sortBy_def)
next
  case (Cons x xs)
  have "sortBy cmp (x # xs) = insertBy cmp x (sortBy cmp xs)"
    by (simp add: sortBy_def)
  then show ?case using Cons by (simp add: filter_sum_insertBy)
qed

(* ---- the Map of sums ---- *)

lemma addToSum_keys_old: "k \<in> fst ` set m \<Longrightarrow> map fst (addToSum k v m) = map fst m"
  by (induction m) (force simp: image_iff)+

lemma addToSum_keys_new: "k \<notin> fst ` set m \<Longrightarrow> map fst (addToSum k v m) = map fst m @ [k]"
  by (induction m) auto

lemma addToSum_keys:
  "map fst (addToSum k v m) = (if k \<in> set (map fst m) then map fst m else map fst m @ [k])"
  by (simp add: addToSum_keys_old addToSum_keys_new)

lemma addToSum_map_of:
  "distinct (map fst m) \<Longrightarrow>
   map_of (addToSum k v m) k' =
     (if k' = k then Some ((case map_of m k of None \<Rightarrow> 0 | Some s \<Rightarrow> s) + v) else map_of m k')"
  by (induction m) (auto simp: map_of_eq_None_iff [symmetric])

lemma summed_fold:
  assumes "distinct (map fst m)"
  shows "distinct (map fst (foldl (\<lambda>m r. addToSum (getTime (fst r)) (snd r) m) m rs))
       \<and> set (map fst (foldl (\<lambda>m r. addToSum (getTime (fst r)) (snd r) m) m rs))
           = set (map fst m) \<union> (\<lambda>r. getTime (fst r)) ` set rs
       \<and> (\<forall>k. sumAt (foldl (\<lambda>m r. addToSum (getTime (fst r)) (snd r) m) m rs) k
             = sumAt m k + sum_list (map snd (filter (\<lambda>r. getTime (fst r) = k) rs)))"
  using assms
proof (induction rs arbitrary: m)
  case Nil
  then show ?case by simp
next
  case (Cons r rs)
  let ?m1 = "addToSum (getTime (fst r)) (snd r) m"
  have d: "distinct (map fst ?m1)"
    using Cons.prems by (simp add: addToSum_keys)
  have s: "set (map fst ?m1) = insert (getTime (fst r)) (set (map fst m))"
    by (auto simp: addToSum_keys)
  have v: "sumAt ?m1 k = sumAt m k + (if getTime (fst r) = k then snd r else 0)" for k
    using Cons.prems by (auto simp: sumAt_def addToSum_map_of)
  from Cons.IH [OF d] s v show ?case
    by (auto simp: algebra_simps)
qed

lemma normalize_props:
  "sorted_wrt (<) (map (\<lambda>r. getTime (fst r)) (normalizeReadings host raw))
   \<and> set (map (\<lambda>r. getTime (fst r)) (normalizeReadings host raw)) = (\<lambda>r. getTime (fst r)) ` set raw
   \<and> (\<forall>r \<in> set (normalizeReadings host raw). snd r = sumAtTime raw (getTime (fst r)))"
proof -
  let ?sorted = "sortBy (\<lambda>a b. getTime (fst a) - getTime (fst b)) raw"
  let ?summed = "foldl (\<lambda>m r. addToSum (getTime (fst r)) (snd r) m) [] ?sorted"
  let ?entries = "sortBy (\<lambda>a b. fst a - fst b) ?summed"
  have out: "normalizeReadings host raw = map (\<lambda>(ms, v). (dateOfTime host ms, v)) ?entries"
    by (simp add: normalizeReadings_def Let_def)
  have times: "map (\<lambda>r. getTime (fst r)) (normalizeReadings host raw) = map fst ?entries"
    by (simp add: out dateOfTime_def comp_def case_prod_beta)
  from summed_fold [of "[]" ?sorted]
  have d: "distinct (map fst ?summed)"
    and s: "set (map fst ?summed) = (\<lambda>r. getTime (fst r)) ` set raw"
    and v: "\<And>k. sumAt ?summed k = sumAtTime raw k"
    by (simp_all add: set_sortBy sumAt_def sumAtTime_def filter_sum_sortBy)
  have "sorted (map fst ?entries)"
    by (rule sorted_sortBy) auto
  moreover have "distinct (map fst ?entries)"
    using d by (simp add: distinct_sortBy)
  ultimately have "sorted_wrt (<) (map fst ?entries)"
    by (simp add: strict_sorted_iff)
  moreover have "set (map fst ?entries) = (\<lambda>r. getTime (fst r)) ` set raw"
    using s by (simp add: set_sortBy)
  moreover have "snd r = sumAtTime raw (getTime (fst r))" if "r \<in> set (normalizeReadings host raw)" for r
  proof -
    from that obtain ms x where e: "(ms, x) \<in> set ?summed" and r: "r = (dateOfTime host ms, x)"
      by (auto simp: out set_sortBy)
    have "map_of ?summed ms = Some x"
      using e d by simp
    then have "x = sumAtTime raw ms"
      using v [of ms] by (simp add: sumAt_def)
    then show ?thesis by (simp add: r dateOfTime_def)
  qed
  ultimately show ?thesis
    using times by (simp del: set_map)
qed

lemma scanHeaderRows_result:
  "scanHeaderRows score i rs (bi, bs) = (bi', bs') \<Longrightarrow>
     bs \<le> bs'
   \<and> (\<forall>j<length rs. rowEligible (rs ! j) \<longrightarrow> score (map trim (rs ! j)) \<le> bs')
   \<and> ((bi' = bi \<and> bs' = bs)
      \<or> (\<exists>j<length rs. bi' = i + int j \<and> rowEligible (rs ! j)
            \<and> score (map trim (rs ! j)) = bs' \<and> bs < bs'
            \<and> (\<forall>k<j. rowEligible (rs ! k) \<longrightarrow> score (map trim (rs ! k)) < bs')))"
proof (induction rs arbitrary: i bi bs)
  case Nil
  then show ?case by simp
next
  case (Cons r rs)
  show ?case
  proof (cases "rowEligible r")
    case False
    then have "scanHeaderRows score (i + 1) rs (bi, bs) = (bi', bs')"
      using Cons.prems by (simp add: rowEligible_def Let_def)
    from Cons.IH [OF this] False show ?thesis
      by (auto simp: All_less_Suc2 Ex_less_Suc2)
  next
    case True
    show ?thesis
    proof (cases "score (map trim r) > bs")
      case gt: True
      then have "scanHeaderRows score (i + 1) rs (i, score (map trim r)) = (bi', bs')"
        using Cons.prems True by (simp add: rowEligible_def Let_def)
      from Cons.IH [OF this] True gt show ?thesis
        by (auto simp: All_less_Suc2 Ex_less_Suc2)
    next
      case le: False
      then have "scanHeaderRows score (i + 1) rs (bi, bs) = (bi', bs')"
        using Cons.prems True by (simp add: rowEligible_def Let_def)
      from Cons.IH [OF this] True le show ?thesis
        by (auto simp: All_less_Suc2 Ex_less_Suc2)
    qed
  qed
qed

lemma detect_generic:
  assumes "scanHeaderRows score 0 (take (min (length rows) 80) rows) (- 1, 0) = (bi, bs)"
    and "0 < threshold"
  shows "(bs \<ge> threshold \<longleftrightarrow> (\<exists>i. headerCandidate score threshold rows i))
       \<and> (bs \<ge> threshold \<longrightarrow> 0 \<le> bi \<and> headerCandidate score threshold rows (nat bi)
            \<and> (\<forall>i. headerCandidate score threshold rows i \<longrightarrow>
                  score (map trim (rows ! i)) \<le> score (map trim (rows ! nat bi))
                \<and> (i < nat bi \<longrightarrow> score (map trim (rows ! i)) < score (map trim (rows ! nat bi)))))"
proof -
  let ?rs = "take (min (length rows) 80) rows"
  have len: "length ?rs = min (length rows) 80" by simp
  have nth: "?rs ! j = rows ! j" if "j < min (length rows) 80" for j
    using that by simp
  from scanHeaderRows_result [OF assms(1)]
  have ub: "\<forall>j<length ?rs. rowEligible (?rs ! j) \<longrightarrow> score (map trim (?rs ! j)) \<le> bs"
    and alt: "(bi = - 1 \<and> bs = 0)
      \<or> (\<exists>j<length ?rs. bi = 0 + int j \<and> rowEligible (?rs ! j)
            \<and> score (map trim (?rs ! j)) = bs \<and> 0 < bs
            \<and> (\<forall>k<j. rowEligible (?rs ! k) \<longrightarrow> score (map trim (?rs ! k)) < bs))"
    by blast+
  have cand_le: "score (map trim (rows ! i)) \<le> bs" if "headerCandidate score threshold rows i" for i
    using that ub nth [of i] by (auto simp: headerCandidate_def)
  have found: "0 \<le> bi \<and> headerCandidate score threshold rows (nat bi)
            \<and> score (map trim (rows ! nat bi)) = bs
            \<and> (\<forall>k<nat bi. rowEligible (rows ! k) \<longrightarrow> score (map trim (rows ! k)) < bs)"
    if ge: "bs \<ge> threshold"
  proof -
    from alt ge assms(2) obtain j where j: "j < length ?rs" "bi = int j" "rowEligible (?rs ! j)"
      "score (map trim (?rs ! j)) = bs"
      "\<forall>k<j. rowEligible (?rs ! k) \<longrightarrow> score (map trim (?rs ! k)) < bs"
      by auto
    have "\<forall>k<j. rowEligible (rows ! k) \<longrightarrow> score (map trim (rows ! k)) < bs"
      using j(1,5) by auto
    then show ?thesis
      using j ge by (auto simp: headerCandidate_def)
  qed
  have "(bs \<ge> threshold \<longleftrightarrow> (\<exists>i. headerCandidate score threshold rows i))"
    using found cand_le by (auto simp: headerCandidate_def intro: order_trans)
  moreover have "score (map trim (rows ! i)) < score (map trim (rows ! nat bi))"
    if "bs \<ge> threshold" "headerCandidate score threshold rows i" "i < nat bi" for i
    using found [OF that(1)] that(2,3) by (auto simp: headerCandidate_def)
  ultimately show ?thesis
    using found cand_le by auto
qed

lemma detectHeaderRowIndex_iff:
  "(detectHeaderRowIndex rows = - 1 \<longleftrightarrow> \<not> (\<exists>i. headerCandidate scoreHeaderRow 4 rows i))
   \<and> (detectHeaderRowIndex rows \<noteq> - 1 \<longrightarrow>
        0 \<le> detectHeaderRowIndex rows
      \<and> headerCandidate scoreHeaderRow 4 rows (nat (detectHeaderRowIndex rows))
      \<and> (\<forall>i. headerCandidate scoreHeaderRow 4 rows i \<longrightarrow>
            scoreHeaderRow (map trim (rows ! i))
              \<le> scoreHeaderRow (map trim (rows ! nat (detectHeaderRowIndex rows)))
          \<and> (i < nat (detectHeaderRowIndex rows) \<longrightarrow>
               scoreHeaderRow (map trim (rows ! i))
                 < scoreHeaderRow (map trim (rows ! nat (detectHeaderRowIndex rows))))))"
proof -
  obtain bi bs where s: "scanHeaderRows scoreHeaderRow 0 (take (min (length rows) 80) rows) (- 1, 0) = (bi, bs)"
    by (cases "scanHeaderRows scoreHeaderRow 0 (take (min (length rows) 80) rows) (- 1, 0)") auto
  have d: "detectHeaderRowIndex rows = (if bs \<ge> 4 then bi else - 1)"
    using s by (simp add: detectHeaderRowIndex_def Let_def)
  from detect_generic [OF s, of 4] show ?thesis
    unfolding d by auto
qed

lemma detectHeaderRowIndex_gas_iff:
  "(detectHeaderRowIndex_gas rows = - 1 \<longleftrightarrow> \<not> (\<exists>i. headerCandidate scoreHeaderRow_gas 3 rows i))
   \<and> (detectHeaderRowIndex_gas rows \<noteq> - 1 \<longrightarrow>
        0 \<le> detectHeaderRowIndex_gas rows
      \<and> headerCandidate scoreHeaderRow_gas 3 rows (nat (detectHeaderRowIndex_gas rows)))"
proof -
  obtain bi bs where s: "scanHeaderRows scoreHeaderRow_gas 0 (take (min (length rows) 80) rows) (- 1, 0) = (bi, bs)"
    by (cases "scanHeaderRows scoreHeaderRow_gas 0 (take (min (length rows) 80) rows) (- 1, 0)") auto
  have d: "detectHeaderRowIndex_gas rows = (if bs \<ge> 3 then bi else - 1)"
    using s by (simp add: detectHeaderRowIndex_gas_def Let_def)
  from detect_generic [OF s, of 3] show ?thesis
    unfolding d by auto
qed

(* ---- columns ---- *)

lemma findIndexFrom_none: "0 \<le> i \<Longrightarrow> findIndexFrom i P xs = - 1 \<longleftrightarrow> (\<forall>x \<in> set xs. \<not> P x)"
  by (induction i P xs rule: findIndexFrom.induct) auto

lemma findHeader_none: "findHeader headers P = - 1 \<longleftrightarrow> (\<forall>h \<in> set headers. \<not> P h)"
  by (simp add: findHeader_def findIndexFrom_none)

lemma usageIdx_none: "usageIdx (resolveUsageColumns headers) = - 1 \<longleftrightarrow> noUsageColumn headers"
  by (auto simp: resolveUsageColumns_def Let_def findHeader_none noUsageColumn_def)

lemma thermsIdx_none: "resolveThermsColumn headers = - 1 \<longleftrightarrow> noThermsColumn headers"
  by (auto simp: resolveThermsColumn_def Let_def findHeader_none noThermsColumn_def)

(* ---- row loop ---- *)

lemma collectReadings_eq:
  "collectReadings body rows (rs, n)
     = (rs @ List.map_filter body rows, n + length (filter (\<lambda>r. body r = None) rows))"
  by (induction rows arbitrary: rs n) (auto simp: List.map_filter_simps split: option.splits)

lemma map_filter_empty: "List.map_filter f xs = [] \<longleftrightarrow> (\<forall>x \<in> set xs. f x = None)"
  by (induction xs) (auto simp: List.map_filter_simps split: option.splits)

lemma parsePgeIntervalCsv_cases:
  "parsePgeIntervalCsv host csv =
     (if length (csvRows csv) < 2 then Inl EmptyCsv
      else if detectHeaderRowIndex (csvRows csv) = - 1 then Inl NoHeaderRow
      else if usageIdx (usageColumnsOf csv) = - 1 then Inl NoUsageColumn
      else if rawReadings host csv = [] then Inl NoReadings
      else Inr \<lparr>pge_readings = map (\<lambda>(d, v). \<lparr>timestamp = d, value_kwh = v\<rparr>)
                  (normalizeReadings host (map (\<lambda>r. (timestamp r, value_kwh r)) (rawReadings host csv))),
               pge_warnings = (if hasSolarColumns (usageColumnsOf csv) then [SolarNetUsage] else [])
                 @ (if skippedRows host csv > 0 then [SkippedRows (skippedRows host csv)] else [])
                 @ intervalWarning
                     (normalizeReadings host (map (\<lambda>r. (timestamp r, value_kwh r)) (rawReadings host csv)))\<rparr>)"
  by (simp add: parsePgeIntervalCsv_def Let_def collectReadings_eq usageColumnsOf_def
      timeColumnsOf_def dataRows_def rawReadings_def skippedRows_def headersAt_def
      dataRowsAfter_def)

lemma parsePgeGasCsv_cases:
  "parsePgeGasCsv host csv =
     (if length (csvRows csv) < 2 then Inl EmptyCsv
      else if detectHeaderRowIndex_gas (csvRows csv) = - 1 then Inl NoHeaderRow
      else if thermsColumnOf csv = - 1 then Inl NoUsageColumn
      else if rawGasReadings host csv = [] then Inl NoReadings
      else Inr \<lparr>gas_readings = map (\<lambda>(d, v). \<lparr>gas_timestamp = d, value_therms = v\<rparr>)
                  (normalizeReadings host (map (\<lambda>r. (gas_timestamp r, value_therms r)) (rawGasReadings host csv))),
               gas_warnings = (if skippedGasRows host csv > 0 then [SkippedRows (skippedGasRows host csv)] else [])
                 @ intervalWarning_gas
                     (normalizeReadings host (map (\<lambda>r. (gas_timestamp r, value_therms r)) (rawGasReadings host csv)))\<rparr>)"
  by (simp add: parsePgeGasCsv_def Let_def collectReadings_eq thermsColumnOf_def
      timeColumnsOf_gas_def dataRows_gas_def rawGasReadings_def skippedGasRows_def headersAt_def
      dataRowsAfter_def)

lemma parse_result:
  assumes "2 \<le> length (csvRows csv)" and "detectHeaderRowIndex (csvRows csv) \<noteq> - 1"
    and "usageIdx (usageColumnsOf csv) \<noteq> - 1" and "rawReadings host csv \<noteq> []"
  shows "parsePgeIntervalCsv host csv =
     Inr \<lparr>pge_readings = map (\<lambda>(d, v). \<lparr>timestamp = d, value_kwh = v\<rparr>)
                  (normalizeReadings host (map (\<lambda>r. (timestamp r, value_kwh r)) (rawReadings host csv))),
               pge_warnings = (if hasSolarColumns (usageColumnsOf csv) then [SolarNetUsage] else [])
                 @ (if skippedRows host csv > 0 then [SkippedRows (skippedRows host csv)] else [])
                 @ intervalWarning
                     (normalizeReadings host (map (\<lambda>r. (timestamp r, value_kwh r)) (rawReadings host csv)))\<rparr>"
  using assms by (subst parsePgeIntervalCsv_cases) simp

lemma solarDuplicate_rows:
  "csvRows solarDuplicateCsv =
     [[''Date'', ''Start Time'', ''IMPORT (kWh)'', ''EXPORT (kWh)''],
      [''01/18/2025'', ''00:15'', ''0.2'', ''0.5''],
      [''01/18/2025'', ''00:15'', ''0.1'', ''0.4''],
      [''01/18/2025'', ''00:00'', ''1'', ''0'']]"
  by code_simp

lemma solarDuplicate_header: "detectHeaderRowIndex (csvRows solarDuplicateCsv) = 0"
  unfolding solarDuplicate_rows by code_simp

lemma solarDuplicate_usage:
  "usageColumnsOf solarDuplicateCsv
     = \<lparr>importIdx = 2, exportIdx = 3, hasSolarColumns = True, usageIdx = 2\<rparr>"
  unfolding usageColumnsOf_def solarDuplicate_header solarDuplicate_rows by code_simp

lemma solarDuplicate_time:
  "timeColumnsOf solarDuplicateCsv
     = \<lparr>startDateIdx = - 1, startTimeIdx = 1, endDateIdx = - 1, endTimeIdx = - 1,
        startDateTimeIdx = - 1, endDateTimeIdx = - 1, dateIdx = 0, timeIdx = - 1\<rparr>"
  unfolding timeColumnsOf_def solarDuplicate_header solarDuplicate_rows by code_simp

lemma solarDuplicate_data:
  "dataRows solarDuplicateCsv =
     [[''01/18/2025'', ''00:15'', ''0.2'', ''0.5''],
      [''01/18/2025'', ''00:15'', ''0.1'', ''0.4''],
      [''01/18/2025'', ''00:00'', ''1'', ''0'']]"
  unfolding dataRows_def solarDuplicate_header solarDuplicate_rows by code_simp

lemma solarDuplicate_raw:
  "map (\<lambda>r. (getTime (timestamp r), value_kwh r)) (rawReadings exampleHost solarDuplicateCsv)
     = [(1737159300000, - 0.3), (1737159300000, - 0.3), (1737158400000, 1)]"
  unfolding rawReadings_def solarDuplicate_usage solarDuplicate_time solarDuplicate_data by code_simp

lemma solarDuplicate_normalized:
  "map (\<lambda>r. (getTime (fst r), snd r))
     (normalizeReadings exampleHost
        (map (\<lambda>r. (timestamp r, value_kwh r)) (rawReadings exampleHost solarDuplicateCsv)))
     = [(1737158400000, 1), (1737159300000, - 0.6)]"
  unfolding rawReadings_def solarDuplicate_usage solarDuplicate_time solarDuplicate_data by code_simp

(* ---- C6 ---- *)

lemma sumAtTime_energy:
  "sumAtTime (map (\<lambda>r. (timestamp r, value_kwh r)) raw) ms
     = sum_list (map value_kwh (filter (\<lambda>x. getTime (timestamp x) = ms) raw))"
  by (simp add: sumAtTime_def filter_map comp_def)

lemma sumAtTime_gas:
  "sumAtTime (map (\<lambda>r. (gas_timestamp r, value_therms r)) raw) ms
     = sum_list (map value_therms (filter (\<lambda>x. getTime (gas_timestamp x) = ms) raw))"
  by (simp add: sumAtTime_def filter_map comp_def)

lemma unreadable_rows:
  "csvRows unreadableCsv =
     [[''Start Date'', ''Start Time'', ''Usage (kWh)''],
      [''01/18/2025'', ''noon'', ''1.5'']]"
  by code_simp

lemma unreadable_header: "detectHeaderRowIndex (csvRows unreadableCsv) = 0"
  unfolding unreadable_rows by code_simp

lemma unreadable_usage:
  "usageColumnsOf unreadableCsv
     = \<lparr>importIdx = - 1, exportIdx = - 1, hasSolarColumns = False, usageIdx = 2\<rparr>"
  unfolding usageColumnsOf_def unreadable_header unreadable_rows by code_simp

lemma unreadable_time:
  "timeColumnsOf unreadableCsv
     = \<lparr>startDateIdx = 0, startTimeIdx = 1, endDateIdx = - 1, endTimeIdx = - 1,
        startDateTimeIdx = - 1, endDateTimeIdx = - 1, dateIdx = - 1, timeIdx = - 1\<rparr>"
  unfolding timeColumnsOf_def unreadable_header unreadable_rows by code_simp

lemma unreadable_data: "dataRows unreadableCsv = [[''01/18/2025'', ''noon'', ''1.5'']]"
  unfolding dataRows_def unreadable_header unreadable_rows by code_simp

lemma unreadable_raw: "rawReadings exampleHost unreadableCsv = []"
  unfolding rawReadings_def unreadable_usage unreadable_time unreadable_data by code_simp

lemma example_rows:
  "csvRows exampleCsv =
     [[''Name'', ''Some Body''],
      [''Account'', ''123''],
      [''Start Date'', ''Start Time'', ''Usage (kWh)''],
      [''01/18/2025'', ''00:15'', ''1.234''],
      [''01/18/2025'', ''00:15'', ''0.5''],
      [''01/18/2025'', ''00:30'', ''abc''],
      [''01/18/2025'', ''00:00'', ''2'']]"
  by code_simp

lemma example_header: "detectHeaderRowIndex (csvRows exampleCsv) = 2"
  unfolding example_rows by code_simp

lemma example_usage:
  "usageColumnsOf exampleCsv
     = \<lparr>importIdx = - 1, exportIdx = - 1, hasSolarColumns = False, usageIdx = 2\<rparr>"
  unfolding usageColumnsOf_def example_header example_rows by code_simp

lemma example_time:
  "timeColumnsOf exampleCsv
     = \<lparr>startDateIdx = 0, startTimeIdx = 1, endDateIdx = - 1, endTimeIdx = - 1,
        startDateTimeIdx = - 1, endDateTimeIdx = - 1, dateIdx = - 1, timeIdx = - 1\<rparr>"
  unfolding timeColumnsOf_def example_header example_rows by code_simp

lemma example_data:
  "dataRows exampleCsv =
     [[''01/18/2025'', ''00:15'', ''1.234''],
      [''01/18/2025'', ''00:15'', ''0.5''],
      [''01/18/2025'', ''00:30'', ''abc''],
      [''01/18/2025'', ''00:00'', ''2'']]"
  unfolding dataRows_def example_header example_rows by code_simp

lemma example_raw:
  "map (\<lambda>r. (getTime (timestamp r), value_kwh r)) (rawReadings exampleHost exampleCsv)
     = [(1737159300000, 1.234), (1737159300000, 0.5), (1737158400000, 2)]"
  unfolding rawReadings_def example_usage example_time example_data by code_simp

lemma example_skipped: "skippedRows exampleHost exampleCsv = 1"
  unfolding skippedRows_def example_usage example_time example_data by code_simp

lemma example_normalized:
  "map (\<lambda>r. (getTime (fst r), snd r))
     (normalizeReadings exampleHost
        (map (\<lambda>r. (timestamp r, value_kwh r)) (rawReadings exampleHost exampleCsv)))
     = [(1737158400000, 2), (1737159300000, 1.734)]"
  unfolding rawReadings_def example_usage example_time example_data by code_simp

lemma solar_rows:
  "csvRows solarCsv =
     [[''Date'', ''Start Time'', ''IMPORT (kWh)'', ''EXPORT (kWh)''],
      [''01/18/2025'', ''00:15'', ''abc'', ''0.5''],
      [''01/18/2025'', ''00:30'', ''2.0'', ''0.5'']]"
  by code_simp

lemma solar_header: "detectHeaderRowIndex (csvRows solarCsv) = 0"
  unfolding solar_rows by code_simp

lemma solar_usage:
  "usageColumnsOf solarCsv
     = \<lparr>importIdx = 2, exportIdx = 3, hasSolarColumns = True, usageIdx = 2\<rparr>"
  unfolding usageColumnsOf_def solar_header solar_rows by code_simp

lemma solar_time:
  "timeColumnsOf solarCsv
     = \<lparr>startDateIdx = - 1, startTimeIdx = 1, endDateIdx = - 1, endTimeIdx = - 1,
        startDateTimeIdx = - 1, endDateTimeIdx = - 1, dateIdx = 0, timeIdx = - 1\<rparr>"
  unfolding timeColumnsOf_def solar_header solar_rows by code_simp

lemma solar_data:
  "dataRows solarCsv =
     [[''01/18/2025'', ''00:15'', ''abc'', ''0.5''],
      [''01/18/2025'', ''00:30'', ''2.0'', ''0.5'']]"
  unfolding dataRows_def solar_header solar_rows by code_simp

lemma solar_raw:
  "map (\<lambda>r. (getTime (timestamp r), value_kwh r)) (rawReadings exampleHost solarCsv)
     = [(1737159300000, - 0.5), (1737160200000, 1.5)]"
  unfolding rawReadings_def solar_usage solar_time solar_data by code_simp

lemma solar_skipped: "skippedRows exampleHost solarCsv = 0"
  unfolding skippedRows_def solar_usage solar_time solar_data by code_simp

lemma solar_normalized:
  "map (\<lambda>r. (getTime (fst r), snd r))
     (normalizeReadings exampleHost
        (map (\<lambda>r. (timestamp r, value_kwh r)) (rawReadings exampleHost solarCsv)))
     = [(1737159300000, - 0.5), (1737160200000, 1.5)]"
  unfolding rawReadings_def solar_usage solar_time solar_data by code_simp

lemma solar_interval:
  "intervalWarning
     (normalizeReadings exampleHost
        (map (\<lambda>r. (timestamp r, value_kwh r)) (rawReadings exampleHost solarCsv))) = []"
proof -
  have "length (normalizeReadings exampleHost
        (map (\<lambda>r. (timestamp r, value_kwh r)) (rawReadings exampleHost solarCsv))) = 2"
    using solar_normalized [THEN arg_cong, of length] by simp
  then show ?thesis by (simp add: intervalWarning_def)
qed

(* ---- C7 witness ---- *)

lemma skip_filter_interval: "filter isSkipWarning (intervalWarning n) = []"
  by (simp add: intervalWarning_def isSkipWarning_def Let_def)

section \<open>Tiered pricing (C1)\<close>

text \<open>
  C1, as amended. In services/energyCalculator.ts, for a flat or tiered tariff with a
  non-empty \<open>periods\<close>, every reading is charged value \<times> tiered rate, where the tiered rate
  is \<open>periods[0].rate\<close> when the running monthly counter before the reading is below the
  baseline (270 in months 5-8, 350 otherwise), \<open>periods[0].rate\<close> \<times> 1.28 from the baseline
  up to 4 times the baseline, and \<open>periods[0].rate\<close> \<times> 1.45 from there on; the counter is
  the double the loop has accumulated, and a whole reading is priced at the tier of the
  counter before it. The total is the charges accumulated in reading order plus the fixed
  charge times the number of months. So one-month winter readings whose running totals stay
  below 350 are charged without any multiplier, and a summer month made of a 270 kWh reading
  followed by a 130 kWh reading costs 270 \<times> rate + 130 \<times> (rate \<times> 1.28), every operation
  rounded. The copy in part\_001 charges \<open>getEffectiveRate(periods[0], month)\<close> below the
  baseline and 1.24 times it from the baseline on.
\<close>

theorem tiered_pricing:
  assumes "tariff_type t = Flat \<or> tariff_type t = Tiered" and "periods t = p0 # ps"
  shows "\<exists>calc calc'.
      calculateDetailedCost rs t = Some calc
    \<and> totalCost calc =
        totalFor t rs (\<lambda>i. tierRate (rate p0) (getMonth (timestamp (rs ! i)))
                              (counterBefore (take i rs) (rs ! i)))
    \<and> length (breakdown calc) = monthCount rs
    \<and> ((\<forall>r \<in> set rs. getMonth (timestamp r) = m) \<and> \<not> (5 \<le> m \<and> m \<le> 8)
         \<and> (\<forall>i<length rs. fsum (map value_kwh (take i rs)) < 350)
        \<longrightarrow> totalCost calc = totalFor t rs (\<lambda>i. rate p0))
    \<and> (length rs = 2 \<and> (\<forall>r \<in> set rs. getMonth (timestamp r) = m) \<and> 5 \<le> m \<and> m \<le> 8
         \<and> value_kwh (rs ! 0) = 270 \<and> value_kwh (rs ! 1) = 130
        \<longrightarrow> totalCost calc =
              fadd (fsum [fmul 270 (rate p0), fmul 130 (fmul (rate p0) (toDouble 1.28))])
                   (fmul (real (monthCount rs)) (fixedMonthlyCharge t)))
    \<and> calculateDetailedCost_part001 rs t = Some calc'
    \<and> totalCost calc' =
        totalFor t rs (\<lambda>i. tierRate_part001 (getEffectiveRate p0 (getMonth (timestamp (rs ! i))))
                              (getMonth (timestamp (rs ! i))) (counterBefore (take i rs) (rs ! i)))"
proof -
  let ?rf = "\<lambda>i. tierRate (rate p0) (getMonth (timestamp (rs ! i))) (counterBefore (take i rs) (rs ! i))"
  from detailed_cost_total [of t "\<lambda>d c. tierRate (rate p0) (getMonth d) c" rs]
    selectRate_flat [OF assms]
  obtain calc where c1: "calculateDetailedCost rs t = Some calc"
    and e1: "totalCost calc = totalFor t rs ?rf"
    and n1: "length (breakdown calc) = monthCount rs"
    by blast
  from detailed_cost_part001_total
    [of t "\<lambda>d c. tierRate_part001 (getEffectiveRate p0 (getMonth d)) (getMonth d) c" rs]
    selectRate_part001_flat [OF assms]
  obtain calc' where c2: "calculateDetailedCost_part001 rs t = Some calc'"
    and e2: "totalCost calc' =
        totalFor t rs (\<lambda>i. tierRate_part001 (getEffectiveRate p0 (getMonth (timestamp (rs ! i))))
                              (getMonth (timestamp (rs ! i))) (counterBefore (take i rs) (rs ! i)))"
    by blast
  have winter: "totalCost calc = totalFor t rs (\<lambda>i. rate p0)"
    if same: "\<forall>r \<in> set rs. getMonth (timestamp r) = m" and w: "\<not> (5 \<le> m \<and> m \<le> 8)"
      and low: "\<forall>i<length rs. fsum (map value_kwh (take i rs)) < 350"
  proof -
    have "?rf i = rate p0" if i: "i < length rs" for i
    proof -
      have mi: "getMonth (timestamp (rs ! i)) = m" using same i by simp
      have "\<forall>p \<in> set (take i rs). getMonth (timestamp p) = getMonth (timestamp (rs ! i))"
        using same mi by (auto dest: in_set_takeD)
      then have "counterBefore (take i rs) (rs ! i) = fsum (map value_kwh (take i rs))"
        by (rule counterBefore_same_month)
      then show ?thesis using low i mi w by (auto simp: tierRate_def)
    qed
    then have "totalFor t rs ?rf = totalFor t rs (\<lambda>i. rate p0)"
      by (rule totalFor_cong)
    then show ?thesis using e1 by simp
  qed
  have summer: "totalCost calc =
              fadd (fsum [fmul 270 (rate p0), fmul 130 (fmul (rate p0) (toDouble 1.28))])
                   (fmul (real (monthCount rs)) (fixedMonthlyCharge t))"
    if len: "length rs = 2" and same: "\<forall>r \<in> set rs. getMonth (timestamp r) = m"
      and su: "5 \<le> m \<and> m \<le> 8" and v0: "value_kwh (rs ! 0) = 270" and v1: "value_kwh (rs ! 1) = 130"
  proof -
    from len obtain a b where rs: "rs = [a, b]"
      by (cases rs; cases "tl rs") auto
    have ma: "getMonth (timestamp a) = m" and mb: "getMonth (timestamp b) = m"
      using same rs by auto
    have va: "value_kwh a = 270" and vb: "value_kwh b = 130"
      using v0 v1 rs by auto
    have c0: "counterBefore [] a = 0"
      by (rule counterBefore_Nil)
    have c1: "counterBefore [a] b = 270"
      using counterBefore_snoc [of "[]" a b] ma mb va by (simp add: counterBefore_Nil double_270)
    have "energyFor rs ?rf = fsum [fmul 270 (rate p0), fmul 130 (fmul (rate p0) (toDouble 1.28))]"
      using ma mb va vb su c0 c1 by (simp add: rs energyFor_def tierRate_def)
    then show ?thesis using e1 by (simp add: totalFor_def)
  qed
  show ?thesis
    using c1 e1 n1 c2 e2 winter summer by blast
qed

text \<open>
  January readings of 43.639, 306.361 and 100 kWh at the rate 0.5: the first two add up to
  less than 350 as reals, the counter the third reading sees is the double 350, so the
  third reading is charged at 1.28 times the rate and the total is
  21.8195 + 153.1805 + 64 = 239. January readings of 349.2, 0.4, 0.4 and 100 kWh at 0.5:
  the counter the fourth reading sees is 349.99999999999994, so no reading is charged a
  multiplier and the total is 224.99999999999997. January readings of 100 and 170 kWh at
  0.38 cost 38 + 64.6, the double 102.6.
\<close>

theorem tiered_pricing_witness:
  "map_option totalCost (calculateDetailedCost boundaryReadings halfFlat) = Some 239
   \<and> value_kwh (boundaryReadings ! 0) + value_kwh (boundaryReadings ! 1) < 350
   \<and> counterBefore (take 2 boundaryReadings) (boundaryReadings ! 2) = 350
   \<and> map_option totalCost (calculateDetailedCost nearBoundaryReadings halfFlat)
       = Some (toDouble 224.99999999999997)
   \<and> counterBefore (take 3 nearBoundaryReadings) (nearBoundaryReadings ! 3) = toDouble 349.99999999999994
   \<and> map_option totalCost (calculateDetailedCost winterReadings exampleFlat) = Some (toDouble 102.6)"
proof -
  have ty: "tariff_type halfFlat = Flat \<or> tariff_type halfFlat = Tiered"
    by (simp add: halfFlat_def)
  have ps: "periods halfFlat =
      \<lparr>period_name = ''Baseline'', startHour = 0, endHour = 23, rate = toDouble 0.5, summerRate = None\<rparr> # []"
    by (simp add: halfFlat_def)
  have v: "totalFor halfFlat boundaryReadings
             (\<lambda>i. tierRate (toDouble 0.5) (getMonth (timestamp (boundaryReadings ! i)))
                     (counterBefore (take i boundaryReadings) (boundaryReadings ! i))) = 239"
    by (simp add: cost_eval boundaryReadings_def halfFlat_def double_eval)
  have b: "value_kwh (boundaryReadings ! 0) + value_kwh (boundaryReadings ! 1) < 350"
    by (simp add: boundaryReadings_def double_eval)
  have c: "counterBefore (take 2 boundaryReadings) (boundaryReadings ! 2) = 350"
    by (simp add: cost_eval boundaryReadings_def double_eval)
  from tiered_pricing [OF ty ps, of boundaryReadings] v
  have 1: "map_option totalCost (calculateDetailedCost boundaryReadings halfFlat) = Some 239"
    by auto
  have same3: "\<forall>r \<in> set nearBoundaryReadings. getMonth (timestamp r) = 0"
    by (simp add: nearBoundaryReadings_def exampleDate_def)
  have low3: "\<forall>i<length nearBoundaryReadings. fsum (map value_kwh (take i nearBoundaryReadings)) < 350"
    by (simp add: nearBoundaryReadings_def less_Suc_eq numeral_3_eq_3 fsum_def double_eval)
  have w3: "totalFor halfFlat nearBoundaryReadings (\<lambda>i. toDouble 0.5) = toDouble 224.99999999999997"
    by (simp add: cost_eval nearBoundaryReadings_def halfFlat_def double_eval)
  have c3: "counterBefore (take 3 nearBoundaryReadings) (nearBoundaryReadings ! 3) = toDouble 349.99999999999994"
    by (simp add: cost_eval nearBoundaryReadings_def double_eval)
  from tiered_pricing [OF ty ps, of nearBoundaryReadings 0] same3 low3 w3
  have 3: "map_option totalCost (calculateDetailedCost nearBoundaryReadings halfFlat)
       = Some (toDouble 224.99999999999997)"
    by auto
  have ty': "tariff_type exampleFlat = Flat \<or> tariff_type exampleFlat = Tiered"
    by (simp add: exampleFlat_def)
  have ps': "periods exampleFlat =
      \<lparr>period_name = ''Baseline'', startHour = 0, endHour = 23, rate = toDouble 0.38, summerRate = None\<rparr> # []"
    by (simp add: exampleFlat_def)
  have same: "\<forall>r \<in> set winterReadings. getMonth (timestamp r) = 0"
    by (simp add: winterReadings_def exampleDate_def)
  have low: "\<forall>i<length winterReadings. fsum (map value_kwh (take i winterReadings)) < 350"
    by (simp add: winterReadings_def less_Suc_eq numeral_2_eq_2 fsum_def double_eval)
  have w: "totalFor exampleFlat winterReadings (\<lambda>i. toDouble 0.38) = toDouble 102.6"
    by (simp add: cost_eval winterReadings_def exampleFlat_def double_eval)
  from tiered_pricing [OF ty' ps', of winterReadings 0] same low w
  have 2: "map_option totalCost (calculateDetailedCost winterReadings exampleFlat) = Some (toDouble 102.6)"
    by auto
  show ?thesis using 1 2 3 b c c3 by simp
qed

text \<open>
  A 400 kWh month does not always cost 270 \<times> 0.38 + 130 \<times> 0.38 \<times> 1.28 = 165.832: two July
  readings of 200 kWh, and January readings of 270 and 130 kWh, are both charged
  76 + 76 = 102.6 + 49.4 = 152. And readings that sum to 270 kWh in a winter month need not
  cost the double 270 \<times> 0.38 = 102.6: three January readings of 90 kWh cost
  34.2 + 34.2 + 34.2, the double 102.60000000000001.
\<close>

theorem tiered_400_counterexample:
  "map_option totalCost (calculateDetailedCost summer400 exampleFlat) = Some 152
   \<and> map_option totalCost (calculateDetailedCost winter400 exampleFlat) = Some 152
   \<and> (13 :: real) < 270 * 0.38 + 130 * 0.38 * 1.28 - 152
   \<and> fadd (fmul 270 (toDouble 0.38)) (fmul 130 (fmul (toDouble 0.38) (toDouble 1.28))) = toDouble 165.832
   \<and> map_option totalCost (calculateDetailedCost winter90s exampleFlat) = Some (toDouble 102.60000000000001)
   \<and> fmul 270 (toDouble 0.38) = toDouble 102.6
   \<and> toDouble 102.6 < toDouble 102.60000000000001"
proof -
  have ne: "periods exampleFlat \<noteq> []"
    by (simp add: exampleFlat_def)
  have 1: "map_option totalCost (calculateDetailedCost summer400 exampleFlat) = Some 152"
    unfolding total_charged [OF ne]
    by (simp add: cost_eval summer400_def exampleFlat_def double_eval)
  have 2: "map_option totalCost (calculateDetailedCost winter400 exampleFlat) = Some 152"
    unfolding total_charged [OF ne]
    by (simp add: cost_eval winter400_def exampleFlat_def double_eval)
  have 3: "(13 :: real) < 270 * 0.38 + 130 * 0.38 * 1.28 - 152"
    by simp
  have 4: "fadd (fmul 270 (toDouble 0.38)) (fmul 130 (fmul (toDouble 0.38) (toDouble 1.28))) = toDouble 165.832"
    by (simp add: double_eval)
  have 5: "map_option totalCost (calculateDetailedCost winter90s exampleFlat) = Some (toDouble 102.60000000000001)"
    unfolding total_charged [OF ne]
    by (simp add: cost_eval winter90s_def exampleFlat_def double_eval)
  have 6: "fmul 270 (toDouble 0.38) = toDouble 102.6"
    by (simp add: double_eval)
  have 7: "toDouble 102.6 < toDouble 102.60000000000001"
    by (simp add: double_eval)
  show ?thesis using 1 2 3 4 5 6 7 by simp
qed

section \<open>Time-of-use window match (C2)\<close>

text \<open>
  C2, as amended. For a time-of-use tariff with a non-empty \<open>periods\<close>, both copies of
  \<open>calculateDetailedCost\<close> charge every reading at the period \<open>periods[touIndex]\<close>: the
  first period in declaration order whose hour window contains the reading's hour, or
  \<open>periods[0]\<close> when no window does. A window with \<open>startHour \<le> endHour\<close> holds exactly
  the hours from \<open>startHour\<close> to \<open>endHour\<close>, both included; one with
  \<open>startHour > endHour\<close> holds exactly the hours \<open>\<ge> startHour\<close> or \<open>\<le> endHour\<close>. So the
  window 16-20 holds 16..20 and neither 15 nor 21, and the window 21-15 holds 21..23 and
  0..15 and none of 16..20. The rate charged, for a matching period and for the fallback
  alike, is the effective rate \<open>getEffectiveRate\<close> of the period in part\_001 and the plain
  \<open>rate\<close> of the period in services/energyCalculator.ts.
\<close>

theorem tou_window_match:
  assumes "tariff_type t = Tou" and "periods t \<noteq> []"
  shows "\<exists>calc calc'.
      calculateDetailedCost rs t = Some calc
    \<and> totalCost calc =
        totalFor t rs (\<lambda>i. rate (periods t ! touIndex t (getHours (timestamp (rs ! i)))))
    \<and> calculateDetailedCost_part001 rs t = Some calc'
    \<and> totalCost calc' =
        totalFor t rs (\<lambda>i. getEffectiveRate (periods t ! touIndex t (getHours (timestamp (rs ! i))))
                              (getMonth (timestamp (rs ! i))))
    \<and> touIndex t hour < length (periods t)
    \<and> (\<forall>j<touIndex t hour.
          \<not> inWindow (startHour (periods t ! j)) (endHour (periods t ! j)) hour)
    \<and> (inWindow (startHour (periods t ! touIndex t hour)) (endHour (periods t ! touIndex t hour)) hour
       \<or> (touIndex t hour = 0
          \<and> (\<forall>j<length (periods t).
                \<not> inWindow (startHour (periods t ! j)) (endHour (periods t ! j)) hour)))
    \<and> (inWindow 16 20 hour \<longleftrightarrow> 16 \<le> hour \<and> hour \<le> 20)
    \<and> (inWindow 21 15 hour \<longleftrightarrow> 21 \<le> hour \<or> hour \<le> 15)"
proof -
  from assms(2) obtain p0 ps where ps: "periods t = p0 # ps"
    by (cases "periods t") auto
  have nf: "\<not> (tariff_type t = Flat \<or> tariff_type t = Tiered)"
    using assms(1) by simp
  have r1: "selectRate t d c = Some (rate (periods t ! touIndex t (getHours d)))" for d c
    using selectRate_tou [OF nf ps, of d c] touIndex_period [OF ps, of "getHours d"] by simp
  have r2: "selectRate_part001 t d c
      = Some (getEffectiveRate (periods t ! touIndex t (getHours d)) (getMonth d))" for d c
    using selectRate_part001_tou [OF nf ps, of d c] touIndex_period [OF ps, of "getHours d"] by simp
  from detailed_cost_total [of t "\<lambda>d c. rate (periods t ! touIndex t (getHours d))" rs, OF r1]
  obtain calc where c1: "calculateDetailedCost rs t = Some calc"
    and e1: "totalCost calc =
        totalFor t rs (\<lambda>i. rate (periods t ! touIndex t (getHours (timestamp (rs ! i)))))"
    by blast
  from detailed_cost_part001_total
    [of t "\<lambda>d c. getEffectiveRate (periods t ! touIndex t (getHours d)) (getMonth d)" rs, OF r2]
  obtain calc' where c2: "calculateDetailedCost_part001 rs t = Some calc'"
    and e2: "totalCost calc' =
        totalFor t rs (\<lambda>i. getEffectiveRate (periods t ! touIndex t (getHours (timestamp (rs ! i))))
                              (getMonth (timestamp (rs ! i))))"
    by blast
  have w: "(inWindow 16 20 hour \<longleftrightarrow> 16 \<le> hour \<and> hour \<le> 20)
         \<and> (inWindow 21 15 hour \<longleftrightarrow> 21 \<le> hour \<or> hour \<le> 15)"
    by (simp add: inWindow_def)
  show ?thesis
    using c1 e1 c2 e2 w touIndex_first [OF assms(2), of hour]
    by (simp add: hourInPeriod_inWindow)
qed

text \<open>
  On the two-period tariff (peak 16-20, off-peak 21-15, fixed charge 15): 17:00 falls in the
  first period, 22:00 and 15:00 in the second, and a 2 kWh reading at 17:00 in January costs
  2 \<times> 0.46 + 15, the double 15.92.
\<close>

theorem tou_window_match_witness:
  "map_option totalCost (calculateDetailedCost peakReading exampleTou) = Some (toDouble 15.92)
   \<and> touIndex exampleTou 17 = 0 \<and> touIndex exampleTou 22 = 1 \<and> touIndex exampleTou 15 = 1"
proof -
  have ty: "tariff_type exampleTou = Tou" by (simp add: exampleTou_def)
  have ne: "periods exampleTou \<noteq> []" by (simp add: exampleTou_def)
  have i: "touIndex exampleTou 17 = 0 \<and> touIndex exampleTou 22 = 1 \<and> touIndex exampleTou 15 = 1"
    by (simp add: touIndex_def exampleTou_def hourInPeriod_def)
  have v: "totalFor exampleTou peakReading
             (\<lambda>i. rate (periods exampleTou ! touIndex exampleTou (getHours (timestamp (peakReading ! i)))))
           = toDouble 15.92"
    by (simp add: cost_eval peakReading_def exampleTou_def double_eval)
  from tou_window_match [OF ty ne, of peakReading 17] v
  have "map_option totalCost (calculateDetailedCost peakReading exampleTou) = Some (toDouble 15.92)"
    by auto
  then show ?thesis using i by simp
qed

text \<open>
  The fallback is not charged at the effective rate in services/energyCalculator.ts: on a
  time-of-use tariff whose only period is the peak 16-20 (rate 0.46, summer rate 0.55), a
  10 kWh reading at 03:00 in July matches no window and costs 10 \<times> 0.46 (the double
  4.6000000000000005) there, and 10 \<times> 0.55 = 5.5 in part\_001.
\<close>

theorem tou_fallback_counterexample:
  "map_option totalCost (calculateDetailedCost julyNight peakOnlyTou) = Some (toDouble 4.6000000000000005)
   \<and> map_option totalCost (calculateDetailedCost_part001 julyNight peakOnlyTou) = Some 5.5
   \<and> fmul 10 (toDouble 0.46) = toDouble 4.6000000000000005
   \<and> fmul 10 (toDouble 0.55) = 5.5
   \<and> tariff_type peakOnlyTou = Tou
   \<and> map (\<lambda>p. (startHour p, endHour p, rate p, summerRate p, effectiveRate p 6)) (periods peakOnlyTou)
       = [(16, 20, toDouble 0.46, Some (toDouble 0.55), toDouble 0.55)]
   \<and> map (\<lambda>r. (getMonth (timestamp r), getHours (timestamp r), value_kwh r)) julyNight = [(6, 3, 10)]
   \<and> \<not> list_ex (hourInPeriod 3) (periods peakOnlyTou)"
proof -
  have ne: "periods peakOnlyTou \<noteq> []"
    by (simp add: peakOnlyTou_def)
  have 1: "map_option totalCost (calculateDetailedCost julyNight peakOnlyTou) = Some (toDouble 4.6000000000000005)"
    unfolding total_charged [OF ne]
    by (simp add: cost_eval julyNight_def peakOnlyTou_def double_eval)
  have 2: "map_option totalCost (calculateDetailedCost_part001 julyNight peakOnlyTou) = Some 5.5"
    unfolding total_part001_charged [OF ne]
    by (simp add: cost_eval julyNight_def peakOnlyTou_def double_eval)
  have 3: "fmul 10 (toDouble 0.46) = toDouble 4.6000000000000005" "fmul 10 (toDouble 0.55) = 5.5"
    by (simp_all add: double_eval)
  have 4: "tariff_type peakOnlyTou = Tou
   \<and> map (\<lambda>p. (startHour p, endHour p, rate p, summerRate p, effectiveRate p 6)) (periods peakOnlyTou)
       = [(16, 20, toDouble 0.46, Some (toDouble 0.55), toDouble 0.55)]
   \<and> map (\<lambda>r. (getMonth (timestamp r), getHours (timestamp r), value_kwh r)) julyNight = [(6, 3, 10)]
   \<and> \<not> list_ex (hourInPeriod 3) (periods peakOnlyTou)"
    by (simp add: peakOnlyTou_def julyNight_def exampleDate_def effectiveRate_def hourInPeriod_def)
  show ?thesis using 1 2 3 4 by simp
qed

section \<open>Comparison scaling (C3)\<close>

text \<open>
  C3. For a non-empty reading list and a non-empty roster of tariffs with non-empty
  \<open>periods\<close>, \<open>compareTariffs\<close> returns one result per tariff, with
  \<open>daysInReadings = max(0.1, span in days between the first and the last reading)\<close>,
  \<open>monthMultiplier = 30 / daysInReadings\<close>, the energy-only cost equal to the tariff's total
  minus the number of breakdown months times the fixed charge, and
  \<open>estimatedMonthlyCost = energy-only \<times> monthMultiplier + fixedMonthlyCharge\<close> (over a
  10-day window: energy-only \<times> 3 plus one fixed charge). \<open>savingsVsCurrent\<close> is the estimate
  of the current tariff (the first tariff with the given id, or the first of the roster when
  none has it) minus the estimate of this tariff. Every operation is the rounded one of the
  code.
\<close>

theorem compare_scaling:
  assumes "readings \<noteq> []" and "allTariffs \<noteq> []" and "\<forall>t \<in> set allTariffs. periods t \<noteq> []"
  shows "\<exists>results.
      compareTariffs readings currentTariffId allTariffs = Some results
    \<and> length results = length allTariffs
    \<and> currentIndex currentTariffId allTariffs < length allTariffs
    \<and> (\<forall>i<length allTariffs. \<exists>calc.
          calculateDetailedCost readings (allTariffs ! i) = Some calc
        \<and> estimatedMonthlyCost (results ! i)
            = fadd (fmul (energyOnly calc (allTariffs ! i)) (fdiv 30 (daysInReadings readings)))
                   (fixedMonthlyCharge (allTariffs ! i))
        \<and> savingsVsCurrent (results ! i)
            = fsub (estimatedMonthlyCost (results ! currentIndex currentTariffId allTariffs))
                   (estimatedMonthlyCost (results ! i))
        \<and> (getTime (timestamp (last readings)) - getTime (timestamp (hd readings)) = 10 * 86400000
           \<longrightarrow> estimatedMonthlyCost (results ! i)
               = fadd (fmul (energyOnly calc (allTariffs ! i)) 3) (fixedMonthlyCharge (allTariffs ! i))))"
proof -
  from assms(2) obtain t0 ts where ts: "allTariffs = t0 # ts"
    by (cases allTariffs) auto
  let ?j = "currentIndex currentTariffId allTariffs"
  let ?cur = "allTariffs ! ?j"
  let ?mm = "fdiv 30 (daysInReadings readings)"
  let ?est = "\<lambda>t calc. fadd (fmul (energyOnly calc t) ?mm) (fixedMonthlyCharge t)"
  have j: "?j < length allTariffs"
    and fnd: "(case find (\<lambda>t. tariff_id t = currentTariffId) allTariffs of
            Some t \<Rightarrow> Some t
          | None \<Rightarrow> (case allTariffs of [] \<Rightarrow> None | t0 # _ \<Rightarrow> Some t0)) = Some ?cur"
    using currentIndex_find [OF ts, of currentTariffId] by simp_all
  have calc_ex: "\<exists>calc. calculateDetailedCost readings t = Some calc" if "t \<in> set allTariffs" for t
    using assms(3) that by (intro calculateDetailedCost_Some) simp
  from calc_ex [of ?cur] j obtain curCalc where cc: "calculateDetailedCost readings ?cur = Some curCalc"
    by auto
  let ?f = "\<lambda>t. case calculateDetailedCost readings t of
                       None \<Rightarrow> None
                     | Some calc \<Rightarrow>
                         Some \<lparr>tariffId = tariff_id t,
                               tariffName = tariff_name t,
                               totalUsage = foldl (\<lambda>s r. fadd s (value_kwh r)) 0 readings,
                               cmp_totalCost = totalCost calc,
                               estimatedMonthlyCost = ?est t calc,
                               savingsVsCurrent = fsub (?est ?cur curCalc) (?est t calc),
                               cmp_breakdown = breakdown calc\<rparr>"
  have unfolded: "compareTariffs readings currentTariffId allTariffs = those (map ?f allTariffs)"
    using assms(1) cc
    unfolding compareTariffs_def fnd
    by (simp add: Let_def energyOnly_def daysInReadings_def last_conv_nth hd_conv_nth ms_per_day
        cong: option.case_cong)
  have some: "\<exists>y. ?f t = Some y" if "t \<in> set allTariffs" for t
    using calc_ex [OF that] by auto
  define results where "results = map (\<lambda>t. the (?f t)) allTariffs"
  have res: "those (map ?f allTariffs) = Some results"
    unfolding those_map_Some results_def using some by (auto simp: nth_mem)
  have each: "?f (allTariffs ! i) = Some (results ! i)" if "i < length allTariffs" for i
    using res that unfolding those_map_Some by blast
  have curEst: "estimatedMonthlyCost (results ! ?j) = ?est ?cur curCalc"
  proof -
    have a: "results ! ?j = the (?f ?cur)" using each [OF j] by simp
    show ?thesis unfolding a by (simp add: cc)
  qed
  have "\<exists>calc. calculateDetailedCost readings (allTariffs ! i) = Some calc
        \<and> estimatedMonthlyCost (results ! i) = ?est (allTariffs ! i) calc
        \<and> savingsVsCurrent (results ! i)
            = fsub (estimatedMonthlyCost (results ! ?j)) (estimatedMonthlyCost (results ! i))
        \<and> (getTime (timestamp (last readings)) - getTime (timestamp (hd readings)) = 10 * 86400000
           \<longrightarrow> estimatedMonthlyCost (results ! i)
               = fadd (fmul (energyOnly calc (allTariffs ! i)) 3) (fixedMonthlyCharge (allTariffs ! i)))"
    if i: "i < length allTariffs" for i
  proof -
    from calc_ex [of "allTariffs ! i"] i obtain calc
      where c: "calculateDetailedCost readings (allTariffs ! i) = Some calc" by auto
    have r: "results ! i = \<lparr>tariffId = tariff_id (allTariffs ! i),
                               tariffName = tariff_name (allTariffs ! i),
                               totalUsage = foldl (\<lambda>s r. fadd s (value_kwh r)) 0 readings,
                               cmp_totalCost = totalCost calc,
                               estimatedMonthlyCost = ?est (allTariffs ! i) calc,
                               savingsVsCurrent = fsub (?est ?cur curCalc) (?est (allTariffs ! i) calc),
                               cmp_breakdown = breakdown calc\<rparr>"
    proof -
      have a: "results ! i = the (?f (allTariffs ! i))" using each [OF i] by simp
      show ?thesis unfolding a by (simp add: c)
    qed
    have ten: "?mm = 3"
      if d: "getTime (timestamp (last readings)) - getTime (timestamp (hd readings)) = 10 * 86400000"
    proof -
      have "real_of_int (getTime (timestamp (last readings))) - real_of_int (getTime (timestamp (hd readings)))
          = real_of_int (getTime (timestamp (last readings)) - getTime (timestamp (hd readings)))"
        by simp
      also have "\<dots> = 864000000" unfolding d by simp
      finally have "fsub (real_of_int (getTime (timestamp (last readings))))
                         (real_of_int (getTime (timestamp (hd readings)))) = toDouble 864000000"
        by (simp only: fsub_def)
      then show ?thesis
        by (simp only: daysInReadings_def ten_days)
    qed
    show ?thesis
      using c r curEst ten by auto
  qed
  moreover have "length results = length allTariffs"
    by (simp add: results_def)
  ultimately show ?thesis
    using unfolded res j by auto
qed

text \<open>
  Two readings ten days apart (2 and 3 kWh at 17:00 in January), the roster [flat 0.38,
  time-of-use at 0.46 with a fixed charge of 15], current tariff the time-of-use one. The
  flat tariff: total 0.76 + 1.14 = 1.9000000000000001, estimate 1.9000000000000001 \<times> 3 = 5.7. The time-of-use tariff:
  total 0.92 + 1.38 + 15 = 17.3, energy-only 17.3 - 15 = 2.3000000000000007, estimate
  2.3000000000000007 \<times> 3 + 15 = 21.900000000000002; the saving of the flat tariff is
  21.900000000000002 - 5.7 = 16.200000000000003.
\<close>

theorem compare_scaling_witness:
  "\<exists>results. compareTariffs tenDayReadings ''tou'' [exampleFlat, exampleTou] = Some results
     \<and> length results = 2
     \<and> estimatedMonthlyCost (results ! 1) = toDouble 21.900000000000002
     \<and> estimatedMonthlyCost (results ! 0) = toDouble 5.7
     \<and> savingsVsCurrent (results ! 0) = toDouble 16.200000000000003"
proof -
  have h1: "tenDayReadings \<noteq> []" by (simp add: tenDayReadings_def)
  have h2: "[exampleFlat, exampleTou] \<noteq> []" by simp
  have h3: "\<forall>t \<in> set [exampleFlat, exampleTou]. periods t \<noteq> []"
    by (simp add: exampleFlat_def exampleTou_def)
  have n0: "periods exampleFlat \<noteq> []" and n1: "periods exampleTou \<noteq> []"
    by (simp_all add: exampleFlat_def exampleTou_def)
  have fx: "fixedMonthlyCharge exampleFlat = 0" "fixedMonthlyCharge exampleTou = 15"
    by (simp_all add: exampleFlat_def exampleTou_def)
  have mc: "monthCount tenDayReadings = 1"
    by (simp add: cost_eval tenDayReadings_def)
  have t0: "totalFor exampleFlat tenDayReadings
      (\<lambda>i. tieredRate exampleFlat
              (rate (periods exampleFlat ! chargedIndex exampleFlat (getHours (timestamp (tenDayReadings ! i)))))
              (getMonth (timestamp (tenDayReadings ! i)))
              (counterBefore (take i tenDayReadings) (tenDayReadings ! i))) = toDouble 1.9000000000000001"
    by (simp add: cost_eval tenDayReadings_def exampleFlat_def double_eval)
  have t1: "totalFor exampleTou tenDayReadings
      (\<lambda>i. tieredRate exampleTou
              (rate (periods exampleTou ! chargedIndex exampleTou (getHours (timestamp (tenDayReadings ! i)))))
              (getMonth (timestamp (tenDayReadings ! i)))
              (counterBefore (take i tenDayReadings) (tenDayReadings ! i))) = toDouble 17.3"
    by (simp add: cost_eval tenDayReadings_def exampleTou_def double_eval)
  have w0: "fsub (toDouble 1.9000000000000001) (fmul (real 1) 0) = toDouble 1.9000000000000001"
    and w1: "fsub (toDouble 17.3) (fmul (real 1) 15) = toDouble 2.3000000000000007"
    by (simp_all add: double_eval)
  have e0: "energyOnly calc exampleFlat = toDouble 1.9000000000000001"
    if c: "calculateDetailedCost tenDayReadings exampleFlat = Some calc" for calc
  proof -
    from detailed_cost_charged [OF n0, of tenDayReadings] c
    have "totalCost calc = toDouble 1.9000000000000001" and "length (breakdown calc) = 1"
      unfolding t0 mc by auto
    then show ?thesis
      using w0 fx(1) by (simp only: energyOnly_def)
  qed
  have e1: "energyOnly calc exampleTou = toDouble 2.3000000000000007"
    if c: "calculateDetailedCost tenDayReadings exampleTou = Some calc" for calc
  proof -
    from detailed_cost_charged [OF n1, of tenDayReadings] c
    have "totalCost calc = toDouble 17.3" and "length (breakdown calc) = 1"
      unfolding t1 mc by auto
    then show ?thesis
      using w1 fx(2) by (simp only: energyOnly_def)
  qed
  have span: "getTime (timestamp (last tenDayReadings)) - getTime (timestamp (hd tenDayReadings))
      = 10 * 86400000"
    by (simp add: tenDayReadings_def exampleDate_def)
  have cur: "currentIndex ''tou'' [exampleFlat, exampleTou] = 1"
    by (simp add: currentIndex_def exampleFlat_def exampleTou_def)
  have v0: "fadd (fmul (toDouble 1.9000000000000001) 3) 0 = toDouble 5.7"
    and v1: "fadd (fmul (toDouble 2.3000000000000007) 3) 15 = toDouble 21.900000000000002"
    and v2: "fsub (toDouble 21.900000000000002) (toDouble 5.7) = toDouble 16.200000000000003"
    by (simp_all add: double_eval)
  let ?ts = "[exampleFlat, exampleTou]"
  from compare_scaling [OF h1 h2 h3, of "''tou''"]
  obtain results where r: "compareTariffs tenDayReadings ''tou'' ?ts = Some results"
    and len: "length results = length ?ts"
    and each: "\<forall>i<length ?ts. \<exists>calc.
          calculateDetailedCost tenDayReadings (?ts ! i) = Some calc
        \<and> estimatedMonthlyCost (results ! i)
            = fadd (fmul (energyOnly calc (?ts ! i)) (fdiv 30 (daysInReadings tenDayReadings)))
                   (fixedMonthlyCharge (?ts ! i))
        \<and> savingsVsCurrent (results ! i)
            = fsub (estimatedMonthlyCost (results ! currentIndex ''tou'' ?ts))
                   (estimatedMonthlyCost (results ! i))
        \<and> (getTime (timestamp (last tenDayReadings)) - getTime (timestamp (hd tenDayReadings)) = 10 * 86400000
           \<longrightarrow> estimatedMonthlyCost (results ! i)
               = fadd (fmul (energyOnly calc (?ts ! i)) 3) (fixedMonthlyCharge (?ts ! i)))"
    by blast
  from each [rule_format, of 1] span e1 fx v1
  have a1: "estimatedMonthlyCost (results ! 1) = toDouble 21.900000000000002"
    by auto
  from each [rule_format, of 0] span cur e0 fx v0
  have a0: "estimatedMonthlyCost (results ! 0) = toDouble 5.7"
    and s0: "savingsVsCurrent (results ! 0)
      = fsub (estimatedMonthlyCost (results ! 1)) (estimatedMonthlyCost (results ! 0))"
    by auto
  show ?thesis using r len a0 a1 s0 v2 by simp
qed

section \<open>Seasonal rate (C4)\<close>

text \<open>
  C4, as amended. In the copy of the engine in part\_001, every reading is charged at
  \<open>effectiveRate(period, month)\<close> (tiered for flat and tiered tariffs), where \<open>period\<close> is
  the period the reading is charged at and the effective rate is \<open>summerRate\<close> when it is
  defined and the zero-indexed month is in 5..8, and \<open>rate\<close> otherwise. In
  services/energyCalculator.ts every reading is charged at the plain \<open>rate\<close> of its period
  (tiered for flat and tiered tariffs): this copy has no seasonal override.
\<close>

theorem seasonal_rate:
  assumes "periods t \<noteq> []"
  shows "\<exists>calc calc'.
      calculateDetailedCost_part001 rs t = Some calc'
    \<and> totalCost calc' =
        totalFor t rs (\<lambda>i. tieredRate_part001 t
                              (effectiveRate (periods t ! chargedIndex t (getHours (timestamp (rs ! i))))
                                 (getMonth (timestamp (rs ! i))))
                              (getMonth (timestamp (rs ! i))) (counterBefore (take i rs) (rs ! i)))
    \<and> calculateDetailedCost rs t = Some calc
    \<and> totalCost calc =
        totalFor t rs (\<lambda>i. tieredRate t
                              (rate (periods t ! chargedIndex t (getHours (timestamp (rs ! i)))))
                              (getMonth (timestamp (rs ! i))) (counterBefore (take i rs) (rs ! i)))
    \<and> getEffectiveRate p m = effectiveRate p m"
proof -
  from detailed_cost_charged [OF assms, of rs]
  obtain calc where c1: "calculateDetailedCost rs t = Some calc"
    and e1: "totalCost calc =
        totalFor t rs (\<lambda>i. tieredRate t
                              (rate (periods t ! chargedIndex t (getHours (timestamp (rs ! i)))))
                              (getMonth (timestamp (rs ! i))) (counterBefore (take i rs) (rs ! i)))"
    by blast
  from detailed_cost_part001_charged [OF assms, of rs]
  obtain calc' where c2: "calculateDetailedCost_part001 rs t = Some calc'"
    and e2: "totalCost calc' =
        totalFor t rs (\<lambda>i. tieredRate_part001 t
                              (getEffectiveRate (periods t ! chargedIndex t (getHours (timestamp (rs ! i))))
                                 (getMonth (timestamp (rs ! i))))
                              (getMonth (timestamp (rs ! i))) (counterBefore (take i rs) (rs ! i)))"
    by blast
  show ?thesis
    using c1 e1 c2 e2 by (simp add: getEffectiveRate_spec)
qed

text \<open>
  A 10 kWh reading at 17:00 in July on the time-of-use tariff (peak rate 0.46, summer 0.55,
  fixed charge 15) costs 10 \<times> 0.55 + 15 = 20.5 in part\_001.
\<close>

theorem seasonal_rate_witness:
  "map_option totalCost (calculateDetailedCost_part001 julyPeak exampleTou) = Some 20.5"
proof -
  have ne: "periods exampleTou \<noteq> []" by (simp add: exampleTou_def)
  have v: "totalFor exampleTou julyPeak
      (\<lambda>i. tieredRate_part001 exampleTou
              (effectiveRate (periods exampleTou ! chargedIndex exampleTou (getHours (timestamp (julyPeak ! i))))
                 (getMonth (timestamp (julyPeak ! i))))
              (getMonth (timestamp (julyPeak ! i))) (counterBefore (take i julyPeak) (julyPeak ! i))) = 20.5"
    by (simp add: cost_eval effectiveRate_def julyPeak_def exampleTou_def double_eval)
  from seasonal_rate [OF ne, of julyPeak] v
  show ?thesis by auto
qed

text \<open>
  The same reading costs 10 \<times> 0.46 + 15 (the double 19.6) in services/energyCalculator.ts,
  although the period defines a summer rate of 0.55 and the month is July.
\<close>

theorem seasonal_rate_counterexample:
  "map_option totalCost (calculateDetailedCost julyPeak exampleTou) = Some (toDouble 19.6)
   \<and> fadd (fmul 10 (toDouble 0.46)) 15 = toDouble 19.6
   \<and> fadd (fmul 10 (toDouble 0.55)) 15 = 20.5
   \<and> map rate (periods exampleTou) = [toDouble 0.46, toDouble 0.39]
   \<and> map summerRate (periods exampleTou) = [Some (toDouble 0.55), Some (toDouble 0.47)]
   \<and> fixedMonthlyCharge exampleTou = 15
   \<and> map (\<lambda>r. (getMonth (timestamp r), getHours (timestamp r), value_kwh r)) julyPeak = [(6, 17, 10)]"
proof -
  have ne: "periods exampleTou \<noteq> []" by (simp add: exampleTou_def)
  have 1: "map_option totalCost (calculateDetailedCost julyPeak exampleTou) = Some (toDouble 19.6)"
    unfolding total_charged [OF ne]
    by (simp add: cost_eval julyPeak_def exampleTou_def double_eval)
  have 2: "fadd (fmul 10 (toDouble 0.46)) 15 = toDouble 19.6" "fadd (fmul 10 (toDouble 0.55)) 15 = 20.5"
    by (simp_all add: double_eval)
  have 3: "map rate (periods exampleTou) = [toDouble 0.46, toDouble 0.39]
   \<and> map summerRate (periods exampleTou) = [Some (toDouble 0.55), Some (toDouble 0.47)]
   \<and> fixedMonthlyCharge exampleTou = 15
   \<and> map (\<lambda>r. (getMonth (timestamp r), getHours (timestamp r), value_kwh r)) julyPeak = [(6, 17, 10)]"
    by (simp add: exampleTou_def julyPeak_def exampleDate_def)
  show ?thesis using 1 2 3 by simp
qed

section \<open>Monthly counter reset (C5)\<close>

text \<open>
  C5. In both copies of \<open>calculateDetailedCost\<close> the running monthly usage counter is
  reset exactly when \<open>getMonth()\<close> of the reading differs from the tracked month; the year
  is never consulted. After the readings \<open>qs @ a # mid\<close>, a reading \<open>r\<close> with the
  month-of-year of \<open>a\<close> and of every reading of \<open>mid\<close> sees the counter \<open>a\<close> saw, plus
  the value of \<open>a\<close>, plus the values of \<open>mid\<close> (added one by one, in this order),
  whatever the years of \<open>a\<close> and \<open>r\<close>; a reading whose month-of-year differs from that of
  the reading before it sees 0.
\<close>

theorem counter_reset_on_month_of_year:
  assumes "body = processReading t \<or> body = processReading_part001 t"
    and "forEachReading body initialState qs = Some s0"
    and "forEachReading body initialState (qs @ a # mid) = Some s"
  shows "(getMonth (timestamp a) = getMonth (timestamp (r :: EnergyReading))
          \<and> (\<forall>x \<in> set mid. getMonth (timestamp x) = getMonth (timestamp r))
         \<longrightarrow> monthlyUsageCounter (resetIfMonthChanged s (timestamp r))
             = foldl fadd (monthlyUsageCounter (resetIfMonthChanged s0 (timestamp a)))
                 (map value_kwh (a # mid)))
       \<and> (getMonth (timestamp (last (a # mid))) \<noteq> getMonth (timestamp r)
         \<longrightarrow> monthlyUsageCounter (resetIfMonthChanged s (timestamp r)) = 0)"
proof -
  from assms(1) obtain sel where body: "body = processWith sel"
    using processReading_eq_with processReading_part001_eq_with by blast
  have c0: "monthlyUsageCounter (resetIfMonthChanged s0 (timestamp a)) = counterBefore qs a"
    using forEach_counter_state [of sel qs s0 a] assms(2) by (simp add: body)
  have c1: "monthlyUsageCounter (resetIfMonthChanged s (timestamp r)) = counterBefore (qs @ a # mid) r"
    using forEach_counter_state [of sel "qs @ a # mid" s r] assms(3) by (simp add: body)
  have "counterBefore (qs @ a # mid) r = 0"
    if "getMonth (timestamp (last (a # mid))) \<noteq> getMonth (timestamp r)"
    using counterBefore_reset [of "qs @ a # mid" r] that by simp
  then show ?thesis
    using c0 c1 counterBefore_append_same [of a r mid qs] by auto
qed

text \<open>
  A reading in December 2025 that follows a 120 kWh reading of December 2024 sees a
  counter of 120.
\<close>

theorem counter_reset_on_month_of_year_witness:
  "\<exists>s. forEachReading (processReading exampleFlat) initialState decemberReadings = Some s
     \<and> getFullYear (timestamp (hd decemberReadings)) \<noteq> getFullYear (timestamp december2025)
     \<and> monthlyUsageCounter (resetIfMonthChanged s (timestamp december2025)) = 120"
proof -
  have a: "forEachReading (processReading exampleFlat) initialState [] = Some initialState"
    by simp
  have "periods exampleFlat \<noteq> []"
    by (simp add: exampleFlat_def)
  from forEach_processReading_Some [OF this, of decemberReadings]
  obtain s where s: "forEachReading (processReading exampleFlat) initialState decemberReadings = Some s"
    by blast
  then have b: "forEachReading (processReading exampleFlat) initialState ([] @ hd decemberReadings # []) = Some s"
    by (simp add: decemberReadings_def)
  have v: "fadd 0 120 = 120"
    by (simp add: double_eval)
  from counter_reset_on_month_of_year [OF disjI1 [OF refl] a b, of december2025]
  have "monthlyUsageCounter (resetIfMonthChanged s (timestamp december2025)) = 120"
    by (simp add: decemberReadings_def december2025_def exampleDate_def
        resetIfMonthChanged_def initialState_def v)
  with s show ?thesis
    by (simp add: decemberReadings_def december2025_def exampleDate_def)
qed

section \<open>Normalized readings (C6)\<close>

text \<open>
  C6. When either parser succeeds, the time values of the returned readings are strictly
  increasing (hence unique), they are exactly the time values of the raw readings of the
  rows that were not skipped, and the value of each returned reading is the sum of the
  values of the raw readings with its time value. Nothing is clamped: the sum is returned
  as it is, negative or not.
\<close>

theorem normalized_readings:
  "(parsePgeIntervalCsv host csv = Inr res \<longrightarrow>
        sorted_wrt (<) (map (\<lambda>r. getTime (timestamp r)) (pge_readings res))
      \<and> set (map (\<lambda>r. getTime (timestamp r)) (pge_readings res))
          = (\<lambda>r. getTime (timestamp r)) ` set (rawReadings host csv)
      \<and> (\<forall>r \<in> set (pge_readings res).
            value_kwh r = sum_list (map value_kwh
              (filter (\<lambda>x. getTime (timestamp x) = getTime (timestamp r)) (rawReadings host csv)))))
   \<and> (parsePgeGasCsv host csv = Inr gres \<longrightarrow>
        sorted_wrt (<) (map (\<lambda>r. getTime (gas_timestamp r)) (gas_readings gres))
      \<and> set (map (\<lambda>r. getTime (gas_timestamp r)) (gas_readings gres))
          = (\<lambda>r. getTime (gas_timestamp r)) ` set (rawGasReadings host csv)
      \<and> (\<forall>r \<in> set (gas_readings gres).
            value_therms r = sum_list (map value_therms
              (filter (\<lambda>x. getTime (gas_timestamp x) = getTime (gas_timestamp r)) (rawGasReadings host csv)))))"
proof (intro conjI impI)
  assume p: "parsePgeIntervalCsv host csv = Inr res"
  let ?raw = "map (\<lambda>r. (timestamp r, value_kwh r)) (rawReadings host csv)"
  let ?n = "normalizeReadings host ?raw"
  have rd: "pge_readings res = map (\<lambda>(d, v). \<lparr>timestamp = d, value_kwh = v\<rparr>) ?n"
    using p by (subst (asm) parsePgeIntervalCsv_cases) (auto split: if_splits)
  have t: "map (\<lambda>r. getTime (timestamp r)) (pge_readings res) = map (\<lambda>r. getTime (fst r)) ?n"
    by (simp add: rd comp_def case_prod_beta)
  from normalize_props [of host ?raw]
  have a: "sorted_wrt (<) (map (\<lambda>r. getTime (fst r)) ?n)"
    and b: "set (map (\<lambda>r. getTime (fst r)) ?n) = (\<lambda>r. getTime (fst r)) ` set ?raw"
    and c: "\<And>r. r \<in> set ?n \<Longrightarrow> snd r = sumAtTime ?raw (getTime (fst r))"
    by blast+
  show "sorted_wrt (<) (map (\<lambda>r. getTime (timestamp r)) (pge_readings res))"
    unfolding t by (rule a)
  show "set (map (\<lambda>r. getTime (timestamp r)) (pge_readings res))
          = (\<lambda>r. getTime (timestamp r)) ` set (rawReadings host csv)"
    unfolding t b by (simp add: image_image)
  show "\<forall>r \<in> set (pge_readings res).
            value_kwh r = sum_list (map value_kwh
              (filter (\<lambda>x. getTime (timestamp x) = getTime (timestamp r)) (rawReadings host csv)))"
    using c by (auto simp: rd sumAtTime_energy)
next
  assume p: "parsePgeGasCsv host csv = Inr gres"
  let ?raw = "map (\<lambda>r. (gas_timestamp r, value_therms r)) (rawGasReadings host csv)"
  let ?n = "normalizeReadings host ?raw"
  have rd: "gas_readings gres = map (\<lambda>(d, v). \<lparr>gas_timestamp = d, value_therms = v\<rparr>) ?n"
    using p by (subst (asm) parsePgeGasCsv_cases) (auto split: if_splits)
  have t: "map (\<lambda>r. getTime (gas_timestamp r)) (gas_readings gres) = map (\<lambda>r. getTime (fst r)) ?n"
    by (simp add: rd comp_def case_prod_beta)
  from normalize_props [of host ?raw]
  have a: "sorted_wrt (<) (map (\<lambda>r. getTime (fst r)) ?n)"
    and b: "set (map (\<lambda>r. getTime (fst r)) ?n) = (\<lambda>r. getTime (fst r)) ` set ?raw"
    and c: "\<And>r. r \<in> set ?n \<Longrightarrow> snd r = sumAtTime ?raw (getTime (fst r))"
    by blast+
  show "sorted_wrt (<) (map (\<lambda>r. getTime (gas_timestamp r)) (gas_readings gres))"
    unfolding t by (rule a)
  show "set (map (\<lambda>r. getTime (gas_timestamp r)) (gas_readings gres))
          = (\<lambda>r. getTime (gas_timestamp r)) ` set (rawGasReadings host csv)"
    unfolding t b by (simp add: image_image)
  show "\<forall>r \<in> set (gas_readings gres).
            value_therms r = sum_list (map value_therms
              (filter (\<lambda>x. getTime (gas_timestamp x) = getTime (gas_timestamp r)) (rawGasReadings host csv)))"
    using c by (auto simp: rd sumAtTime_gas)
qed

text \<open>
  A solar export with two rows for 00:15 (net usage -0.3 each) and one for 00:00: the result
  is sorted and the two rows are merged into one reading of -0.6.
\<close>

theorem normalized_readings_witness:
  "(\<exists>res. parsePgeIntervalCsv exampleHost solarDuplicateCsv = Inr res
      \<and> map (\<lambda>r. (getTime (timestamp r), value_kwh r)) (pge_readings res)
          = [(1737158400000, 1), (1737159300000, - 0.6)]
      \<and> sorted_wrt (<) (map (\<lambda>r. getTime (timestamp r)) (pge_readings res)))
   \<and> map (\<lambda>r. (getTime (timestamp r), value_kwh r)) (rawReadings exampleHost solarDuplicateCsv)
       = [(1737159300000, - 0.3), (1737159300000, - 0.3), (1737158400000, 1)]"
proof -
  have ne: "rawReadings exampleHost solarDuplicateCsv \<noteq> []"
    using solarDuplicate_raw by auto
  from parse_result [of solarDuplicateCsv exampleHost, OF _ _ _ ne]
  obtain res where r: "parsePgeIntervalCsv exampleHost solarDuplicateCsv = Inr res"
    and rd: "pge_readings res = map (\<lambda>(d, v). \<lparr>timestamp = d, value_kwh = v\<rparr>)
        (normalizeReadings exampleHost
          (map (\<lambda>r. (timestamp r, value_kwh r)) (rawReadings exampleHost solarDuplicateCsv)))"
    by (simp add: solarDuplicate_rows [THEN arg_cong, of length] solarDuplicate_header solarDuplicate_usage)
  have v: "map (\<lambda>r. (getTime (timestamp r), value_kwh r)) (pge_readings res)
          = [(1737158400000, 1), (1737159300000, - 0.6)]"
    using solarDuplicate_normalized by (simp add: rd comp_def case_prod_beta)
  from normalized_readings [of exampleHost solarDuplicateCsv res] r
  have "sorted_wrt (<) (map (\<lambda>r. getTime (timestamp r)) (pge_readings res))"
    by blast
  with r v solarDuplicate_raw show ?thesis by auto
qed

section \<open>Fatal parse errors (C7)\<close>

text \<open>
  C7. \<open>parsePgeIntervalCsv\<close> fails in exactly four cases, tried in this order: fewer than 2
  non-blank rows; no header detected, that is, none of the first 80 rows has at least 3
  non-empty cells and a score of at least 4 (3 in the gas parser, which scores \<open>therm\<close> where
  the electricity parser scores \<open>kwh\<close>); no usage column; no reading parsed from the data
  rows. In every other case it returns readings and warnings. The gas parser has the same
  four cases.
\<close>

theorem parse_errors:
  "(parsePgeIntervalCsv host csv = Inl e \<longleftrightarrow>
        (e = EmptyCsv \<and> length (csvRows csv) < 2)
      \<or> (e = NoHeaderRow \<and> 2 \<le> length (csvRows csv)
           \<and> \<not> (\<exists>i. headerCandidate scoreHeaderRow 4 (csvRows csv) i))
      \<or> (e = NoUsageColumn \<and> 2 \<le> length (csvRows csv)
           \<and> (\<exists>i. headerCandidate scoreHeaderRow 4 (csvRows csv) i)
           \<and> noUsageColumn (headersAt (csvRows csv) (detectHeaderRowIndex (csvRows csv))))
      \<or> (e = NoReadings \<and> 2 \<le> length (csvRows csv)
           \<and> (\<exists>i. headerCandidate scoreHeaderRow 4 (csvRows csv) i)
           \<and> \<not> noUsageColumn (headersAt (csvRows csv) (detectHeaderRowIndex (csvRows csv)))
           \<and> (\<forall>row \<in> set (dataRows csv).
                 rowReading host (usageColumnsOf csv) (timeColumnsOf csv) row = None)))
   \<and> (parsePgeGasCsv host csv = Inl e \<longleftrightarrow>
        (e = EmptyCsv \<and> length (csvRows csv) < 2)
      \<or> (e = NoHeaderRow \<and> 2 \<le> length (csvRows csv)
           \<and> \<not> (\<exists>i. headerCandidate scoreHeaderRow_gas 3 (csvRows csv) i))
      \<or> (e = NoUsageColumn \<and> 2 \<le> length (csvRows csv)
           \<and> (\<exists>i. headerCandidate scoreHeaderRow_gas 3 (csvRows csv) i)
           \<and> noThermsColumn (headersAt (csvRows csv) (detectHeaderRowIndex_gas (csvRows csv))))
      \<or> (e = NoReadings \<and> 2 \<le> length (csvRows csv)
           \<and> (\<exists>i. headerCandidate scoreHeaderRow_gas 3 (csvRows csv) i)
           \<and> \<not> noThermsColumn (headersAt (csvRows csv) (detectHeaderRowIndex_gas (csvRows csv)))
           \<and> (\<forall>row \<in> set (dataRows_gas csv).
                 rowReading_gas host (thermsColumnOf csv) (timeColumnsOf_gas csv) row = None)))
   \<and> ((\<exists>res. parsePgeIntervalCsv host csv = Inr res) \<longleftrightarrow>
        2 \<le> length (csvRows csv)
      \<and> (\<exists>i. headerCandidate scoreHeaderRow 4 (csvRows csv) i)
      \<and> \<not> noUsageColumn (headersAt (csvRows csv) (detectHeaderRowIndex (csvRows csv)))
      \<and> (\<exists>row \<in> set (dataRows csv).
            rowReading host (usageColumnsOf csv) (timeColumnsOf csv) row \<noteq> None))"
proof -
  have h: "detectHeaderRowIndex (csvRows csv) = - 1
      \<longleftrightarrow> \<not> (\<exists>i. headerCandidate scoreHeaderRow 4 (csvRows csv) i)"
    using detectHeaderRowIndex_iff [of "csvRows csv"] by blast
  have hg: "detectHeaderRowIndex_gas (csvRows csv) = - 1
      \<longleftrightarrow> \<not> (\<exists>i. headerCandidate scoreHeaderRow_gas 3 (csvRows csv) i)"
    using detectHeaderRowIndex_gas_iff [of "csvRows csv"] by blast
  have u: "usageIdx (usageColumnsOf csv) = - 1
      \<longleftrightarrow> noUsageColumn (headersAt (csvRows csv) (detectHeaderRowIndex (csvRows csv)))"
    by (simp add: usageColumnsOf_def usageIdx_none)
  have ug: "thermsColumnOf csv = - 1
      \<longleftrightarrow> noThermsColumn (headersAt (csvRows csv) (detectHeaderRowIndex_gas (csvRows csv)))"
    by (simp add: thermsColumnOf_def thermsIdx_none)
  have r: "rawReadings host csv = []
      \<longleftrightarrow> (\<forall>row \<in> set (dataRows csv).
             rowReading host (usageColumnsOf csv) (timeColumnsOf csv) row = None)"
    by (simp add: rawReadings_def map_filter_empty)
  have rg: "rawGasReadings host csv = []
      \<longleftrightarrow> (\<forall>row \<in> set (dataRows_gas csv).
             rowReading_gas host (thermsColumnOf csv) (timeColumnsOf_gas csv) row = None)"
    by (simp add: rawGasReadings_def map_filter_empty)
  have 1: "parsePgeIntervalCsv host csv = Inl e \<longleftrightarrow>
        (e = EmptyCsv \<and> length (csvRows csv) < 2)
      \<or> (e = NoHeaderRow \<and> 2 \<le> length (csvRows csv) \<and> detectHeaderRowIndex (csvRows csv) = - 1)
      \<or> (e = NoUsageColumn \<and> 2 \<le> length (csvRows csv) \<and> detectHeaderRowIndex (csvRows csv) \<noteq> - 1
           \<and> usageIdx (usageColumnsOf csv) = - 1)
      \<or> (e = NoReadings \<and> 2 \<le> length (csvRows csv) \<and> detectHeaderRowIndex (csvRows csv) \<noteq> - 1
           \<and> usageIdx (usageColumnsOf csv) \<noteq> - 1 \<and> rawReadings host csv = [])"
    by (subst parsePgeIntervalCsv_cases) auto
  have 2: "parsePgeGasCsv host csv = Inl e \<longleftrightarrow>
        (e = EmptyCsv \<and> length (csvRows csv) < 2)
      \<or> (e = NoHeaderRow \<and> 2 \<le> length (csvRows csv) \<and> detectHeaderRowIndex_gas (csvRows csv) = - 1)
      \<or> (e = NoUsageColumn \<and> 2 \<le> length (csvRows csv) \<and> detectHeaderRowIndex_gas (csvRows csv) \<noteq> - 1
           \<and> thermsColumnOf csv = - 1)
      \<or> (e = NoReadings \<and> 2 \<le> length (csvRows csv) \<and> detectHeaderRowIndex_gas (csvRows csv) \<noteq> - 1
           \<and> thermsColumnOf csv \<noteq> - 1 \<and> rawGasReadings host csv = [])"
    by (subst parsePgeGasCsv_cases) auto
  have 3: "(\<exists>res. parsePgeIntervalCsv host csv = Inr res) \<longleftrightarrow>
        2 \<le> length (csvRows csv) \<and> detectHeaderRowIndex (csvRows csv) \<noteq> - 1
      \<and> usageIdx (usageColumnsOf csv) \<noteq> - 1 \<and> rawReadings host csv \<noteq> []"
    by (subst parsePgeIntervalCsv_cases) auto
  show ?thesis
    unfolding 1 2 3 h hg u ug r rg by auto
qed

text \<open>
  An export whose only data row has the time \<open>noon\<close>: the header is detected, the usage
  column is found, the row is skipped, and the parse fails with "no readings".
\<close>

theorem parse_errors_witness:
  "parsePgeIntervalCsv exampleHost unreadableCsv = Inl NoReadings
   \<and> (\<exists>i. headerCandidate scoreHeaderRow 4 (csvRows unreadableCsv) i)
   \<and> \<not> noUsageColumn (headersAt (csvRows unreadableCsv) (detectHeaderRowIndex (csvRows unreadableCsv)))
   \<and> rowReading exampleHost (usageColumnsOf unreadableCsv) (timeColumnsOf unreadableCsv)
        [''01/18/2025'', ''noon'', ''1.5''] = None"
proof -
  have p: "parsePgeIntervalCsv exampleHost unreadableCsv = Inl NoReadings"
    by (subst parsePgeIntervalCsv_cases)
      (simp add: unreadable_rows [THEN arg_cong, of length] unreadable_header unreadable_usage
        unreadable_raw)
  from parse_errors [of exampleHost unreadableCsv NoReadings] p
  have "(\<exists>i. headerCandidate scoreHeaderRow 4 (csvRows unreadableCsv) i)
      \<and> \<not> noUsageColumn (headersAt (csvRows unreadableCsv) (detectHeaderRowIndex (csvRows unreadableCsv)))
      \<and> (\<forall>row \<in> set (dataRows unreadableCsv).
            rowReading exampleHost (usageColumnsOf unreadableCsv) (timeColumnsOf unreadableCsv) row = None)"
    by simp
  then show ?thesis using p by (simp add: unreadable_data)
qed

(* ---- C8 ---- *)

section \<open>Skipped rows (C8)\<close>

text \<open>
  C8, as amended. A data row is skipped (excluded from the readings and counted) exactly
  when, without solar columns, its usage cell has no number, or when no timestamp strategy
  gives a valid date. With solar columns an import or export cell without a number counts as
  0 and the row is kept. When the parse succeeds, the readings are built from the rows that
  were not skipped, and the warnings hold exactly one skip warning, carrying the number of
  skipped rows, when that number is positive, and none otherwise. A skipped row alone is
  never fatal: the "no readings" failure occurs only when every data row is skipped.
\<close>

theorem skipped_rows:
  "(rowReading host u t row = None \<longleftrightarrow>
        (\<not> hasSolarColumns u \<and> parseNumber (cellAt row (usageIdx u)) = None)
      \<or> (\<forall>d. resolveTimestamp host (15 * 60 * 1000) t row \<noteq> ValidDate d))
   \<and> (parsePgeIntervalCsv host csv = Inr res \<longrightarrow>
        pge_readings res = map (\<lambda>(d, v). \<lparr>timestamp = d, value_kwh = v\<rparr>)
          (normalizeReadings host (map (\<lambda>r. (timestamp r, value_kwh r))
             (List.map_filter (rowReading host (usageColumnsOf csv) (timeColumnsOf csv)) (dataRows csv))))
      \<and> filter isSkipWarning (pge_warnings res)
          = (if skippedRows host csv > 0 then [SkippedRows (skippedRows host csv)] else []))
   \<and> (parsePgeIntervalCsv host csv = Inl NoReadings \<longrightarrow> skippedRows host csv = length (dataRows csv))
   \<and> (parsePgeIntervalCsv host csv = Inl e \<and> skippedRows host csv < length (dataRows csv)
        \<longrightarrow> e = EmptyCsv \<or> e = NoHeaderRow \<or> e = NoUsageColumn)"
proof (intro conjI impI)
  show "rowReading host u t row = None \<longleftrightarrow>
        (\<not> hasSolarColumns u \<and> parseNumber (cellAt row (usageIdx u)) = None)
      \<or> (\<forall>d. resolveTimestamp host (15 * 60 * 1000) t row \<noteq> ValidDate d)"
    by (cases "resolveTimestamp host (15 * 60 * 1000) t row")
      (auto simp: rowReading_def rowUsage_def Let_def split: option.splits)
next
  assume p: "parsePgeIntervalCsv host csv = Inr res"
  then have res: "res = \<lparr>pge_readings = map (\<lambda>(d, v). \<lparr>timestamp = d, value_kwh = v\<rparr>)
                  (normalizeReadings host (map (\<lambda>r. (timestamp r, value_kwh r)) (rawReadings host csv))),
               pge_warnings = (if hasSolarColumns (usageColumnsOf csv) then [SolarNetUsage] else [])
                 @ (if skippedRows host csv > 0 then [SkippedRows (skippedRows host csv)] else [])
                 @ intervalWarning
                     (normalizeReadings host (map (\<lambda>r. (timestamp r, value_kwh r)) (rawReadings host csv)))\<rparr>"
    by (subst (asm) parsePgeIntervalCsv_cases) (auto split: if_splits)
  show "pge_readings res = map (\<lambda>(d, v). \<lparr>timestamp = d, value_kwh = v\<rparr>)
          (normalizeReadings host (map (\<lambda>r. (timestamp r, value_kwh r))
             (List.map_filter (rowReading host (usageColumnsOf csv) (timeColumnsOf csv)) (dataRows csv))))"
    by (subst res) (simp add: rawReadings_def)
  show "filter isSkipWarning (pge_warnings res)
          = (if skippedRows host csv > 0 then [SkippedRows (skippedRows host csv)] else [])"
    by (subst res) (simp add: skip_filter_interval isSkipWarning_def)
next
  assume p: "parsePgeIntervalCsv host csv = Inl NoReadings"
  then have "rawReadings host csv = []"
    by (subst (asm) parsePgeIntervalCsv_cases) (auto split: if_splits)
  then have "\<forall>row \<in> set (dataRows csv).
      rowReading host (usageColumnsOf csv) (timeColumnsOf csv) row = None"
    by (simp add: rawReadings_def map_filter_empty)
  then show "skippedRows host csv = length (dataRows csv)"
    by (simp add: skippedRows_def)
next
  assume a: "parsePgeIntervalCsv host csv = Inl e \<and> skippedRows host csv < length (dataRows csv)"
  have "\<exists>row \<in> set (dataRows csv).
      rowReading host (usageColumnsOf csv) (timeColumnsOf csv) row \<noteq> None"
  proof (rule ccontr)
    assume "\<not> (\<exists>row \<in> set (dataRows csv).
      rowReading host (usageColumnsOf csv) (timeColumnsOf csv) row \<noteq> None)"
    then have "filter (\<lambda>row. rowReading host (usageColumnsOf csv) (timeColumnsOf csv) row = None)
        (dataRows csv) = dataRows csv"
      by (simp add: filter_id_conv)
    with a show False by (simp add: skippedRows_def)
  qed
  then have "rawReadings host csv \<noteq> []"
    by (simp add: rawReadings_def map_filter_empty)
  with a show "e = EmptyCsv \<or> e = NoHeaderRow \<or> e = NoUsageColumn"
    by (subst (asm) parsePgeIntervalCsv_cases) (auto split: if_splits)
qed

text \<open>
  The export with a preamble: of its 4 data rows the one with usage \<open>abc\<close> is skipped, the
  two rows for 00:15 are merged, and the warnings hold "Skipped 1 row(s)".
\<close>

theorem skipped_rows_witness:
  "\<exists>res. parsePgeIntervalCsv exampleHost exampleCsv = Inr res
     \<and> map (\<lambda>r. (getTime (timestamp r), value_kwh r)) (pge_readings res)
         = [(1737158400000, 2), (1737159300000, 1.734)]
     \<and> filter isSkipWarning (pge_warnings res) = [SkippedRows 1]
     \<and> length (dataRows exampleCsv) = 4"
proof -
  have ne: "rawReadings exampleHost exampleCsv \<noteq> []"
    using example_raw by auto
  from parse_result [of exampleCsv exampleHost, OF _ _ _ ne]
  obtain res where r: "parsePgeIntervalCsv exampleHost exampleCsv = Inr res"
    by (simp add: example_rows [THEN arg_cong, of length] example_header example_usage)
  from skipped_rows [of exampleHost _ _ _ exampleCsv res] r
  have rd: "pge_readings res = map (\<lambda>(d, v). \<lparr>timestamp = d, value_kwh = v\<rparr>)
          (normalizeReadings exampleHost (map (\<lambda>r. (timestamp r, value_kwh r))
             (List.map_filter (rowReading exampleHost (usageColumnsOf exampleCsv) (timeColumnsOf exampleCsv))
                (dataRows exampleCsv))))"
    and w: "filter isSkipWarning (pge_warnings res)
          = (if skippedRows exampleHost exampleCsv > 0 then [SkippedRows (skippedRows exampleHost exampleCsv)] else [])"
    by blast+
  have v: "map (\<lambda>r. (getTime (timestamp r), value_kwh r)) (pge_readings res)
         = [(1737158400000, 2), (1737159300000, 1.734)]"
    using example_normalized by (simp add: rd rawReadings_def comp_def case_prod_beta)
  show ?thesis
    using r v w by (simp add: example_skipped example_data)
qed

text \<open>
  With solar columns, the row whose import cell is \<open>abc\<close> is not skipped: it yields the
  reading 0 - 0.5 = -0.5, no row is counted as skipped and no skip warning is issued.
\<close>

theorem skipped_rows_counterexample:
  "parseNumber (cellAt (dataRows solarCsv ! 0) (importIdx (usageColumnsOf solarCsv))) = None
   \<and> hasSolarColumns (usageColumnsOf solarCsv)
   \<and> map_sum id (\<lambda>res. (map (\<lambda>r. (getTime (timestamp r), value_kwh r)) (pge_readings res), pge_warnings res))
        (parsePgeIntervalCsv exampleHost solarCsv)
       = Inr ([(1737159300000, - 0.5), (1737160200000, 1.5)], [SolarNetUsage])
   \<and> skippedRows exampleHost solarCsv = 0
   \<and> length (dataRows solarCsv) = 2"
proof -
  have c: "parseNumber (cellAt (dataRows solarCsv ! 0) (importIdx (usageColumnsOf solarCsv))) = None"
    unfolding solar_data solar_usage by code_simp
  have ne: "rawReadings exampleHost solarCsv \<noteq> []"
    using solar_raw by auto
  have "parsePgeIntervalCsv exampleHost solarCsv =
     Inr \<lparr>pge_readings = map (\<lambda>(d, v). \<lparr>timestamp = d, value_kwh = v\<rparr>)
                  (normalizeReadings exampleHost (map (\<lambda>r. (timestamp r, value_kwh r)) (rawReadings exampleHost solarCsv))),
               pge_warnings = [SolarNetUsage]\<rparr>"
    using parse_result [of solarCsv exampleHost, OF _ _ _ ne]
    by (simp add: solar_rows [THEN arg_cong, of length] solar_header solar_usage solar_skipped
        solar_interval)
  then have "map_sum id (\<lambda>res. (map (\<lambda>r. (getTime (timestamp r), value_kwh r)) (pge_readings res), pge_warnings res))
        (parsePgeIntervalCsv exampleHost solarCsv)
       = Inr ([(1737159300000, - 0.5), (1737160200000, 1.5)], [SolarNetUsage])"
    using solar_normalized by (simp add: comp_def case_prod_beta)
  then show ?thesis
    using c by (simp add: solar_usage solar_skipped solar_data)
qed

section \<open>Gas comparison (C9)\<close>

text \<open>
  C9. \<open>calculateGasComparison\<close> applies no 30-day scaling: for a non-empty reading list the
  breakdown has exactly one entry per distinct month key of the readings, the usage of an
  entry is the sum of the readings of its month, its cost is
  min(usage, baselineTherms) \<times> baselineRate + max(0, usage - baselineTherms) \<times> overBaselineRate
  + fixedMonthlyCharge, and \<open>estimatedMonthlyCost\<close> is the sum of these monthly costs divided
  by the number of distinct months. For an empty reading list the breakdown is empty and the
  estimate is 0.
\<close>

theorem gas_monthly_average:
  "(readings = [] \<longrightarrow> gas_estimatedMonthlyCost (calculateGasComparison readings tariff) = 0
                     \<and> gas_breakdown (calculateGasComparison readings tariff) = [])
   \<and> (readings \<noteq> [] \<longrightarrow>
        distinct (map monthName (gas_breakdown (calculateGasComparison readings tariff)))
      \<and> set (map monthName (gas_breakdown (calculateGasComparison readings tariff))) = gasMonths readings
      \<and> (\<forall>e \<in> set (gas_breakdown (calculateGasComparison readings tariff)).
            usage e = gasMonthUsage readings (monthName e)
          \<and> cost e = gasMonthCost tariff (usage e))
      \<and> gas_totalCost (calculateGasComparison readings tariff)
          = (\<Sum>k \<in> gasMonths readings. gasMonthCost tariff (gasMonthUsage readings k))
      \<and> gas_estimatedMonthlyCost (calculateGasComparison readings tariff)
          = (\<Sum>k \<in> gasMonths readings. gasMonthCost tariff (gasMonthUsage readings k))
            / real (card (gasMonths readings)))"
proof (intro conjI impI)
  assume "readings = []"
  then show "gas_estimatedMonthlyCost (calculateGasComparison readings tariff) = 0"
    and "gas_breakdown (calculateGasComparison readings tariff) = []"
    by (simp_all add: calculateGasComparison_def calculateGasMonthlyBreakdown_def Let_def)
next
  assume ne: "readings \<noteq> []"
  let ?bd = "calculateGasMonthlyBreakdown readings tariff"
  have bd: "gas_breakdown (calculateGasComparison readings tariff) = ?bd"
    by (simp add: calculateGasComparison_def Let_def)
  from gas_breakdown_entries [OF ne, of tariff]
  have d: "distinct (map monthName ?bd)" and s: "set (map monthName ?bd) = gasMonths readings"
    and e: "\<And>e. e \<in> set ?bd \<Longrightarrow> usage e = gasMonthUsage readings (monthName e)
              \<and> cost e = gasMonthCost tariff (gasMonthUsage readings (monthName e))"
    by blast+
  show "distinct (map monthName (gas_breakdown (calculateGasComparison readings tariff)))"
    using d bd by simp
  show "set (map monthName (gas_breakdown (calculateGasComparison readings tariff))) = gasMonths readings"
    using s bd by simp
  show "\<forall>e \<in> set (gas_breakdown (calculateGasComparison readings tariff)).
            usage e = gasMonthUsage readings (monthName e)
          \<and> cost e = gasMonthCost tariff (usage e)"
    using e bd by simp
  have "sum_list (map cost ?bd)
      = sum_list (map (\<lambda>k. gasMonthCost tariff (gasMonthUsage readings k)) (map monthName ?bd))"
    using e by (simp add: comp_def cong: map_cong)
  also have "\<dots> = (\<Sum>k \<in> set (map monthName ?bd). gasMonthCost tariff (gasMonthUsage readings k))"
    using d by (simp only: sum_list_distinct_conv_sum_set)
  finally have tot: "sum_list (map cost ?bd)
      = (\<Sum>k \<in> gasMonths readings. gasMonthCost tariff (gasMonthUsage readings k))"
    using s by simp
  have len: "length ?bd = card (gasMonths readings)"
    using d s distinct_card [of "map monthName ?bd"] by simp
  have pos: "length ?bd > 0"
    using ne len by (simp add: gasMonths_def card_gt_0_iff)
  show "gas_totalCost (calculateGasComparison readings tariff)
          = (\<Sum>k \<in> gasMonths readings. gasMonthCost tariff (gasMonthUsage readings k))"
    using tot by (simp add: calculateGasComparison_def Let_def foldl_plus)
  show "gas_estimatedMonthlyCost (calculateGasComparison readings tariff)
          = (\<Sum>k \<in> gasMonths readings. gasMonthCost tariff (gasMonthUsage readings k))
            / real (card (gasMonths readings))"
  proof -
    have "gas_estimatedMonthlyCost (calculateGasComparison readings tariff)
        = sum_list (map cost ?bd) / real (length ?bd)"
      using pos by (simp add: calculateGasComparison_def Let_def foldl_plus)
    then show ?thesis by (simp only: tot len)
  qed
qed

text \<open>
  January 2025 with 20 + 25 therms and February 2025 with 10 therms, baseline 30 therms at 2,
  3 above it, fixed charge 5: the months cost 110 and 25, the estimate is their mean.
\<close>

theorem gas_monthly_average_witness:
  "exampleGasReadings \<noteq> []
   \<and> gas_estimatedMonthlyCost (calculateGasComparison exampleGasReadings exampleGasTariff)
       = (\<Sum>k \<in> gasMonths exampleGasReadings.
            gasMonthCost exampleGasTariff (gasMonthUsage exampleGasReadings k))
         / real (card (gasMonths exampleGasReadings))
   \<and> map cost (gas_breakdown (calculateGasComparison exampleGasReadings exampleGasTariff)) = [110, 25]
   \<and> gas_estimatedMonthlyCost (calculateGasComparison exampleGasReadings exampleGasTariff) = (110 + 25) / 2"
proof -
  have ne: "exampleGasReadings \<noteq> []"
    by (simp add: exampleGasReadings_def)
  have v: "map cost (gas_breakdown (calculateGasComparison exampleGasReadings exampleGasTariff)) = [110, 25]
     \<and> gas_estimatedMonthlyCost (calculateGasComparison exampleGasReadings exampleGasTariff) = (110 + 25) / 2"
    by code_simp
  from gas_monthly_average [of exampleGasReadings exampleGasTariff] ne
  have "gas_estimatedMonthlyCost (calculateGasComparison exampleGasReadings exampleGasTariff)
       = (\<Sum>k \<in> gasMonths exampleGasReadings.
            gasMonthCost exampleGasTariff (gasMonthUsage exampleGasReadings k))
         / real (card (gasMonths exampleGasReadings))"
    by blast
  with ne v show ?thesis by blast
qed

section \<open>The two copies of the engine (C10)\<close>

text \<open>
  C10, as amended. The two copies of the engine return the same total cost and breakdown
  for a tariff, and the same comparison results for a roster, whenever every reading is
  charged alike under each tariff: the period the reading is charged at has no summer
  override in play (it defines no \<open>summerRate\<close>, or the month is outside 5..8, or its
  \<open>summerRate\<close> equals its \<open>rate\<close>) and, when the tariff is flat or tiered, the running
  monthly counter before the reading is below the baseline (270 in months 5-8, 350
  otherwise). Tariffs with an empty \<open>periods\<close> are included: both copies throw on them.
  The copies are not equal on every input.
\<close>

theorem engines_agree_where_charged_alike:
  assumes "list_all (\<lambda>t. allChargedAlike t rs) allTariffs"
  shows "list_all (\<lambda>t. calculateDetailedCost_part001 rs t = calculateDetailedCost rs t) allTariffs
       \<and> compareTariffs_part001 rs cur allTariffs = compareTariffs rs cur allTariffs"
proof -
  have eq: "calculateDetailedCost_part001 rs t = calculateDetailedCost rs t" if "t \<in> set allTariffs" for t
    using assms that calculateDetailedCost_agree [of t rs] by (auto simp: list_all_iff)
  have cur: "calculateDetailedCost_part001 rs t = calculateDetailedCost rs t"
    if "(case find (\<lambda>t. tariff_id t = cur) allTariffs of
                Some t \<Rightarrow> Some t
              | None \<Rightarrow> (case allTariffs of [] \<Rightarrow> None | t0 # _ \<Rightarrow> Some t0)) = Some t" for t
  proof -
    have "t \<in> set allTariffs"
      using that by (auto split: option.splits list.splits dest: find_in_set)
    then show ?thesis by (rule eq)
  qed
  have "compareTariffs_part001 rs cur allTariffs = compareTariffs rs cur allTariffs"
    unfolding compareTariffs_part001_def compareTariffs_def
    by (auto simp: cur eq Let_def split: option.splits cong: map_cong)
  then show ?thesis using eq by (simp add: list_all_iff)
qed

text \<open>
  January readings of 100 and 170 kWh on the roster [\<open>pge-e1\<close> (flat, 0.38, summer 0.40),
  time-of-use (0.46 and 0.39, summer 0.55 and 0.47)]: the month is outside 5..8 and the
  counters 0 and 100 are below 350.
\<close>

theorem engines_agree_witness:
  "calculateDetailedCost_part001 winterReadings pgeE1 = calculateDetailedCost winterReadings pgeE1
   \<and> calculateDetailedCost_part001 winterReadings exampleTou = calculateDetailedCost winterReadings exampleTou
   \<and> compareTariffs_part001 winterReadings ''pge-e1'' [pgeE1, exampleTou]
       = compareTariffs winterReadings ''pge-e1'' [pgeE1, exampleTou]
   \<and> tariff_type pgeE1 = Flat
   \<and> map summerRate (periods pgeE1) = [Some (toDouble 0.40)]"
proof -
  have a: "allChargedAlike pgeE1 winterReadings"
    by (simp add: allChargedAlike_def chargedAlike_def overrideInPlay_def cost_eval
        winterReadings_def pgeE1_def double_eval)
  have b: "allChargedAlike exampleTou winterReadings"
    by (simp add: allChargedAlike_def chargedAlike_def overrideInPlay_def cost_eval
        winterReadings_def exampleTou_def double_eval)
  have "list_all (\<lambda>t. allChargedAlike t winterReadings) [pgeE1, exampleTou]"
    using a b by simp
  from engines_agree_where_charged_alike [OF this, of "''pge-e1''"]
  show ?thesis by (simp add: pgeE1_def)
qed

text \<open>
  The copies differ on the flat tariff at 0.38 with January readings of 350 and 10 kWh
  (133 + 10 \<times> (0.38 \<times> 1.28) = 137.864 against 133 + 10 \<times> (0.38 \<times> 1.24) = 137.712), and on
  the time-of-use tariff with a July reading at 17:00 (19.6 at the \<open>rate\<close> against 20.5 at
  the \<open>summerRate\<close>).
\<close>

theorem engines_differ_counterexample:
  "calculateDetailedCost_part001 winter360 exampleFlat \<noteq> calculateDetailedCost winter360 exampleFlat
   \<and> map_option totalCost (calculateDetailedCost winter360 exampleFlat) = Some (toDouble 137.864)
   \<and> map_option totalCost (calculateDetailedCost_part001 winter360 exampleFlat) = Some (toDouble 137.712)
   \<and> calculateDetailedCost_part001 julyPeak exampleTou \<noteq> calculateDetailedCost julyPeak exampleTou
   \<and> map_option totalCost (calculateDetailedCost julyPeak exampleTou) = Some (toDouble 19.6)
   \<and> map_option totalCost (calculateDetailedCost_part001 julyPeak exampleTou) = Some 20.5"
proof -
  have nf: "periods exampleFlat \<noteq> []" by (simp add: exampleFlat_def)
  have nt: "periods exampleTou \<noteq> []" by (simp add: exampleTou_def)
  have 1: "map_option totalCost (calculateDetailedCost winter360 exampleFlat) = Some (toDouble 137.864)"
    unfolding total_charged [OF nf]
    by (simp add: cost_eval winter360_def exampleFlat_def double_eval)
  have 2: "map_option totalCost (calculateDetailedCost_part001 winter360 exampleFlat) = Some (toDouble 137.712)"
    unfolding total_part001_charged [OF nf]
    by (simp add: cost_eval winter360_def exampleFlat_def double_eval)
  have 3: "map_option totalCost (calculateDetailedCost julyPeak exampleTou) = Some (toDouble 19.6)"
    unfolding total_charged [OF nt]
    by (simp add: cost_eval julyPeak_def exampleTou_def double_eval)
  have 4: "map_option totalCost (calculateDetailedCost_part001 julyPeak exampleTou) = Some 20.5"
    unfolding total_part001_charged [OF nt]
    by (simp add: cost_eval julyPeak_def exampleTou_def double_eval)
  have 5: "toDouble 137.864 \<noteq> toDouble 137.712" "toDouble 19.6 \<noteq> (20.5 :: real)"
    by (simp_all add: double_eval)
  have 6: "calculateDetailedCost_part001 winter360 exampleFlat \<noteq> calculateDetailedCost winter360 exampleFlat"
    using 1 2 5 by auto
  have 7: "calculateDetailedCost_part001 julyPeak exampleTou \<noteq> calculateDetailedCost julyPeak exampleTou"
    using 3 4 5 by auto
  show ?thesis using 1 2 3 4 6 7 by simp
qed


end
